theory Spec2Isabelle
  imports Main "HOL-Library.Word"
begin

unbundle bit_operations_syntax

section \<open>Data representation\<close>

text \<open>
  The program is the n8n node \<^verbatim>\<open>HtmlToEpubNode.node.ts\<close>. A \<^verbatim>\<open>Buffer\<close> is a list
  of bytes. A JavaScript string is a list of UTF-16 code units, which is what
  \<^verbatim>\<open>substring\<close>, \<^verbatim>\<open>replace\<close> and \<^verbatim>\<open>length\<close> count. A JavaScript number that holds a
  length or an offset is a natural number; the 32-bit values of the bit operators are
  \<open>32 word\<close>s.
\<close>

type_synonym byte = "8 word"
type_synonym u32 = "32 word"
type_synonym jschar = "16 word"
type_synonym jsstring = "jschar list"

text \<open>A string literal of the source, as code units (the literals are ASCII).\<close>

definition str :: "string \<Rightarrow> jsstring" where
  "str s = map of_char s"

text \<open>
  \<^verbatim>\<open>Buffer.from(s, 'utf8')\<close>: the UTF-8 encoding of the code units, a surrogate pair
  giving one four-byte sequence and a lone surrogate the replacement character U+FFFD.
\<close>

definition utf8_replacement :: "byte list" where
  "utf8_replacement = [0xEF, 0xBF, 0xBD]"

definition utf8_pair :: "jschar \<Rightarrow> jschar \<Rightarrow> byte list" where
  "utf8_pair hi lo =
     (let cp = (0x10000 :: u32) + push_bit 10 (ucast hi - 0xD800) + (ucast lo - 0xDC00)
      in [0xF0 OR ucast (drop_bit 18 cp),
          0x80 OR ucast (drop_bit 12 cp AND 0x3F),
          0x80 OR ucast (drop_bit 6 cp AND 0x3F),
          0x80 OR ucast (cp AND 0x3F)])"

fun utf8 :: "jsstring \<Rightarrow> byte list" where
  "utf8 [] = []"
| "utf8 [c] =
     (if c < 0x80 then [ucast c]
      else if c < 0x800 then [0xC0 OR ucast (drop_bit 6 c), 0x80 OR ucast (c AND 0x3F)]
      else if 0xD800 \<le> c \<and> c < 0xE000 then utf8_replacement
      else [0xE0 OR ucast (drop_bit 12 c), 0x80 OR ucast (drop_bit 6 c AND 0x3F),
            0x80 OR ucast (c AND 0x3F)])"
| "utf8 (c # d # ds) =
     (if c < 0x80 then ucast c # utf8 (d # ds)
      else if c < 0x800 then
        [0xC0 OR ucast (drop_bit 6 c), 0x80 OR ucast (c AND 0x3F)] @ utf8 (d # ds)
      else if 0xD800 \<le> c \<and> c < 0xDC00 \<and> 0xDC00 \<le> d \<and> d < 0xE000 then
        utf8_pair c d @ utf8 ds
      else if 0xD800 \<le> c \<and> c < 0xE000 then utf8_replacement @ utf8 (d # ds)
      else [0xE0 OR ucast (drop_bit 12 c), 0x80 OR ucast (drop_bit 6 c AND 0x3F),
            0x80 OR ucast (c AND 0x3F)] @ utf8 (d # ds))"

section \<open>CRC32\<close>

text \<open>
  \<^verbatim>\<open>
  const CRC_TABLE = (() => {
    const table = new Uint32Array(256);
    for (let n = 0; n < 256; n++) {
      let c = n;
      for (let k = 0; k < 8; k++) c = (c & 1) ? (0xedb88320 ^ (c >>> 1)) : (c >>> 1);
      table[n] = c >>> 0;
    }
    return table;
  })();
  function crc32(buf: Buffer): number {
    let c = 0 ^ -1;
    for (let i = 0; i < buf.length; i++) c = (c >>> 8) ^ CRC_TABLE[(c ^ buf[i]) & 0xff];
    return (c ^ -1) >>> 0;
  }
  \<close>
  The bit operators work on the 32-bit value of their operands, so \<open>c\<close> is a
  \<open>32 word\<close>; \<open>-1\<close> is the word of all ones, and the final \<^verbatim>\<open>>>> 0\<close> reads the word
  as an unsigned number.
\<close>

definition crc_round :: "u32 \<Rightarrow> u32" where
  "crc_round c = (if c AND 1 \<noteq> 0 then 0xedb88320 XOR drop_bit 1 c else drop_bit 1 c)"

definition CRC_TABLE :: "u32 list" where
  "CRC_TABLE = map (\<lambda>n. (crc_round ^^ 8) (of_nat n)) [0..<256]"

fun crc32_loop :: "u32 \<Rightarrow> byte list \<Rightarrow> u32" where
  "crc32_loop c [] = c"
| "crc32_loop c (b # bs) =
     crc32_loop (drop_bit 8 c XOR CRC_TABLE ! unat ((c XOR ucast b) AND 0xff)) bs"

definition crc32 :: "byte list \<Rightarrow> nat" where
  "crc32 buf = unat (crc32_loop (0 XOR (-1)) buf XOR (-1))"

section \<open>String helpers\<close>

text \<open>\<^verbatim>\<open>s.replace(/c/g, r)\<close> for a single character \<open>c\<close>.\<close>

definition replace_char :: "jschar \<Rightarrow> jsstring \<Rightarrow> jsstring \<Rightarrow> jsstring" where
  "replace_char c r s = concat (map (\<lambda>x. if x = c then r else [x]) s)"

definition escapeXml :: "jsstring \<Rightarrow> jsstring" where
  \<open>escapeXml unsafe =
     replace_char 0x27 (str ''&apos;'')
       (replace_char 0x22 (str ''&quot;'')
         (replace_char 0x3E (str ''&gt;'')
           (replace_char 0x3C (str ''&lt;'')
             (replace_char 0x26 (str ''&amp;'') unsafe))))\<close>

definition is_lower_alnum :: "jschar \<Rightarrow> bool" where
  "is_lower_alnum c = ((0x61 \<le> c \<and> c \<le> 0x7A) \<or> (0x30 \<le> c \<and> c \<le> 0x39))"

function replace_non_alnum_runs :: "jsstring \<Rightarrow> jsstring" where
  "replace_non_alnum_runs [] = []"
| "replace_non_alnum_runs (c # cs) =
     (if is_lower_alnum c then c # replace_non_alnum_runs cs
      else 0x2D # replace_non_alnum_runs (dropWhile (\<lambda>x. \<not> is_lower_alnum x) cs))"
  by pat_completeness auto
termination
  by (relation "measure length") (simp_all add: length_dropWhile_le le_imp_less_Suc)

definition strip_hyphens :: "jsstring \<Rightarrow> jsstring" where
  "strip_hyphens s = rev (dropWhile (\<lambda>x. x = 0x2D) (rev (dropWhile (\<lambda>x. x = 0x2D) s)))"

definition slugify :: "(jsstring \<Rightarrow> jsstring) \<Rightarrow> jsstring \<Rightarrow> jsstring" where
  "slugify toLowerCase s =
     (let r = take 60 (strip_hyphens (replace_non_alnum_runs (toLowerCase s)))
      in if r = [] then str ''chapter'' else r)"

definition ascii_lower :: "jsstring \<Rightarrow> jsstring" where
  "ascii_lower = map (\<lambda>c. if 0x41 \<le> c \<and> c \<le> 0x5A then c + 0x20 else c)"

section \<open>DOS time and the archive builder\<close>

text \<open>
  A \<^verbatim>\<open>Date\<close> is read only through its UTC getters, so it is the record of their
  values. \<^verbatim>\<open><<\<close> and \<^verbatim>\<open>|\<close> work on the 32-bit value of their operands and give a
  signed 32-bit number.
  \<^verbatim>\<open>
  function msDosDateTime(d = new Date()): { time: number; date: number } {
    const year = d.getUTCFullYear();
    const month = d.getUTCMonth() + 1;
    const day = d.getUTCDate();
    const hours = d.getUTCHours();
    const minutes = d.getUTCMinutes();
    const seconds = Math.floor(d.getUTCSeconds() / 2);
    const time = (hours << 11) | (minutes << 5) | seconds;
    const date = ((year - 1980) << 9) | (month << 5) | day;
    return { time, date };
  }
  \<close>
\<close>

record Date =
  getUTCFullYear :: int
  getUTCMonth :: int
  getUTCDate :: int
  getUTCHours :: int
  getUTCMinutes :: int
  getUTCSeconds :: int

definition shl :: "int \<Rightarrow> nat \<Rightarrow> u32" where
  "shl x n = push_bit n (word_of_int x)"

definition msDosDateTime :: "Date \<Rightarrow> int \<times> int" where
  "msDosDateTime d =
     (let year = getUTCFullYear d;
          month = getUTCMonth d + 1;
          day = getUTCDate d;
          hours = getUTCHours d;
          minutes = getUTCMinutes d;
          seconds = getUTCSeconds d div 2;
          time = sint (shl hours 11 OR shl minutes 5 OR word_of_int seconds);
          date = sint (shl (year - 1980) 9 OR shl month 5 OR word_of_int day)
      in (time, date))"

text \<open>
  \<^verbatim>\<open>buf.writeUInt16LE(v, p)\<close> and \<^verbatim>\<open>buf.writeUInt32LE(v, p)\<close> throw a
  \<^verbatim>\<open>RangeError\<close> (\<^verbatim>\<open>ERR_OUT_OF_RANGE\<close>) when \<open>v\<close> is outside the field; otherwise they
  store the little-endian bytes. Every header is allocated at its exact size and filled
  from position 0 without gaps, so a header is the concatenation of its fields.
  \<^verbatim>\<open>x >>> 0\<close> is \<open>x\<close> modulo \<open>2^32\<close>.
\<close>

datatype error = ERR_OUT_OF_RANGE

definition fits_uint16 :: "int \<Rightarrow> bool" where
  "fits_uint16 v = (0 \<le> v \<and> v \<le> 0xFFFF)"

definition writeUInt16LE :: "int \<Rightarrow> byte list" where
  "writeUInt16LE v = [word_of_int v, word_of_int (v div 0x100)]"

definition writeUInt32LE :: "nat \<Rightarrow> byte list" where
  "writeUInt32LE v =
     [of_nat v, of_nat (v div 0x100), of_nat (v div 0x10000), of_nat (v div 0x1000000)]"

definition ushr0 :: "nat \<Rightarrow> nat" where
  "ushr0 x = x mod 2 ^ 32"

text \<open>
  \<^verbatim>\<open>
  class ZipBuilder {
    private files: Array<{ name: string; crc: number; comp: Buffer; uncomp: number;
      method: number; time: number; date: number; offset: number; }> = [];
    private chunks: Buffer[] = [];
    private offset = 0;
    private readonly UTF8_FLAG = 0x0800;
  \<close>
  The entry's \<^verbatim>\<open>comp\<close> is \<open>comp_buf\<close> here, its \<^verbatim>\<open>method\<close> is \<open>method_code\<close>, and
  the builder's \<^verbatim>\<open>offset\<close> is \<open>this_offset\<close>.
\<close>

record file_entry =
  name :: jsstring
  crc :: nat
  comp_buf :: "byte list"
  uncomp :: nat
  method_code :: int
  time :: int
  date :: int
  offset :: nat

record ZipBuilder =
  files :: "file_entry list"
  chunks :: "byte list list"
  this_offset :: nat

definition UTF8_FLAG :: int where
  "UTF8_FLAG = 0x0800"

definition new_ZipBuilder :: ZipBuilder where
  "new_ZipBuilder = \<lparr>files = [], chunks = [], this_offset = 0\<rparr>"

text \<open>
  \<^verbatim>\<open>
  addFile(name: string, data: string | Buffer, opts?: { compress?: boolean; date?: Date }) {
    const buf = Buffer.isBuffer(data) ? data : Buffer.from(data, 'utf8');
    const { time, date } = msDosDateTime(opts?.date);
    const crc = crc32(buf);
    const compress = opts?.compress !== false; // default true
    const method = compress ? 8 : 0; // 8 = deflate, 0 = store
    const comp = compress ? deflateRawSync(buf) : buf;
    const nameBuf = Buffer.from(name, 'utf8');
    const localHeader = Buffer.alloc(30 + nameBuf.length);
    let p = 0;
    localHeader.writeUInt32LE(0x04034b50, p); p += 4; // local header sig
    localHeader.writeUInt16LE(20, p); p += 2; // version needed
    localHeader.writeUInt16LE(this.UTF8_FLAG, p); p += 2; // flags (UTF-8)
    localHeader.writeUInt16LE(method, p); p += 2; // method
    localHeader.writeUInt16LE(time, p); p += 2; // time
    localHeader.writeUInt16LE(date, p); p += 2; // date
    localHeader.writeUInt32LE(crc >>> 0, p); p += 4; // crc
    localHeader.writeUInt32LE(comp.length >>> 0, p); p += 4; // comp size
    localHeader.writeUInt32LE(buf.length >>> 0, p); p += 4; // uncomp size
    localHeader.writeUInt16LE(nameBuf.length, p); p += 2; // fname len
    localHeader.writeUInt16LE(0, p); p += 2; // extra len
    nameBuf.copy(localHeader, p);
    const offset = this.offset;
    this.chunks.push(localHeader, comp);
    this.offset += localHeader.length + comp.length;
    this.files.push({ name, crc, comp, uncomp: buf.length, method, time, date, offset });
  }
  \<close>
  \<^verbatim>\<open>deflateRawSync\<close> is zlib's; it is a parameter. \<open>now\<close> is what \<^verbatim>\<open>new Date()\<close>
  gives at the call, used when the options carry no date. The three 16-bit writes of
  values that are not constants (time, date, name length) are the places where the call
  can throw, before the builder is changed.
\<close>

datatype data = Str jsstring | Buf "byte list"

record add_opts =
  compress :: "bool option"
  opt_date :: "Date option"

definition addFile ::
  "(byte list \<Rightarrow> byte list) \<Rightarrow> Date \<Rightarrow> ZipBuilder \<Rightarrow> jsstring \<Rightarrow> data \<Rightarrow> add_opts option
   \<Rightarrow> error + ZipBuilder" where
  "addFile deflateRawSync now this nm dat opts =
     (let buf = (case dat of Buf b \<Rightarrow> b | Str s \<Rightarrow> utf8 s);
          (tm, dt) = msDosDateTime
            (case opts of None \<Rightarrow> now
             | Some os \<Rightarrow> (case opt_date os of None \<Rightarrow> now | Some d \<Rightarrow> d));
          c = crc32 buf;
          compr = (case opts of None \<Rightarrow> True | Some os \<Rightarrow> compress os \<noteq> Some False);
          meth = (if compr then 8 else 0);
          comp = (if compr then deflateRawSync buf else buf);
          nameBuf = utf8 nm
      in if fits_uint16 tm \<and> fits_uint16 dt \<and> fits_uint16 (int (length nameBuf)) then
           let localHeader =
                 writeUInt32LE 0x04034b50 @ writeUInt16LE 20 @ writeUInt16LE UTF8_FLAG
                 @ writeUInt16LE meth @ writeUInt16LE tm @ writeUInt16LE dt
                 @ writeUInt32LE (ushr0 c) @ writeUInt32LE (ushr0 (length comp))
                 @ writeUInt32LE (ushr0 (length buf))
                 @ writeUInt16LE (int (length nameBuf)) @ writeUInt16LE 0 @ nameBuf;
               off = this_offset this
           in Inr \<lparr>files = files this @
                     [\<lparr>name = nm, crc = c, comp_buf = comp, uncomp = length buf,
                       method_code = meth, time = tm, date = dt, offset = off\<rparr>],
                    chunks = chunks this @ [localHeader, comp],
                    this_offset = this_offset this + (length localHeader + length comp)\<rparr>
         else Inl ERR_OUT_OF_RANGE)"

text \<open>
  \<^verbatim>\<open>
  build(): Buffer {
    const central: Buffer[] = [];
    let centralSize = 0;
    for (const f of this.files) {
      const nameBuf = Buffer.from(f.name, 'utf8');
      const hdr = Buffer.alloc(46 + nameBuf.length);
      let p = 0;
      hdr.writeUInt32LE(0x02014b50, p); p += 4; // central header sig
      hdr.writeUInt16LE(0x031E, p); p += 2; // version made by (arbitrary)
      hdr.writeUInt16LE(20, p); p += 2; // version needed
      hdr.writeUInt16LE(0x0800, p); p += 2; // flags UTF-8
      hdr.writeUInt16LE(f.method, p); p += 2; // method
      hdr.writeUInt16LE(f.time, p); p += 2; // time
      hdr.writeUInt16LE(f.date, p); p += 2; // date
      hdr.writeUInt32LE(f.crc >>> 0, p); p += 4; // crc
      hdr.writeUInt32LE(f.comp.length >>> 0, p); p += 4; // comp size
      hdr.writeUInt32LE(f.uncomp >>> 0, p); p += 4; // uncomp size
      hdr.writeUInt16LE(nameBuf.length, p); p += 2; // name len
      hdr.writeUInt16LE(0, p); p += 2; // extra len
      hdr.writeUInt16LE(0, p); p += 2; // comment len
      hdr.writeUInt16LE(0, p); p += 2; // disk start
      hdr.writeUInt16LE(0, p); p += 2; // int attrs
      hdr.writeUInt32LE(0, p); p += 4; // ext attrs
      hdr.writeUInt32LE(f.offset >>> 0, p); p += 4; // rel offset
      nameBuf.copy(hdr, p);
      central.push(hdr);
      centralSize += hdr.length;
    }
    const centralStart = this.offset;
    this.chunks.push(...central);
    this.offset += centralSize;
    const eocd = Buffer.alloc(22);
    let p = 0;
    eocd.writeUInt32LE(0x06054b50, p); p += 4; // EOCD sig
    eocd.writeUInt16LE(0, p); p += 2; // disk no
    eocd.writeUInt16LE(0, p); p += 2; // disk start
    eocd.writeUInt16LE(this.files.length, p); p += 2; // total entries disk
    eocd.writeUInt16LE(this.files.length, p); p += 2; // total entries
    eocd.writeUInt32LE(centralSize >>> 0, p); p += 4; // central size
    eocd.writeUInt32LE(centralStart >>> 0, p); p += 4; // central offset
    eocd.writeUInt16LE(0, p); p += 2; // comment len
    this.chunks.push(eocd);
    this.offset += eocd.length;
    return Buffer.concat(this.chunks);
  }
  \<close>
  The body of the loop is \<open>central_header\<close>; its 16-bit writes of an entry's fields
  throw as those of \<open>addFile\<close> do. \<open>build\<close> returns the buffer and the builder as it
  leaves it.
\<close>

definition central_header :: "file_entry \<Rightarrow> error + byte list" where
  "central_header f =
     (let nameBuf = utf8 (name f)
      in if fits_uint16 (method_code f) \<and> fits_uint16 (time f) \<and> fits_uint16 (date f)
            \<and> fits_uint16 (int (length nameBuf)) then
           Inr (writeUInt32LE 0x02014b50 @ writeUInt16LE 0x031E @ writeUInt16LE 20
                @ writeUInt16LE 0x0800 @ writeUInt16LE (method_code f) @ writeUInt16LE (time f)
                @ writeUInt16LE (date f) @ writeUInt32LE (ushr0 (crc f))
                @ writeUInt32LE (ushr0 (length (comp_buf f))) @ writeUInt32LE (ushr0 (uncomp f))
                @ writeUInt16LE (int (length nameBuf)) @ writeUInt16LE 0 @ writeUInt16LE 0
                @ writeUInt16LE 0 @ writeUInt16LE 0 @ writeUInt32LE 0
                @ writeUInt32LE (ushr0 (offset f)) @ nameBuf)
         else Inl ERR_OUT_OF_RANGE)"

fun central_loop :: "file_entry list \<Rightarrow> error + byte list list" where
  "central_loop [] = Inr []"
| "central_loop (f # fs) =
     (case central_header f of
        Inl e \<Rightarrow> Inl e
      | Inr hdr \<Rightarrow> (case central_loop fs of Inl e \<Rightarrow> Inl e | Inr hs \<Rightarrow> Inr (hdr # hs)))"

definition build :: "ZipBuilder \<Rightarrow> error + (byte list \<times> ZipBuilder)" where
  "build this =
     (case central_loop (files this) of
        Inl e \<Rightarrow> Inl e
      | Inr central \<Rightarrow>
          let centralSize = sum_list (map length central);
              centralStart = this_offset this
          in if fits_uint16 (int (length (files this))) then
               let eocd =
                     writeUInt32LE 0x06054b50 @ writeUInt16LE 0 @ writeUInt16LE 0
                     @ writeUInt16LE (int (length (files this)))
                     @ writeUInt16LE (int (length (files this)))
                     @ writeUInt32LE (ushr0 centralSize) @ writeUInt32LE (ushr0 centralStart)
                     @ writeUInt16LE 0;
                   chunks' = chunks this @ central @ [eocd]
               in Inr (concat chunks',
                       this\<lparr>chunks := chunks',
                            this_offset := this_offset this + centralSize + length eocd\<rparr>)
             else Inl ERR_OUT_OF_RANGE)"

text \<open>A run of the builder: the \<open>addFile\<close> calls in order, each with the clock's
  reading at the call; the first call that throws ends the run.\<close>

record add_call =
  call_name :: jsstring
  call_data :: data
  call_opts :: "add_opts option"
  call_now :: Date

fun addFiles ::
  "(byte list \<Rightarrow> byte list) \<Rightarrow> ZipBuilder \<Rightarrow> add_call list \<Rightarrow> error + ZipBuilder" where
  "addFiles deflateRawSync this [] = Inr this"
| "addFiles deflateRawSync this (c # cs) =
     (case addFile deflateRawSync (call_now c) this (call_name c) (call_data c) (call_opts c) of
        Inl e \<Rightarrow> Inl e
      | Inr this' \<Rightarrow> addFiles deflateRawSync this' cs)"

section \<open>The chapter splitter\<close>

text \<open>
  \<^verbatim>\<open>s.trim()\<close> removes the white space and line terminators of ECMAScript from both
  ends. A template's \<^verbatim>\<open>${n}\<close> for a positive integer is its decimal numeral.
\<close>

definition is_js_space :: "jschar \<Rightarrow> bool" where
  "is_js_space c =
     (c = 0x09 \<or> c = 0x0A \<or> c = 0x0B \<or> c = 0x0C \<or> c = 0x0D \<or> c = 0x20 \<or> c = 0xA0
      \<or> c = 0x1680 \<or> (0x2000 \<le> c \<and> c \<le> 0x200A) \<or> c = 0x2028 \<or> c = 0x2029
      \<or> c = 0x202F \<or> c = 0x205F \<or> c = 0x3000 \<or> c = 0xFEFF)"

definition trim :: "jsstring \<Rightarrow> jsstring" where
  "trim s = rev (dropWhile is_js_space (rev (dropWhile is_js_space s)))"

definition digit_char :: "nat \<Rightarrow> jschar" where
  "digit_char d = of_nat (0x30 + d)"

function show_nat :: "nat \<Rightarrow> jsstring" where
  "show_nat n = (if n < 10 then [digit_char n] else show_nat (n div 10) @ [digit_char (n mod 10)])"
  by pat_completeness auto
termination
  by (relation "measure (\<lambda>n. n)") simp_all

text \<open>
  \<^verbatim>\<open>
  const DEFAULT_CSS = `
  .chapter-content table {
    background: #004b7a;
    margin: 10px auto;
    width: 90%;
    border: none;
    box-shadow: 1px 1px 1px rgba(0,0,0,.75);
    border-collapse: separate;
    border-spacing: 2px;
  }
  .chapter-content table td {
    color: #ccc;
  }
  `;
  \<close>
  The template starts with a line break after the opening backquote and ends with the
  line break before the closing one.
\<close>

definition DEFAULT_CSS :: jsstring where
  \<open>DEFAULT_CSS =
     str ''\<newline>''
     @ str ''.chapter-content table {\<newline>''
     @ str ''  background: #004b7a;\<newline>''
     @ str ''  margin: 10px auto;\<newline>''
     @ str ''  width: 90%;\<newline>''
     @ str ''  border: none;\<newline>''
     @ str ''  box-shadow: 1px 1px 1px rgba(0,0,0,.75);\<newline>''
     @ str ''  border-collapse: separate;\<newline>''
     @ str ''  border-spacing: 2px;\<newline>''
     @ str ''}\<newline>''
     @ str ''.chapter-content table td {\<newline>''
     @ str ''  color: #ccc;\<newline>''
     @ str ''}\<newline>''\<close>

text \<open>
  The document that cheerio's \<^verbatim>\<open>load\<close> builds is a tree of elements (tag name,
  attributes, children), text nodes, comments and directives. The parser itself
  (\<^verbatim>\<open>loadHtml\<close>), the serialiser \<^verbatim>\<open>$.html(el)\<close> (\<open>outerHtml\<close>) and \<^verbatim>\<open>$(el).html()\<close>
  (\<open>innerHtml\<close>) are cheerio's and are parameters. What the source asks of the tree is
  modelled on it: a selector gives its matches in document order, \<^verbatim>\<open>text()\<close> is the
  concatenation of the text nodes below an element, and \<^verbatim>\<open>nextUntil(sel)\<close> gives the
  element siblings after a node up to, not including, the first that matches.
\<close>

datatype node =
  Element jsstring "(jsstring \<times> jsstring) list" "node list"
| Text jsstring
| Comment jsstring
| Directive jsstring

fun is_element :: "node \<Rightarrow> bool" where
  "is_element (Element t a cs) = True"
| "is_element n = False"

fun matches_in :: "(node \<Rightarrow> bool) \<Rightarrow> node list \<Rightarrow> (node \<times> node list) list" where
  "matches_in P [] = []"
| "matches_in P (Element t a cs # ns) =
     (if P (Element t a cs) then [(Element t a cs, ns)] else [])
     @ matches_in P cs @ matches_in P ns"
| "matches_in P (Text s # ns) = matches_in P ns"
| "matches_in P (Comment s # ns) = matches_in P ns"
| "matches_in P (Directive s # ns) = matches_in P ns"

fun textContent :: "node \<Rightarrow> jsstring" where
  "textContent (Element t a cs) = concat (map textContent cs)"
| "textContent (Text s) = s"
| "textContent (Comment s) = []"
| "textContent (Directive s) = []"

text \<open>
  The class selector \<^verbatim>\<open>.chapter\<close> holds of an element whose \<^verbatim>\<open>class\<close> attribute has
  the word \<^verbatim>\<open>chapter\<close> between white space or the ends of the value.
\<close>

definition word_at :: "jsstring \<Rightarrow> jsstring \<Rightarrow> nat \<Rightarrow> bool" where
  "word_at w v i =
     (take (length w) (drop i v) = w
      \<and> (i = 0 \<or> is_js_space (v ! (i - 1)))
      \<and> (i + length w = length v \<or> is_js_space (v ! (i + length w))))"

definition has_word :: "jsstring \<Rightarrow> jsstring \<Rightarrow> bool" where
  "has_word w v = list_ex (word_at w v) [0..<Suc (length v - length w)]"

fun is_style :: "node \<Rightarrow> bool" where
  "is_style (Element t a cs) = (t = str ''style'')"
| "is_style n = False"

fun is_h1_chapter :: "node \<Rightarrow> bool" where
  "is_h1_chapter (Element t a cs) =
     (t = str ''h1'' \<and>
      (case map_of a (str ''class'') of
         None \<Rightarrow> False
       | Some v \<Rightarrow> has_word (str ''chapter'') v))"
| "is_h1_chapter n = False"

definition nextUntil :: "(node \<Rightarrow> bool) \<Rightarrow> node list \<Rightarrow> node list" where
  "nextUntil P sibs = takeWhile (\<lambda>s. \<not> P s) (filter is_element sibs)"

text \<open>
  \<^verbatim>\<open>
  function extractChaptersAndCss(html: string) {
    const $probe = loadHtml(html);
    let cssCollected = '';
    $probe('style').each((_, el) => {
      const css = $probe(el).html();
      if (css) cssCollected += css + '\n';
    });
    cssCollected = (cssCollected || DEFAULT_CSS).trim();
    const $ = loadHtml(`<div id="root">${html}</div>`);
    const chapters: Array<{ title: string; html: string }> = [];
    $('h1.chapter').each((i, el) => {
      const title = $(el).text().trim() || `Chapter ${i + 1}`;
      const titleHtml = $.html(el);
      const siblings = $(el).nextUntil('h1.chapter');
      const bodyHtml = siblings.map((_, s) => $.html(s)).get().join('');
      chapters.push({ title, html: `${titleHtml}\n${bodyHtml}` });
    });
    if (chapters.length === 0) {
      chapters.push({ title: 'Chapter 1', html });
    }
    return { chapters, css: cssCollected };
  }
  \<close>
  A string is false in a condition exactly when it is empty.
\<close>

record chapter_rec =
  title :: jsstring
  html :: jsstring

fun collect_css :: "(node \<Rightarrow> jsstring) \<Rightarrow> node list \<Rightarrow> jsstring" where
  "collect_css innerHtml [] = []"
| "collect_css innerHtml (el # els) =
     (let css = innerHtml el
      in (if css \<noteq> [] then css @ str ''\<newline>'' else []) @ collect_css innerHtml els)"

fun each_chapter ::
  "(node \<Rightarrow> jsstring) \<Rightarrow> nat \<Rightarrow> (node \<times> node list) list \<Rightarrow> chapter_rec list" where
  "each_chapter outerHtml i [] = []"
| "each_chapter outerHtml i ((el, sibs) # rest) =
     (let t = trim (textContent el);
          ttl = (if t \<noteq> [] then t else str ''Chapter '' @ show_nat (i + 1));
          titleHtml = outerHtml el;
          siblings = nextUntil is_h1_chapter sibs;
          bodyHtml = concat (map outerHtml siblings)
      in \<lparr>title = ttl, html = titleHtml @ str ''\<newline>'' @ bodyHtml\<rparr>
         # each_chapter outerHtml (i + 1) rest)"

definition extractChaptersAndCss ::
  "(jsstring \<Rightarrow> node list) \<Rightarrow> (node \<Rightarrow> jsstring) \<Rightarrow> (node \<Rightarrow> jsstring) \<Rightarrow> jsstring
   \<Rightarrow> chapter_rec list \<times> jsstring" where
  \<open>extractChaptersAndCss loadHtml outerHtml innerHtml input =
     (let probe = loadHtml input;
          cssCollected = collect_css innerHtml (map fst (matches_in is_style probe));
          css = trim (if cssCollected \<noteq> [] then cssCollected else DEFAULT_CSS);
          doc = loadHtml (str ''<div id="root">'' @ input @ str ''</div>'');
          chapters = each_chapter outerHtml 0 (matches_in is_h1_chapter doc)
      in (if chapters = [] then [\<lparr>title = str ''Chapter 1'', html = input\<rparr>] else chapters,
          css))\<close>

section \<open>The documents and the EPUB build\<close>

text \<open>
  \<^verbatim>\<open>
  function uuidv4(): string {
    return 'xxxxxxxx-xxxx-4xxx-yxxx-xxxxxxxxxxxx'.replace(/[xy]/g, (c) => {
      const r = (Math.random() * 16) | 0;
      const v = c === 'x' ? r : (r & 0x3) | 0x8;
      return v.toString(16);
    });
  }
  \<close>
  \<open>rnd k\<close> is the value of \<^verbatim>\<open>(Math.random() * 16) | 0\<close> at the \<open>k\<close>-th call of the
  callback, a number from 0 to 15.
\<close>

definition hex_digit :: "4 word \<Rightarrow> jschar" where
  "hex_digit v = (if v < 10 then 0x30 + ucast v else 0x61 + (ucast v - 10))"

fun uuid_replace :: "(nat \<Rightarrow> 4 word) \<Rightarrow> nat \<Rightarrow> jsstring \<Rightarrow> jsstring" where
  "uuid_replace rnd k [] = []"
| "uuid_replace rnd k (c # cs) =
     (if c = 0x78 then hex_digit (rnd k) # uuid_replace rnd (k + 1) cs
      else if c = 0x79 then hex_digit ((rnd k AND 0x3) OR 0x8) # uuid_replace rnd (k + 1) cs
      else c # uuid_replace rnd k cs)"

definition uuidv4 :: "(nat \<Rightarrow> 4 word) \<Rightarrow> jsstring" where
  "uuidv4 rnd = uuid_replace rnd 0 (str ''xxxxxxxx-xxxx-4xxx-yxxx-xxxxxxxxxxxx'')"

text \<open>
  \<^verbatim>\<open>a || b\<close> on strings that may be undefined, \<^verbatim>\<open>xs.join(sep)\<close>, and
  \<^verbatim>\<open>xs.map((c, i) => f(c, i))\<close>.
\<close>

definition or_else :: "jsstring option \<Rightarrow> jsstring \<Rightarrow> jsstring" where
  "or_else a b = (case a of None \<Rightarrow> b | Some s \<Rightarrow> if s \<noteq> [] then s else b)"

fun join :: "jsstring \<Rightarrow> jsstring list \<Rightarrow> jsstring" where
  "join sep [] = []"
| "join sep [x] = x"
| "join sep (x # y # ys) = x @ sep @ join sep (y # ys)"

fun map_index :: "('a \<Rightarrow> nat \<Rightarrow> 'b) \<Rightarrow> nat \<Rightarrow> 'a list \<Rightarrow> 'b list" where
  "map_index f i [] = []"
| "map_index f i (x # xs) = f x i # map_index f (i + 1) xs"

text \<open>
  \<^verbatim>\<open>
  function buildXhtml(title: string, bodyHtml: string): string {
    return `<?xml version="1.0" encoding="utf-8"?>
  <!DOCTYPE html>
  <html xmlns="http://www.w3.org/1999/xhtml">
  <head>
    <meta http-equiv="Content-Type" content="text/html; charset=utf-8" />
    <title>${escapeXml(title)}</title>
    <link rel="stylesheet" type="text/css" href="style.css" />
  </head>
  <body>
  ${bodyHtml}
  </body>
  </html>`;
  }
  \<close>
  In the source the template's continuation lines start in the first column.
\<close>

definition buildXhtml :: "jsstring \<Rightarrow> jsstring \<Rightarrow> jsstring" where
  \<open>buildXhtml ttl bodyHtml =
     str ''<?xml version="1.0" encoding="utf-8"?>\<newline>''
     @ str ''<!DOCTYPE html>\<newline>''
     @ str ''<html xmlns="http://www.w3.org/1999/xhtml">\<newline>''
     @ str ''<head>\<newline>''
     @ str ''  <meta http-equiv="Content-Type" content="text/html; charset=utf-8" />\<newline>''
     @ str ''  <title>'' @ escapeXml ttl @ str ''</title>\<newline>''
     @ str ''  <link rel="stylesheet" type="text/css" href="style.css" />\<newline>''
     @ str ''</head>\<newline>''
     @ str ''<body>\<newline>''
     @ bodyHtml @ str ''\<newline>''
     @ str ''</body>\<newline>''
     @ str ''</html>''\<close>

text \<open>
  \<^verbatim>\<open>
  function makeOpf(args: { uuid; title; author; language;
      chapters: Array<{ title: string; filename: string }> }): string {
    const manifestItems = [
      '<item id="ncx" href="toc.ncx" media-type="application/x-dtbncx+xml"/>',
      '<item id="style" href="style.css" media-type="text/css"/>',
    ]
      .concat(
        args.chapters.map(
          (c, i) => `<item id="chapter-${i + 1}" href="${c.filename}" media-type="application/xhtml+xml"/>`,
        ),
      )
      .join('\n    ');
    const spineItems = args.chapters
      .map((c, i) => `<itemref idref="chapter-${i + 1}" />`)
      .join('\n    ');
    return `<?xml version="1.0" encoding="utf-8"?>
  <package xmlns="http://www.idpf.org/2007/opf" unique-identifier="BookId" version="2.0">
    <metadata xmlns:dc="http://purl.org/dc/elements/1.1/" xmlns:opf="http://www.idpf.org/2007/opf">
      <dc:title>${escapeXml(args.title)}</dc:title>
      <dc:creator opf:role="aut">${escapeXml(args.author)}</dc:creator>
      <dc:language>${escapeXml(args.language)}</dc:language>
      <dc:identifier id="BookId">urn:uuid:${args.uuid}</dc:identifier>
    </metadata>
    <manifest>
      ${manifestItems}
    </manifest>
    <spine toc="ncx">
      ${spineItems}
    </spine>
  </package>`;
  }
  \<close>
  The two arrays before \<^verbatim>\<open>join\<close> are \<open>manifestItems\<close> and \<open>spineItems\<close>.
\<close>

record chapter_file =
  file_title :: jsstring
  filename :: jsstring
  xhtml :: jsstring

definition manifestItems :: "chapter_file list \<Rightarrow> jsstring list" where
  \<open>manifestItems chapters =
     [str ''<item id="ncx" href="toc.ncx" media-type="application/x-dtbncx+xml"/>'',
      str ''<item id="style" href="style.css" media-type="text/css"/>'']
     @ map_index
         (\<lambda>c i. str ''<item id="chapter-'' @ show_nat (i + 1) @ str ''" href="'' @ filename c
                @ str ''" media-type="application/xhtml+xml"/>'')
         0 chapters\<close>

definition spineItems :: "chapter_file list \<Rightarrow> jsstring list" where
  \<open>spineItems chapters =
     map_index (\<lambda>c i. str ''<itemref idref="chapter-'' @ show_nat (i + 1) @ str ''" />'')
       0 chapters\<close>

definition makeOpf ::
  "jsstring \<Rightarrow> jsstring \<Rightarrow> jsstring \<Rightarrow> jsstring \<Rightarrow> chapter_file list \<Rightarrow> jsstring" where
  \<open>makeOpf uuid ttl author language chapters =
     str ''<?xml version="1.0" encoding="utf-8"?>\<newline>''
     @ str ''<package xmlns="http://www.idpf.org/2007/opf" unique-identifier="BookId" version="2.0">\<newline>''
     @ str ''  <metadata xmlns:dc="http://purl.org/dc/elements/1.1/" xmlns:opf="http://www.idpf.org/2007/opf">\<newline>''
     @ str ''    <dc:title>'' @ escapeXml ttl @ str ''</dc:title>\<newline>''
     @ str ''    <dc:creator opf:role="aut">'' @ escapeXml author @ str ''</dc:creator>\<newline>''
     @ str ''    <dc:language>'' @ escapeXml language @ str ''</dc:language>\<newline>''
     @ str ''    <dc:identifier id="BookId">urn:uuid:'' @ uuid @ str ''</dc:identifier>\<newline>''
     @ str ''  </metadata>\<newline>''
     @ str ''  <manifest>\<newline>''
     @ str ''    '' @ join (str ''\<newline>    '') (manifestItems chapters) @ str ''\<newline>''
     @ str ''  </manifest>\<newline>''
     @ str ''  <spine toc="ncx">\<newline>''
     @ str ''    '' @ join (str ''\<newline>    '') (spineItems chapters) @ str ''\<newline>''
     @ str ''  </spine>\<newline>''
     @ str ''</package>''\<close>

text \<open>
  \<^verbatim>\<open>
  function makeNcx(args: { uuid; title; author;
      chapters: Array<{ title: string; filename: string }> }): string {
    const navPoints = args.chapters
      .map(
        (c, i) => `    <navPoint id="navPoint-${i + 1}" playOrder="${i + 1}">
        <navLabel><text>${escapeXml(c.title || `Chapter ${i + 1}`)}</text></navLabel>
        <content src="${c.filename}" />
      </navPoint>`,
      )
      .join('\n');
    return `<?xml version="1.0" encoding="utf-8"?>
  <!DOCTYPE ncx PUBLIC "-//NISO//DTD ncx 2005-1//EN" "http://www.daisy.org/z3986/2005/ncx-2005-1.dtd">
  <ncx xmlns="http://www.daisy.org/z3986/2005/ncx/" version="2005-1">
    <head>
      <meta name="dtb:uid" content="urn:uuid:${args.uuid}"/>
      <meta name="dtb:depth" content="1"/>
      <meta name="dtb:totalPageCount" content="0"/>
      <meta name="dtb:maxPageNumber" content="0"/>
    </head>
    <docTitle><text>${escapeXml(args.title)}</text></docTitle>
    <docAuthor><text>${escapeXml(args.author)}</text></docAuthor>
    <navMap>
  ${navPoints}
    </navMap>
  </ncx>`;
  }
  \<close>
\<close>

definition navPoints :: "chapter_file list \<Rightarrow> jsstring list" where
  \<open>navPoints chapters =
     map_index
       (\<lambda>c i. str ''    <navPoint id="navPoint-'' @ show_nat (i + 1) @ str ''" playOrder="''
                @ show_nat (i + 1) @ str ''">\<newline>''
              @ str ''      <navLabel><text>''
                @ escapeXml (or_else (Some (file_title c)) (str ''Chapter '' @ show_nat (i + 1)))
                @ str ''</text></navLabel>\<newline>''
              @ str ''      <content src="'' @ filename c @ str ''" />\<newline>''
              @ str ''    </navPoint>'')
       0 chapters\<close>

definition makeNcx :: "jsstring \<Rightarrow> jsstring \<Rightarrow> jsstring \<Rightarrow> chapter_file list \<Rightarrow> jsstring" where
  \<open>makeNcx uuid ttl author chapters =
     str ''<?xml version="1.0" encoding="utf-8"?>\<newline>''
     @ str ''<!DOCTYPE ncx PUBLIC "-//NISO//DTD ncx 2005-1//EN" "http://www.daisy.org/z3986/2005/ncx-2005-1.dtd">\<newline>''
     @ str ''<ncx xmlns="http://www.daisy.org/z3986/2005/ncx/" version="2005-1">\<newline>''
     @ str ''  <head>\<newline>''
     @ str ''    <meta name="dtb:uid" content="urn:uuid:'' @ uuid @ str ''"/>\<newline>''
     @ str ''    <meta name="dtb:depth" content="1"/>\<newline>''
     @ str ''    <meta name="dtb:totalPageCount" content="0"/>\<newline>''
     @ str ''    <meta name="dtb:maxPageNumber" content="0"/>\<newline>''
     @ str ''  </head>\<newline>''
     @ str ''  <docTitle><text>'' @ escapeXml ttl @ str ''</text></docTitle>\<newline>''
     @ str ''  <docAuthor><text>'' @ escapeXml author @ str ''</text></docAuthor>\<newline>''
     @ str ''  <navMap>\<newline>''
     @ join (str ''\<newline>'') (navPoints chapters) @ str ''\<newline>''
     @ str ''  </navMap>\<newline>''
     @ str ''</ncx>''\<close>

text \<open>
  \<^verbatim>\<open>
  function writeEpubBufferFromParts(chaptersIn, css, opts: { title?; author?; language? }) {
    const language = opts.language || 'en';
    const author = opts.author || 'Unknown';
    const uuid = uuidv4();
    const inferredTitle = opts.title || chaptersIn[0]?.title || 'Book';
    const chapterFiles = chaptersIn.map((c, i) => {
      const filename = `chapter-${i + 1}-${slugify(c.title)}.xhtml`;
      const xhtml = buildXhtml(c.title, c.html);
      return { title: c.title, filename, xhtml };
    });
    const opf = makeOpf({ uuid, title: inferredTitle, author, language, chapters: chapterFiles });
    const ncx = makeNcx({ uuid, title: inferredTitle, author, chapters: chapterFiles });
    const containerXml = `<?xml version="1.0"?>
  <container version="1.0" xmlns="urn:oasis:names:tc:opendocument:xmlns:container">
    <rootfiles>
      <rootfile full-path="OEBPS/content.opf" media-type="application/oebps-package+xml"/>
    </rootfiles>
  </container>`;
    const zip = new ZipBuilder();
    // EPUB spec requires 'mimetype' as first entry and STORED (no compression)
    zip.addFile('mimetype', 'application/epub+zip', { compress: false });
    zip.addFile('META-INF/container.xml', containerXml);
    zip.addFile('OEBPS/style.css', css);
    zip.addFile('OEBPS/content.opf', opf);
    zip.addFile('OEBPS/toc.ncx', ncx);
    for (const ch of chapterFiles) {
      zip.addFile(`OEBPS/${ch.filename}`, ch.xhtml);
    }
    const buffer = zip.build();
    return { buffer, uuid, title: inferredTitle, chapterCount: chaptersIn.length };
  }
  \<close>
  The \<open>addFile\<close> calls are made in a fixed order and none is conditional, so they are
  the list \<open>epub_calls\<close>; the \<open>k\<close>-th call reads the clock \<open>clock k\<close>. An exception of
  \<open>addFile\<close> or \<open>build\<close> leaves the function.
\<close>

record epub_opts =
  opt_title :: "jsstring option"
  opt_author :: "jsstring option"
  opt_language :: "jsstring option"

record epub_result =
  buffer :: "byte list"
  uuid_of :: jsstring
  title_of :: jsstring
  chapterCount :: nat

definition containerXml :: jsstring where
  \<open>containerXml =
     str ''<?xml version="1.0"?>\<newline>''
     @ str ''<container version="1.0" xmlns="urn:oasis:names:tc:opendocument:xmlns:container">\<newline>''
     @ str ''  <rootfiles>\<newline>''
     @ str ''    <rootfile full-path="OEBPS/content.opf" media-type="application/oebps-package+xml"/>\<newline>''
     @ str ''  </rootfiles>\<newline>''
     @ str ''</container>''\<close>

definition chapterFiles :: "(jsstring \<Rightarrow> jsstring) \<Rightarrow> chapter_rec list \<Rightarrow> chapter_file list" where
  "chapterFiles toLowerCase chaptersIn =
     map_index
       (\<lambda>c i. \<lparr>file_title = title c,
                filename = str ''chapter-'' @ show_nat (i + 1) @ str ''-''
                           @ slugify toLowerCase (title c) @ str ''.xhtml'',
                xhtml = buildXhtml (title c) (html c)\<rparr>)
       0 chaptersIn"

definition inferredTitle :: "chapter_rec list \<Rightarrow> epub_opts \<Rightarrow> jsstring" where
  "inferredTitle chaptersIn opts =
     or_else (opt_title opts)
       (or_else (case chaptersIn of [] \<Rightarrow> None | c # cs \<Rightarrow> Some (title c)) (str ''Book''))"

definition epub_payloads ::
  "(jsstring \<Rightarrow> jsstring) \<Rightarrow> jsstring \<Rightarrow> chapter_rec list \<Rightarrow> jsstring \<Rightarrow> epub_opts
   \<Rightarrow> (jsstring \<times> data \<times> add_opts option) list" where
  "epub_payloads toLowerCase uuid chaptersIn css opts =
     (let language = or_else (opt_language opts) (str ''en'');
          author = or_else (opt_author opts) (str ''Unknown'');
          ttl = inferredTitle chaptersIn opts;
          cfs = chapterFiles toLowerCase chaptersIn;
          opf = makeOpf uuid ttl author language cfs;
          ncx = makeNcx uuid ttl author cfs
      in [(str ''mimetype'', Str (str ''application/epub+zip''),
            Some \<lparr>compress = Some False, opt_date = None\<rparr>),
          (str ''META-INF/container.xml'', Str containerXml, None),
          (str ''OEBPS/style.css'', Str css, None),
          (str ''OEBPS/content.opf'', Str opf, None),
          (str ''OEBPS/toc.ncx'', Str ncx, None)]
         @ map (\<lambda>ch. (str ''OEBPS/'' @ filename ch, Str (xhtml ch), None)) cfs)"

definition epub_calls ::
  "(nat \<Rightarrow> Date) \<Rightarrow> (jsstring \<times> data \<times> add_opts option) list \<Rightarrow> add_call list" where
  "epub_calls clock ps =
     map_index
       (\<lambda>(nm, dat, os) k. \<lparr>call_name = nm, call_data = dat, call_opts = os, call_now = clock k\<rparr>)
       0 ps"

definition writeEpubBufferFromParts ::
  "(jsstring \<Rightarrow> jsstring) \<Rightarrow> (byte list \<Rightarrow> byte list) \<Rightarrow> (nat \<Rightarrow> Date) \<Rightarrow> (nat \<Rightarrow> 4 word)
   \<Rightarrow> chapter_rec list \<Rightarrow> jsstring \<Rightarrow> epub_opts \<Rightarrow> error + epub_result" where
  "writeEpubBufferFromParts toLowerCase deflateRawSync clock rnd chaptersIn css opts =
     (let uuid = uuidv4 rnd;
          calls = epub_calls clock (epub_payloads toLowerCase uuid chaptersIn css opts)
      in case addFiles deflateRawSync new_ZipBuilder calls of
           Inl e \<Rightarrow> Inl e
         | Inr zp \<Rightarrow>
             (case build zp of
                Inl e \<Rightarrow> Inl e
              | Inr (buf, zp') \<Rightarrow>
                  Inr \<lparr>buffer = buf, uuid_of = uuid,
                       title_of = inferredTitle chaptersIn opts,
                       chapterCount = length chaptersIn\<rparr>))"

section \<open>Reference definitions\<close>

subsection \<open>The reference algorithm\<close>

text \<open>
  The standard reflected CRC-32, bit by bit and without a table: the register starts
  at all ones; each byte is added into its low bits and the register is shifted right
  eight times, the reversed polynomial 0xEDB88320 being added whenever a one is
  shifted out; the result is the complement of the register.
\<close>

definition crc32_shift :: "u32 \<Rightarrow> u32" where
  "crc32_shift r = (if bit r 0 then drop_bit 1 r XOR 0xEDB88320 else drop_bit 1 r)"

definition crc32_bitwise_byte :: "u32 \<Rightarrow> byte \<Rightarrow> u32" where
  "crc32_bitwise_byte r b = (crc32_shift ^^ 8) (r XOR ucast b)"

definition crc32_bitwise :: "byte list \<Rightarrow> u32" where
  "crc32_bitwise buf = NOT (foldl crc32_bitwise_byte (NOT 0) buf)"

subsection \<open>Reading escaped text back\<close>

text \<open>
  The inverse entity substitutions, as an XML reader applies them: one pass from the
  left, each of the five entities giving its character.
\<close>

fun unescapeXml :: "jsstring \<Rightarrow> jsstring" where
  "unescapeXml [] = []"
| "unescapeXml (c # cs) =
     (if c = 0x26 \<and> take 4 cs = str ''amp;'' then 0x26 # unescapeXml (drop 4 cs)
      else if c = 0x26 \<and> take 3 cs = str ''lt;'' then 0x3C # unescapeXml (drop 3 cs)
      else if c = 0x26 \<and> take 3 cs = str ''gt;'' then 0x3E # unescapeXml (drop 3 cs)
      else if c = 0x26 \<and> take 5 cs = str ''quot;'' then 0x22 # unescapeXml (drop 5 cs)
      else if c = 0x26 \<and> take 5 cs = str ''apos;'' then 0x27 # unescapeXml (drop 5 cs)
      else c # unescapeXml cs)"

definition entity_at :: "jsstring \<Rightarrow> nat \<Rightarrow> bool" where
  "entity_at s i =
     (take 5 (drop i s) = str ''&amp;'' \<or> take 4 (drop i s) = str ''&lt;''
      \<or> take 4 (drop i s) = str ''&gt;'' \<or> take 6 (drop i s) = str ''&quot;''
      \<or> take 6 (drop i s) = str ''&apos;'')"

definition escape_char :: "jschar \<Rightarrow> jsstring" where
  "escape_char c =
     (if c = 0x26 then str ''&amp;'' else if c = 0x3C then str ''&lt;''
      else if c = 0x3E then str ''&gt;'' else if c = 0x22 then str ''&quot;''
      else if c = 0x27 then str ''&apos;'' else [c])"

subsection \<open>Collapsing runs, as the specification words it\<close>

text \<open>
  The specification's wording of the first replacement, as two passes: every character
  outside \<open>a-z\<close>, \<open>0-9\<close> becomes a hyphen, then a hyphen that follows a hyphen is
  removed.
\<close>

fun squeeze_hyphens :: "jsstring \<Rightarrow> jsstring" where
  "squeeze_hyphens [] = []"
| "squeeze_hyphens [x] = [x]"
| "squeeze_hyphens (x # y # ys) =
     (if x = 0x2D \<and> y = 0x2D then squeeze_hyphens (y # ys) else x # squeeze_hyphens (y # ys))"

definition collapse_runs_spec :: "jsstring \<Rightarrow> jsstring" where
  "collapse_runs_spec t = squeeze_hyphens (map (\<lambda>x. if is_lower_alnum x then x else 0x2D) t)"

subsection \<open>Reading an archive\<close>

text \<open>
  What a ZIP reader does with the bytes (APPNOTE 4.3.7 and 4.3.12): a multi-byte field is
  little-endian; a local file header has its signature at 0, the CRC at 14, the
  compressed size at 18, the uncompressed size at 22, the name length at 26 and the
  name at 30; a central directory record has its signature at 0, the CRC at 16, the
  sizes at 20 and 24, the lengths of name, extra field and comment at 28, 30 and 32, the
  offset of the local header at 42 and the name at 46, the next record following the
  comment.
\<close>

fun le_nat :: "byte list \<Rightarrow> nat" where
  "le_nat [] = 0"
| "le_nat (b # bs) = unat b + 256 * le_nat bs"

definition field :: "byte list \<Rightarrow> nat \<Rightarrow> nat \<Rightarrow> nat" where
  "field b p n = le_nat (take n (drop p b))"

record local_rec =
  l_name :: "byte list"
  l_crc :: nat
  l_csize :: nat
  l_usize :: nat

definition read_local :: "byte list \<Rightarrow> nat \<Rightarrow> local_rec option" where
  "read_local b p =
     (if p + 30 + field b (p + 26) 2 \<le> length b \<and> field b p 4 = 0x04034b50 then
        Some \<lparr>l_name = take (field b (p + 26) 2) (drop (p + 30) b),
              l_crc = field b (p + 14) 4,
              l_csize = field b (p + 18) 4,
              l_usize = field b (p + 22) 4\<rparr>
      else None)"

record central_rec =
  c_name :: "byte list"
  c_crc :: nat
  c_csize :: nat
  c_usize :: nat
  c_offset :: nat

definition read_central :: "byte list \<Rightarrow> nat \<Rightarrow> (central_rec \<times> nat) option" where
  "read_central b p =
     (let n = field b (p + 28) 2; x = field b (p + 30) 2; k = field b (p + 32) 2
      in if p + 46 + n + x + k \<le> length b \<and> field b p 4 = 0x02014b50 then
           Some (\<lparr>c_name = take n (drop (p + 46) b),
                  c_crc = field b (p + 16) 4,
                  c_csize = field b (p + 20) 4,
                  c_usize = field b (p + 24) 4,
                  c_offset = field b (p + 42) 4\<rparr>,
                 p + 46 + n + x + k)
         else None)"

fun read_centrals :: "nat \<Rightarrow> byte list \<Rightarrow> nat \<Rightarrow> central_rec list option" where
  "read_centrals 0 b p = Some []"
| "read_centrals (Suc k) b p =
     (case read_central b p of
        None \<Rightarrow> None
      | Some (r, q) \<Rightarrow> (case read_centrals k b q of None \<Rightarrow> None | Some rs \<Rightarrow> Some (r # rs)))"

subsection \<open>What the builder holds\<close>

text \<open>
  The entry that one \<open>addFile\<close> call records, the bytes of its two headers as functions
  of the entry, and the invariant of a builder that only \<open>addFile\<close> has changed: the
  chunks are the local entries of the recorded files in order, the cursor is their total
  length, each entry's offset is the position of its header, and every 16-bit field
  fits.
\<close>

definition payload_bytes :: "data \<Rightarrow> byte list" where
  "payload_bytes dat = (case dat of Buf b \<Rightarrow> b | Str s \<Rightarrow> utf8 s)"

definition call_date :: "Date \<Rightarrow> add_opts option \<Rightarrow> Date" where
  "call_date now opts =
     (case opts of None \<Rightarrow> now
      | Some os \<Rightarrow> (case opt_date os of None \<Rightarrow> now | Some d \<Rightarrow> d))"

definition call_compress :: "add_opts option \<Rightarrow> bool" where
  "call_compress opts = (case opts of None \<Rightarrow> True | Some os \<Rightarrow> compress os \<noteq> Some False)"

definition added_entry ::
  "(byte list \<Rightarrow> byte list) \<Rightarrow> Date \<Rightarrow> nat \<Rightarrow> jsstring \<Rightarrow> data \<Rightarrow> add_opts option
   \<Rightarrow> file_entry" where
  "added_entry deflateRawSync now off nm dat opts =
     \<lparr>name = nm, crc = crc32 (payload_bytes dat),
      comp_buf = (if call_compress opts then deflateRawSync (payload_bytes dat)
                  else payload_bytes dat),
      uncomp = length (payload_bytes dat),
      method_code = (if call_compress opts then 8 else 0),
      time = fst (msDosDateTime (call_date now opts)),
      date = snd (msDosDateTime (call_date now opts)),
      offset = off\<rparr>"

definition local_header :: "file_entry \<Rightarrow> byte list" where
  "local_header f =
     writeUInt32LE 0x04034b50 @ writeUInt16LE 20 @ writeUInt16LE UTF8_FLAG
     @ writeUInt16LE (method_code f) @ writeUInt16LE (time f) @ writeUInt16LE (date f)
     @ writeUInt32LE (ushr0 (crc f)) @ writeUInt32LE (ushr0 (length (comp_buf f)))
     @ writeUInt32LE (ushr0 (uncomp f))
     @ writeUInt16LE (int (length (utf8 (name f)))) @ writeUInt16LE 0 @ utf8 (name f)"

definition local_entry :: "file_entry \<Rightarrow> byte list" where
  "local_entry f = local_header f @ comp_buf f"

definition central_bytes :: "file_entry \<Rightarrow> byte list" where
  "central_bytes f =
     writeUInt32LE 0x02014b50 @ writeUInt16LE 0x031E @ writeUInt16LE 20
     @ writeUInt16LE 0x0800 @ writeUInt16LE (method_code f) @ writeUInt16LE (time f)
     @ writeUInt16LE (date f) @ writeUInt32LE (ushr0 (crc f))
     @ writeUInt32LE (ushr0 (length (comp_buf f))) @ writeUInt32LE (ushr0 (uncomp f))
     @ writeUInt16LE (int (length (utf8 (name f)))) @ writeUInt16LE 0 @ writeUInt16LE 0
     @ writeUInt16LE 0 @ writeUInt16LE 0 @ writeUInt32LE 0
     @ writeUInt32LE (ushr0 (offset f)) @ utf8 (name f)"

definition eocd_bytes :: "nat \<Rightarrow> nat \<Rightarrow> nat \<Rightarrow> byte list" where
  "eocd_bytes n centralSize centralStart =
     writeUInt32LE 0x06054b50 @ writeUInt16LE 0 @ writeUInt16LE 0
     @ writeUInt16LE (int n) @ writeUInt16LE (int n)
     @ writeUInt32LE (ushr0 centralSize) @ writeUInt32LE (ushr0 centralStart)
     @ writeUInt16LE 0"

definition entry_ok :: "file_entry \<Rightarrow> bool" where
  "entry_ok f =
     (fits_uint16 (method_code f) \<and> fits_uint16 (time f) \<and> fits_uint16 (date f)
      \<and> fits_uint16 (int (length (utf8 (name f)))))"

fun offsets_from :: "nat \<Rightarrow> file_entry list \<Rightarrow> bool" where
  "offsets_from p [] = True"
| "offsets_from p (f # fs) = (offset f = p \<and> offsets_from (p + length (local_entry f)) fs)"

definition built_by_addFile :: "ZipBuilder \<Rightarrow> bool" where
  "built_by_addFile z =
     (concat (chunks z) = concat (map local_entry (files z))
      \<and> this_offset z = length (concat (map local_entry (files z)))
      \<and> list_all entry_ok (files z)
      \<and> offsets_from 0 (files z))"

definition central_rec_of :: "file_entry \<Rightarrow> central_rec" where
  "central_rec_of f =
     \<lparr>c_name = utf8 (name f), c_crc = crc f mod 2 ^ 32,
      c_csize = length (comp_buf f) mod 2 ^ 32, c_usize = uncomp f mod 2 ^ 32,
      c_offset = offset f mod 2 ^ 32\<rparr>"

definition local_rec_of :: "file_entry \<Rightarrow> local_rec" where
  "local_rec_of f =
     \<lparr>l_name = utf8 (name f), l_crc = crc f mod 2 ^ 32,
      l_csize = length (comp_buf f) mod 2 ^ 32, l_usize = uncomp f mod 2 ^ 32\<rparr>"

subsection \<open>Concrete inputs\<close>

text \<open>
  A clock reading (15 January 2024, 10:30:20 UTC), the options of a stored entry, a run of
  two calls, and a run whose first payload is \<open>2^32\<close> zero bytes. Where a concrete
  compressor is needed the identity stands in for \<^verbatim>\<open>deflateRawSync\<close>; no statement
  below depends on what it returns.
\<close>

definition demo_date :: Date where
  "demo_date = \<lparr>getUTCFullYear = 2024, getUTCMonth = 0, getUTCDate = 15,
                  getUTCHours = 10, getUTCMinutes = 30, getUTCSeconds = 20\<rparr>"

definition stored :: "add_opts option" where
  "stored = Some \<lparr>compress = Some False, opt_date = None\<rparr>"

definition demo_calls :: "add_call list" where
  "demo_calls =
     [\<lparr>call_name = str ''mimetype'', call_data = Str (str ''application/epub+zip''),
       call_opts = stored, call_now = demo_date\<rparr>,
      \<lparr>call_name = str ''a'', call_data = Buf [1, 2, 3],
       call_opts = None, call_now = demo_date\<rparr>]"

definition big_payload :: "byte list" where
  "big_payload = replicate (2 ^ 32) 0"

definition big_calls :: "add_call list" where
  "big_calls =
     [\<lparr>call_name = str ''a'', call_data = Buf big_payload,
       call_opts = stored, call_now = demo_date\<rparr>,
      \<lparr>call_name = str ''b'', call_data = Buf [],
       call_opts = stored, call_now = demo_date\<rparr>]"

subsection \<open>Concrete documents\<close>

text \<open>
  The default stylesheet without the line breaks at its two ends; the tree that an
  HTML parser builds for \<^verbatim>\<open><div id="root"><p>Hello</p></div>\<close>; and the input of
  the specification's example with the tree built for it inside the root element.
\<close>

definition default_css_body :: jsstring where
  \<open>default_css_body =
     str ''.chapter-content table {\<newline>''
     @ str ''  background: #004b7a;\<newline>''
     @ str ''  margin: 10px auto;\<newline>''
     @ str ''  width: 90%;\<newline>''
     @ str ''  border: none;\<newline>''
     @ str ''  box-shadow: 1px 1px 1px rgba(0,0,0,.75);\<newline>''
     @ str ''  border-collapse: separate;\<newline>''
     @ str ''  border-spacing: 2px;\<newline>''
     @ str ''}\<newline>''
     @ str ''.chapter-content table td {\<newline>''
     @ str ''  color: #ccc;\<newline>''
     @ str ''}''\<close>

definition plain_doc :: "node list" where
  \<open>plain_doc =
     [Element (str ''html'') []
        [Element (str ''head'') [] [],
         Element (str ''body'') []
           [Element (str ''div'') [(str ''id'', str ''root'')]
              [Element (str ''p'') [] [Text (str ''Hello'')]]]]]\<close>

definition example_input :: jsstring where
  \<open>example_input =
     str ''<h1 class="chapter">Intro</h1><p>Hello</p><h1 class="chapter">End</h1><p>Bye</p>''\<close>

definition example_doc :: "node list" where
  \<open>example_doc =
     [Element (str ''html'') []
        [Element (str ''head'') [] [],
         Element (str ''body'') []
           [Element (str ''div'') [(str ''id'', str ''root'')]
              [Element (str ''h1'') [(str ''class'', str ''chapter'')] [Text (str ''Intro'')],
               Element (str ''p'') [] [Text (str ''Hello'')],
               Element (str ''h1'') [(str ''class'', str ''chapter'')] [Text (str ''End'')],
               Element (str ''p'') [] [Text (str ''Bye'')]]]]]\<close>

subsection \<open>Document order, and a serialiser for concrete trees\<close>

text \<open>
  Every node of a forest in document order (a node before its children, the children
  before the following siblings), each with the siblings that follow it under its parent.
\<close>

fun positions :: "node list \<Rightarrow> (node \<times> node list) list" where
  "positions [] = []"
| "positions (Element t a cs # ns) = (Element t a cs, ns) # positions cs @ positions ns"
| "positions (Text s # ns) = (Text s, ns) # positions ns"
| "positions (Comment s # ns) = (Comment s, ns) # positions ns"
| "positions (Directive s # ns) = (Directive s, ns) # positions ns"

text \<open>
  The markup of a tree whose texts and attribute values need no escaping and whose
  elements all have an end tag, which is what the serialiser writes for the trees below.
\<close>

fun attr_markup :: "jsstring \<times> jsstring \<Rightarrow> jsstring" where
  \<open>attr_markup (k, v) = str '' '' @ k @ str ''="'' @ v @ str ''"''\<close>

fun serialize :: "node \<Rightarrow> jsstring" where
  "serialize (Element t a cs) =
     str ''<'' @ t @ concat (map attr_markup a) @ str ''>''
     @ concat (map serialize cs) @ str ''</'' @ t @ str ''>''"
| "serialize (Text s) = s"
| "serialize (Comment s) = str ''<!--'' @ s @ str ''-->''"
| "serialize (Directive s) = str ''<'' @ s @ str ''>''"

fun serialize_children :: "node \<Rightarrow> jsstring" where
  "serialize_children (Element t a cs) = concat (map serialize cs)"
| "serialize_children n = []"

text \<open>
  The content of a chapter as the specification words it: the boundary element and all
  the sibling markup after it, up to the next boundary.
\<close>

definition content_as_specified :: "(node \<Rightarrow> jsstring) \<Rightarrow> node \<Rightarrow> node list \<Rightarrow> jsstring" where
  "content_as_specified outerHtml el sibs =
     concat (map outerHtml (el # takeWhile (\<lambda>s. \<not> is_h1_chapter s) sibs))"

text \<open>
  Two inputs with the trees an HTML parser builds for them inside the root element: one
  with a text and a comment between the heading and the paragraph, one whose second
  heading is inside a \<^verbatim>\<open>section\<close> that follows the first.
\<close>

definition loose_input :: jsstring where
  \<open>loose_input = str ''<h1 class="chapter">A</h1>loose<!--note--><p>x</p>''\<close>

definition loose_doc :: "node list" where
  \<open>loose_doc =
     [Element (str ''html'') []
        [Element (str ''head'') [] [],
         Element (str ''body'') []
           [Element (str ''div'') [(str ''id'', str ''root'')]
              [Element (str ''h1'') [(str ''class'', str ''chapter'')] [Text (str ''A'')],
               Text (str ''loose''),
               Comment (str ''note''),
               Element (str ''p'') [] [Text (str ''x'')]]]]]\<close>

definition nested_input :: jsstring where
  \<open>nested_input =
     str ''<h1 class="chapter">B</h1><section><h1 class="chapter">C</h1><p>y</p></section>''\<close>

definition nested_doc :: "node list" where
  \<open>nested_doc =
     [Element (str ''html'') []
        [Element (str ''head'') [] [],
         Element (str ''body'') []
           [Element (str ''div'') [(str ''id'', str ''root'')]
              [Element (str ''h1'') [(str ''class'', str ''chapter'')] [Text (str ''B'')],
               Element (str ''section'') []
                 [Element (str ''h1'') [(str ''class'', str ''chapter'')] [Text (str ''C'')],
                  Element (str ''p'') [] [Text (str ''y'')]]]]]]\<close>

subsection \<open>The entries of an EPUB build\<close>

text \<open>
  The entries that a sequence of \<open>addFile\<close> calls records, the first at offset \<open>off\<close>
  and each next one after the local entry of the one before; the bytes of an archive
  with given entries (the local entries, the central directory, the end record); the three
  entries that \<open>writeEpubBufferFromParts\<close> adds before \<^verbatim>\<open>OEBPS/content.opf\<close> and
  the offset at which that entry starts; the calls for the chapter files; and the texts
  of \<^verbatim>\<open>OEBPS/content.opf\<close> and \<^verbatim>\<open>OEBPS/toc.ncx\<close> as functions of the identifier.
\<close>

fun entries_from ::
  "(byte list \<Rightarrow> byte list) \<Rightarrow> nat \<Rightarrow> add_call list \<Rightarrow> file_entry list" where
  "entries_from d off [] = []"
| "entries_from d off (c # cs) =
     added_entry d (call_now c) off (call_name c) (call_data c) (call_opts c)
     # entries_from d
         (off + length (local_entry
            (added_entry d (call_now c) off (call_name c) (call_data c) (call_opts c)))) cs"

definition archive_bytes :: "file_entry list \<Rightarrow> byte list" where
  "archive_bytes fs =
     concat (map local_entry fs) @ concat (map central_bytes fs)
     @ eocd_bytes (length fs) (length (concat (map central_bytes fs)))
         (length (concat (map local_entry fs)))"

definition first_entries ::
  "(byte list \<Rightarrow> byte list) \<Rightarrow> (nat \<Rightarrow> Date) \<Rightarrow> jsstring \<Rightarrow> file_entry list" where
  "first_entries d clock css =
     [added_entry d (clock 0) 0 (str ''mimetype'') (Str (str ''application/epub+zip''))
        (Some \<lparr>compress = Some False, opt_date = None\<rparr>),
      added_entry d (clock 1) 58 (str ''META-INF/container.xml'') (Str containerXml) None,
      added_entry d (clock 2) (110 + length (d (utf8 containerXml))) (str ''OEBPS/style.css'')
        (Str css) None]"

definition opf_offset :: "(byte list \<Rightarrow> byte list) \<Rightarrow> jsstring \<Rightarrow> nat" where
  "opf_offset d css =
     58 + (52 + length (d (utf8 containerXml))) + (45 + length (d (utf8 css)))"

definition chapter_calls ::
  "(nat \<Rightarrow> Date) \<Rightarrow> (jsstring \<Rightarrow> jsstring) \<Rightarrow> chapter_rec list \<Rightarrow> add_call list" where
  "chapter_calls clock toLowerCase chaptersIn =
     map_index
       (\<lambda>(nm, dat, os) k. \<lparr>call_name = nm, call_data = dat, call_opts = os, call_now = clock k\<rparr>)
       5 (map (\<lambda>ch. (str ''OEBPS/'' @ filename ch, Str (xhtml ch), None))
            (chapterFiles toLowerCase chaptersIn))"

definition opf_text ::
  "(jsstring \<Rightarrow> jsstring) \<Rightarrow> jsstring \<Rightarrow> chapter_rec list \<Rightarrow> epub_opts \<Rightarrow> jsstring" where
  "opf_text toLowerCase u chaptersIn opts =
     makeOpf u (inferredTitle chaptersIn opts) (or_else (opt_author opts) (str ''Unknown''))
       (or_else (opt_language opts) (str ''en'')) (chapterFiles toLowerCase chaptersIn)"

definition ncx_text ::
  "(jsstring \<Rightarrow> jsstring) \<Rightarrow> jsstring \<Rightarrow> chapter_rec list \<Rightarrow> epub_opts \<Rightarrow> jsstring" where
  "ncx_text toLowerCase u chaptersIn opts =
     makeNcx u (inferredTitle chaptersIn opts) (or_else (opt_author opts) (str ''Unknown''))
       (chapterFiles toLowerCase chaptersIn)"

text \<open>
  A build with no options and one chapter, and two random sources: one that always gives
  0, and one that gives 1 for the last digit of the identifier and 0 otherwise.
\<close>

definition no_opts :: epub_opts where
  "no_opts = \<lparr>opt_title = None, opt_author = None, opt_language = None\<rparr>"

definition one_chapter :: "chapter_rec list" where
  "one_chapter = [\<lparr>title = str ''A'', html = str ''<p>x</p>''\<rparr>]"

definition rnd_zero :: "nat \<Rightarrow> 4 word" where
  "rnd_zero k = 0"

definition rnd_last_one :: "nat \<Rightarrow> 4 word" where
  "rnd_last_one k = (if k = 30 then 1 else 0)"

section \<open>Lemmas\<close>

subsection \<open>The table-driven loop computes the reference algorithm\<close>

lemma crc_round_shift: "crc_round = crc32_shift"
  by (rule ext) (simp add: crc_round_def crc32_shift_def and_one_eq mod_2_eq_odd bit_0
      xor.commute)

lemma xor_cancel_poly: "(p XOR a) XOR (p XOR b) = a XOR (b :: u32)"
  by (rule bit_eqI) (auto simp add: bit_xor_iff)

lemma xor_shift_poly:
  "(a XOR p) XOR b = (a XOR b) XOR (p :: u32)"
  "a XOR (b XOR p) = (a XOR b) XOR (p :: u32)"
  by (rule bit_eqI, auto simp add: bit_xor_iff)+

lemma xor_twice_poly: "(a XOR p) XOR p = (a :: u32)"
  by (rule bit_eqI) (auto simp add: bit_xor_iff)

lemma crc32_shift_xor: "crc32_shift (x XOR y) = crc32_shift x XOR crc32_shift y"
proof (cases "odd x"; cases "odd y")
qed (simp_all add: crc32_shift_def bit_0 even_xor_iff xor_shift_poly xor_twice_poly)

lemma crc32_shift_pow_xor:
  "(crc32_shift ^^ k) (x XOR y) = (crc32_shift ^^ k) x XOR (crc32_shift ^^ k) y"
  by (induction k arbitrary: x y) (simp_all add: crc32_shift_xor)

lemma crc32_shift_pow_high:
  "take_bit k x = 0 \<Longrightarrow> (crc32_shift ^^ k) x = drop_bit k x"
proof (induction k arbitrary: x)
  case 0
  then show ?case by simp
next
  case (Suc k)
  have nb: "\<not> bit x n" if "n < Suc k" for n
  proof -
    have "bit (take_bit (Suc k) x) n = bit x n"
      using that by (simp add: bit_take_bit_iff)
    then show ?thesis using Suc.prems by simp
  qed
  have "take_bit k (drop_bit 1 x) = 0"
    by (rule bit_eqI) (simp add: bit_take_bit_iff bit_drop_bit_eq nb)
  then have "(crc32_shift ^^ k) (drop_bit 1 x) = drop_bit k (drop_bit 1 x)"
    by (rule Suc.IH)
  moreover have "(crc32_shift ^^ Suc k) x = (crc32_shift ^^ k) (crc32_shift x)"
    by (simp add: funpow_swap1)
  moreover have "crc32_shift x = drop_bit 1 x"
    using nb [of 0] by (simp add: crc32_shift_def)
  ultimately show ?case by simp
qed

lemma CRC_TABLE_nth: "CRC_TABLE ! unat (x AND 0xff) = (crc32_shift ^^ 8) (x AND 0xff)"
proof -
  have "unat (x AND 0xff) \<le> unat (0xff :: u32)"
    by (rule word_and_le1 [THEN word_le_nat_alt [THEN iffD1]])
  then have "unat (x AND 0xff) < 256" by simp
  then show ?thesis by (simp add: CRC_TABLE_def crc_round_shift)
qed

lemma crc32_shift_pow8:
  "(crc32_shift ^^ 8) x = drop_bit 8 x XOR CRC_TABLE ! unat (x AND 0xff)"
proof -
  define h where "h = push_bit 8 (drop_bit 8 x)"
  have lo: "x AND 0xff = take_bit 8 x"
    by (simp add: take_bit_eq_mask mask_eq_exp_minus_1)
  have split: "x = (x AND 0xff) XOR h"
    unfolding lo h_def by (rule bit_eqI) (auto simp add: bit_simps)
  have hi: "take_bit 8 h = 0"
    unfolding h_def by (rule bit_eqI) (auto simp add: bit_simps)
  have dr: "drop_bit 8 h = drop_bit 8 x"
    unfolding h_def by (rule bit_eqI) (auto simp add: bit_simps dest: bit_imp_le_length)
  have "(crc32_shift ^^ 8) x = (crc32_shift ^^ 8) ((x AND 0xff) XOR h)"
    by (rule arg_cong [OF split])
  also have "\<dots> = (crc32_shift ^^ 8) (x AND 0xff) XOR (crc32_shift ^^ 8) h"
    by (rule crc32_shift_pow_xor)
  finally show ?thesis
    by (simp add: crc32_shift_pow_high [OF hi] dr CRC_TABLE_nth xor.commute
        del: funpow.simps)
qed

lemma crc32_step_bitwise:
  "drop_bit 8 c XOR CRC_TABLE ! unat ((c XOR ucast b) AND 0xff) =
   crc32_bitwise_byte c (b :: byte)"
proof -
  have "drop_bit 8 (c XOR ucast b) = drop_bit 8 c"
    by (rule bit_eqI) (auto simp add: bit_simps dest: bit_imp_le_length)
  then show ?thesis by (simp add: crc32_bitwise_byte_def crc32_shift_pow8)
qed

lemma crc32_loop_foldl: "crc32_loop c buf = foldl crc32_bitwise_byte c buf"
  by (induction buf arbitrary: c) (simp_all add: crc32_step_bitwise del: funpow.simps)

lemma crc32_bitwise_eq: "crc32 buf = unat (crc32_bitwise buf)"
  by (simp add: crc32_def crc32_bitwise_def crc32_loop_foldl)

lemma funpow8: "(f ^^ 8) x = f (f (f (f (f (f (f (f x)))))))"
  by (simp add: eval_nat_numeral)

lemma crc32_shift_numeral [simp]:
  "crc32_shift (numeral k) =
     (if bit (numeral k :: u32) 0 then drop_bit 1 (numeral k) XOR 0xEDB88320
      else drop_bit 1 (numeral k))"
  "crc32_shift 0 = 0"
  "crc32_shift 1 = 0xEDB88320"
  by (simp_all add: crc32_shift_def)

lemma crc32_bitwise_byte_numeral:
  "crc32_bitwise_byte r b =
     (let x = r XOR ucast b
      in crc32_shift (crc32_shift (crc32_shift (crc32_shift
          (crc32_shift (crc32_shift (crc32_shift (crc32_shift x))))))))"
  by (simp add: crc32_bitwise_byte_def funpow8 del: funpow.simps)

lemma not_u32: "NOT (x :: u32) = x XOR 0xFFFFFFFF"
proof -
  have e: "(0xFFFFFFFF :: u32) = - 1" by simp
  show ?thesis unfolding e by (rule bit_eqI) (auto simp add: bit_simps)
qed

lemma utf8_ascii: "\<forall>c \<in> set s. c < 0x80 \<Longrightarrow> utf8 s = map ucast s"
  by (induction s rule: utf8.induct) simp_all

subsection \<open>escapeXml\<close>

lemma replace_char_append:
  "replace_char c r (a @ b) = replace_char c r a @ replace_char c r b"
  by (simp add: replace_char_def)

lemma replace_char_Cons:
  "replace_char c r (x # s) = replace_char c r [x] @ replace_char c r s"
  by (simp add: replace_char_def)

lemma escapeXml_Nil: "escapeXml [] = []"
  by (simp add: escapeXml_def replace_char_def)

lemma escapeXml_single: "escapeXml [x] = escape_char x"
  by (simp add: escapeXml_def replace_char_def escape_char_def str_def)

lemma escapeXml_append: "escapeXml (a @ b) = escapeXml a @ escapeXml b"
  by (simp add: escapeXml_def replace_char_append)

lemma escapeXml_Cons: "escapeXml (x # s) = escape_char x @ escapeXml s"
  using escapeXml_append [of "[x]" s] by (simp add: escapeXml_single)

lemma escape_char_safe: "set (escape_char x) \<inter> {0x3C, 0x3E, 0x22, 0x27} = {}"
  by (simp add: escape_char_def str_def)

lemma escapeXml_safe: "set (escapeXml s) \<inter> {0x3C, 0x3E, 0x22, 0x27} = {}"
proof (induction s)
  case Nil
  then show ?case by (simp add: escapeXml_Nil)
next
  case (Cons x s)
  then show ?case
    using escape_char_safe [of x] by (simp add: escapeXml_Cons Int_Un_distrib2)
qed

lemma unescape_escape_char: "unescapeXml (escape_char x @ r) = x # unescapeXml r"
  by (simp add: escape_char_def str_def)

lemma unescapeXml_escapeXml: "unescapeXml (escapeXml s) = s"
  by (induction s) (simp_all add: escapeXml_Nil escapeXml_Cons unescape_escape_char)

lemma take_drop_left:
  assumes "take n (drop i e) = t" and "length t = n"
  shows "take n (drop i (e @ r)) = t"
proof -
  have "length (take n (drop i e)) = n" using assms by simp
  then have "n \<le> length (drop i e)" by simp
  then show ?thesis using assms by simp
qed

lemma entity_at_left:
  assumes "entity_at e i"
  shows "entity_at (e @ r) i"
proof -
  have keep: "take (length t) (drop i (e @ r)) = t" if "take (length t) (drop i e) = t"
    for t :: jsstring
    using that by (rule take_drop_left) simp
  have len: "length (str ''&amp;'') = 5" "length (str ''&lt;'') = 4"
    "length (str ''&gt;'') = 4" "length (str ''&quot;'') = 6" "length (str ''&apos;'') = 6"
    by (simp_all add: str_def)
  show ?thesis
    using assms keep [of "str ''&amp;''"] keep [of "str ''&lt;''"] keep [of "str ''&gt;''"]
      keep [of "str ''&quot;''"] keep [of "str ''&apos;''"]
    unfolding entity_at_def len by blast
qed

lemma entity_at_right: "length e \<le> i \<Longrightarrow> entity_at r (i - length e) \<Longrightarrow> entity_at (e @ r) i"
  by (simp add: entity_at_def)

lemma escape_char_amp:
  "i < length (escape_char x) \<Longrightarrow> escape_char x ! i = 0x26 \<Longrightarrow> entity_at (escape_char x) i"
  by (auto simp add: escape_char_def entity_at_def str_def nth_Cons' split: if_splits)

lemma escapeXml_amp:
  "i < length (escapeXml s) \<Longrightarrow> escapeXml s ! i = 0x26 \<Longrightarrow> entity_at (escapeXml s) i"
proof (induction s arbitrary: i)
  case Nil
  then show ?case by (simp add: escapeXml_Nil)
next
  case (Cons x s)
  show ?case
  proof (cases "i < length (escape_char x)")
    case True
    then have "escape_char x ! i = 0x26" using Cons.prems by (simp add: escapeXml_Cons nth_append)
    then have "entity_at (escape_char x) i" using True by (rule escape_char_amp [rotated])
    then show ?thesis by (simp add: escapeXml_Cons entity_at_left)
  next
    case False
    then have "entity_at (escapeXml s) (i - length (escape_char x))"
      using Cons.prems by (intro Cons.IH) (simp_all add: escapeXml_Cons nth_append)
    then show ?thesis using False by (simp add: escapeXml_Cons entity_at_right)
  qed
qed

subsection \<open>slugify\<close>

lemma hyphen_not_alnum [simp]: "\<not> is_lower_alnum 0x2D"
  by (simp add: is_lower_alnum_def)

lemma filter_dropWhile_not: "filter P (dropWhile (\<lambda>x. \<not> P x) xs) = filter P xs"
  by (induction xs) simp_all

lemma runs_set: "set (replace_non_alnum_runs t) \<subseteq> Collect is_lower_alnum \<union> {0x2D}"
  by (induction t rule: replace_non_alnum_runs.induct) auto

lemma runs_filter:
  "filter is_lower_alnum (replace_non_alnum_runs t) = filter is_lower_alnum t"
  by (induction t rule: replace_non_alnum_runs.induct) (simp_all add: filter_dropWhile_not)

lemma runs_hd:
  "t = [] \<or> is_lower_alnum (hd t) \<Longrightarrow>
   replace_non_alnum_runs t = [] \<or> hd (replace_non_alnum_runs t) \<noteq> 0x2D"
  by (cases t) auto

lemma runs_single_hyphen:
  "successively (\<lambda>a b. \<not> (a = 0x2D \<and> b = 0x2D)) (replace_non_alnum_runs t)"
proof (induction t rule: replace_non_alnum_runs.induct)
  case 1
  then show ?case by simp
next
  case (2 c cs)
  show ?case
  proof (cases "is_lower_alnum c")
    case True
    then have "c \<noteq> 0x2D" by auto
    then show ?thesis using True 2 by (simp add: successively_Cons)
  next
    case False
    let ?d = "dropWhile (\<lambda>x. \<not> is_lower_alnum x) cs"
    have "?d = [] \<or> is_lower_alnum (hd ?d)"
      using hd_dropWhile [of "\<lambda>x. \<not> is_lower_alnum x" cs] by auto
    then have "replace_non_alnum_runs ?d = [] \<or> hd (replace_non_alnum_runs ?d) \<noteq> 0x2D"
      by (rule runs_hd)
    then show ?thesis using False 2 by (auto simp add: successively_Cons)
  qed
qed

lemma takeWhile_eq_replicate:
  "takeWhile (\<lambda>x. x = a) xs = replicate (length (takeWhile (\<lambda>x. x = a) xs)) a"
  by (induction xs) simp_all

lemma rev_dropWhile_split:
  "xs = rev (dropWhile P (rev xs)) @ rev (takeWhile P (rev xs))"
proof -
  have "rev xs = takeWhile P (rev xs) @ dropWhile P (rev xs)"
    by (simp only: takeWhile_dropWhile_id)
  then have "rev (rev xs) = rev (takeWhile P (rev xs) @ dropWhile P (rev xs))"
    by (rule arg_cong)
  then show ?thesis by (simp only: rev_rev_ident rev_append)
qed

lemma strip_hyphens_decomp:
  "\<exists>a b. c = replicate a 0x2D @ strip_hyphens c @ replicate b 0x2D"
proof -
  let ?P = "\<lambda>x :: jschar. x = 0x2D"
  let ?d = "dropWhile ?P c"
  have 1: "c = takeWhile ?P c @ ?d" by simp
  have 2: "?d = strip_hyphens c @ rev (takeWhile ?P (rev ?d))"
    unfolding strip_hyphens_def by (rule rev_dropWhile_split)
  have 3: "rev (takeWhile ?P (rev ?d)) = replicate (length (takeWhile ?P (rev ?d))) 0x2D"
    using takeWhile_eq_replicate [of "0x2D" "rev ?d"] by (metis rev_replicate)
  have "c = replicate (length (takeWhile ?P c)) 0x2D @ strip_hyphens c
            @ replicate (length (takeWhile ?P (rev ?d))) 0x2D"
    using 1 2 3 takeWhile_eq_replicate [of "0x2D" c] by metis
  then show ?thesis by blast
qed

lemma strip_hyphens_ends:
  assumes "strip_hyphens c \<noteq> []"
  shows "hd (strip_hyphens c) \<noteq> 0x2D \<and> last (strip_hyphens c) \<noteq> 0x2D"
proof -
  let ?P = "\<lambda>x :: jschar. x = 0x2D"
  let ?d = "dropWhile ?P c"
  let ?e = "dropWhile ?P (rev ?d)"
  have s: "strip_hyphens c = rev ?e" by (simp add: strip_hyphens_def)
  have e: "?e \<noteq> []" using assms s by simp
  then have "\<not> ?P (hd ?e)" by (rule hd_dropWhile)
  then have l: "last (strip_hyphens c) \<noteq> 0x2D" using e s by (simp add: last_rev)
  have d: "?d \<noteq> []"
  proof
    assume "?d = []"
    then have "?e = []" by (simp only: rev.simps(1) dropWhile.simps(1))
    with e show False by (simp only: not_True_eq_False simp_thms)
  qed
  then have nd: "\<not> ?P (hd ?d)" by (rule hd_dropWhile)
  have "?d = strip_hyphens c @ rev (takeWhile ?P (rev ?d))"
    unfolding strip_hyphens_def by (rule rev_dropWhile_split)
  then have "hd ?d = hd (strip_hyphens c)" using assms by (metis hd_append2)
  then show ?thesis using nd l by simp
qed

lemma strip_hyphens_empty:
  assumes "set c \<subseteq> Collect is_lower_alnum \<union> {0x2D}"
  shows "strip_hyphens c = [] \<longleftrightarrow> filter is_lower_alnum c = []"
proof
  assume "strip_hyphens c = []"
  then obtain a b where c: "c = replicate a 0x2D @ replicate b 0x2D"
    using strip_hyphens_decomp [of c] by auto
  have "set (replicate a 0x2D @ replicate b (0x2D :: jschar)) \<subseteq> {0x2D}" by auto
  then have "set c \<subseteq> {0x2D}" using c by simp
  then show "filter is_lower_alnum c = []" by (auto simp add: filter_empty_conv)
next
  assume "filter is_lower_alnum c = []"
  then have "\<forall>x \<in> set c. x = 0x2D" using assms by (auto simp add: filter_empty_conv)
  then have "dropWhile (\<lambda>x. x = 0x2D) c = []" by simp
  then show "strip_hyphens c = []"
    by (simp only: strip_hyphens_def rev.simps(1) dropWhile.simps(1))
qed

lemma slugify_fallback:
  "slugify toLowerCase s =
     (if filter is_lower_alnum (toLowerCase s) = [] then str ''chapter''
      else take 60 (strip_hyphens (replace_non_alnum_runs (toLowerCase s))))"
proof -
  let ?c = "replace_non_alnum_runs (toLowerCase s)"
  have "take 60 (strip_hyphens ?c) = [] \<longleftrightarrow> strip_hyphens ?c = []" by simp
  also have "\<dots> \<longleftrightarrow> filter is_lower_alnum ?c = []"
    by (rule strip_hyphens_empty) (rule runs_set)
  finally show ?thesis by (simp add: slugify_def Let_def runs_filter)
qed

lemma slugify_nonempty: "slugify toLowerCase s \<noteq> []"
  by (simp add: slugify_def Let_def str_def)

lemma slugify_length: "length (slugify toLowerCase s) \<le> 60"
  by (simp add: slugify_def Let_def str_def)

lemma runs_alnum_prefix:
  "list_all is_lower_alnum a \<Longrightarrow> replace_non_alnum_runs (a @ rest) = a @ replace_non_alnum_runs rest"
  by (induction a) simp_all

lemma dropWhile_at_alnum:
  "rest = [] \<or> is_lower_alnum (hd rest) \<Longrightarrow> dropWhile (\<lambda>x. \<not> is_lower_alnum x) rest = rest"
  by (cases rest) auto

lemma dropWhile_run:
  "list_all (\<lambda>x. \<not> is_lower_alnum x) n \<Longrightarrow> rest = [] \<or> is_lower_alnum (hd rest) \<Longrightarrow>
   dropWhile (\<lambda>x. \<not> is_lower_alnum x) (n @ rest) = rest"
  by (induction n) (simp_all add: dropWhile_at_alnum)

lemma runs_one_hyphen:
  assumes "n \<noteq> []" and "list_all (\<lambda>x. \<not> is_lower_alnum x) n"
    and "rest = [] \<or> is_lower_alnum (hd rest)"
  shows "replace_non_alnum_runs (n @ rest) = 0x2D # replace_non_alnum_runs rest"
proof -
  obtain x xs where n: "n = x # xs" using assms(1) by (cases n) auto
  have "list_all (\<lambda>x. \<not> is_lower_alnum x) xs" and "\<not> is_lower_alnum x"
    using assms(2) n by simp_all
  then show ?thesis
    using dropWhile_run [of xs rest] assms(3) by (simp add: n)
qed

lemma squeeze_hyphens_Cons_alnum:
  "x \<noteq> 0x2D \<Longrightarrow> squeeze_hyphens (x # ys) = x # squeeze_hyphens ys"
  by (cases ys) simp_all

lemma squeeze_hyphens_run:
  "squeeze_hyphens (0x2D # map (\<lambda>x. if is_lower_alnum x then x else 0x2D) cs)
   = 0x2D # squeeze_hyphens (map (\<lambda>x. if is_lower_alnum x then x else 0x2D)
        (dropWhile (\<lambda>x. \<not> is_lower_alnum x) cs))"
proof (induction cs)
  case Nil
  then show ?case by simp
next
  case (Cons c cs)
  show ?case
  proof (cases "is_lower_alnum c")
    case True
    then have "c \<noteq> 0x2D" by auto
    then show ?thesis using True by (simp add: squeeze_hyphens_Cons_alnum)
  next
    case False
    then show ?thesis using Cons by simp
  qed
qed

lemma runs_eq_spec: "replace_non_alnum_runs t = collapse_runs_spec t"
  unfolding collapse_runs_spec_def
proof (induction t rule: replace_non_alnum_runs.induct)
  case 1
  then show ?case by simp
next
  case (2 c cs)
  show ?case
  proof (cases "is_lower_alnum c")
    case True
    then have "c \<noteq> 0x2D" by auto
    then show ?thesis using True 2 by (simp add: squeeze_hyphens_Cons_alnum)
  next
    case False
    then show ?thesis using 2 by (simp add: squeeze_hyphens_run)
  qed
qed


lemma is_lower_alnum_chars:
  "is_lower_alnum x \<longleftrightarrow>
     (of_char CHR ''a'' \<le> x \<and> x \<le> of_char CHR ''z'') \<or> (of_char CHR ''0'' \<le> x \<and> x \<le> of_char CHR ''9'')"
  by (simp add: is_lower_alnum_def)

subsection \<open>The archive builder: header fields\<close>

lemma length_writeUInt16LE [simp]: "length (writeUInt16LE v) = 2"
  by (simp add: writeUInt16LE_def)

lemma length_writeUInt32LE [simp]: "length (writeUInt32LE v) = 4"
  by (simp add: writeUInt32LE_def)

lemma unat_byte_of_nat: "unat (of_nat n :: byte) = n mod 256"
  by (simp add: unat_of_nat)

lemma split256: "(n::nat) mod (256 * m) = n mod 256 + 256 * (n div 256 mod m)"
  by (simp add: mod_mult2_eq)

lemma le_bytes32:
  "(v::nat) mod 256 + 256 * (v div 256 mod 256 + 256 * (v div 65536 mod 256
     + 256 * (v div 16777216 mod 256))) = v mod 4294967296"
proof -
  have d2: "v div 65536 = v div 256 div 256" by (simp add: div_mult2_eq [symmetric])
  have d3: "v div 16777216 = v div 256 div 256 div 256" by (simp add: div_mult2_eq [symmetric])
  have s1: "v mod 4294967296 = v mod 256 + 256 * (v div 256 mod 16777216)"
    using split256 [of v 16777216] by simp
  have s2: "v div 256 mod 16777216 = v div 256 mod 256 + 256 * (v div 256 div 256 mod 65536)"
    using split256 [of "v div 256" 65536] by simp
  have s3: "v div 256 div 256 mod 65536 =
            v div 256 div 256 mod 256 + 256 * (v div 256 div 256 div 256 mod 256)"
    using split256 [of "v div 256 div 256" 256] by simp
  show ?thesis by (simp only: s1 s2 s3 d2 d3)
qed

lemma le_bytes16: "(n::nat) < 65536 \<Longrightarrow> n mod 256 + 256 * (n div 256 mod 256) = n"
  using split256 [of n 256] by simp

lemma le_nat_writeUInt32LE [simp]: "le_nat (writeUInt32LE v) = v mod 2 ^ 32"
  using le_bytes32 [of v] by (simp add: writeUInt32LE_def unat_byte_of_nat)

lemma writeUInt16LE_nat:
  "writeUInt16LE (int n) = [of_nat n, of_nat (n div 256)]"
proof -
  have h: "int n div 0x100 = int (n div 256)" by (simp add: zdiv_int)
  show ?thesis unfolding writeUInt16LE_def by (simp only: h of_int_of_nat_eq)
qed

lemma le_nat_writeUInt16LE_nat: "n < 65536 \<Longrightarrow> le_nat (writeUInt16LE (int n)) = n"
  using le_bytes16 [of n] by (simp add: writeUInt16LE_nat unat_byte_of_nat)

lemma le_nat_writeUInt16LE_0: "le_nat (writeUInt16LE 0) = 0"
  by (simp add: writeUInt16LE_def)

lemma field_append_left [simp]: "field (pre @ b) (length pre + k) n = field b k n"
  by (simp add: field_def)

lemma field_at_0: "field (pre @ b) (length pre) n = field b 0 n"
  using field_append_left [of pre b 0 n] by simp


subsection \<open>One addFile call\<close>

lemma fits_uint16_method: "fits_uint16 8" "fits_uint16 0" "fits_uint16 20"
  "fits_uint16 UTF8_FLAG" "fits_uint16 0x031E" "fits_uint16 0x0800"
  by (simp_all add: fits_uint16_def UTF8_FLAG_def)

lemma addFile_eq:
  "addFile d now z nm dat opts =
     (let e = added_entry d now (this_offset z) nm dat opts
      in if entry_ok e then
           Inr \<lparr>files = files z @ [e], chunks = chunks z @ [local_header e, comp_buf e],
                this_offset = this_offset z + length (local_entry e)\<rparr>
         else Inl ERR_OUT_OF_RANGE)"
  by (simp add: addFile_def added_entry_def entry_ok_def local_header_def local_entry_def
      payload_bytes_def call_date_def call_compress_def Let_def fits_uint16_method
      split: prod.splits)

lemma offsets_from_append:
  "offsets_from p (fs @ [f]) \<longleftrightarrow>
   offsets_from p fs \<and> offset f = p + length (concat (map local_entry fs))"
  by (induction fs arbitrary: p) (auto simp add: add.assoc)

lemma added_entry_sel [simp]:
  "name (added_entry d now off nm dat opts) = nm"
  "offset (added_entry d now off nm dat opts) = off"
  by (simp_all add: added_entry_def)

lemma addFile_built:
  assumes "built_by_addFile z" and "addFile d now z nm dat opts = Inr z'"
  shows "built_by_addFile z' \<and> map name (files z') = map name (files z) @ [nm]"
proof -
  let ?e = "added_entry d now (this_offset z) nm dat opts"
  have ok: "entry_ok ?e" and z': "z' = \<lparr>files = files z @ [?e],
      chunks = chunks z @ [local_header ?e, comp_buf ?e],
      this_offset = this_offset z + length (local_entry ?e)\<rparr>"
    using assms(2) by (auto simp add: addFile_eq Let_def split: if_splits)
  show ?thesis
    using assms(1) ok
    by (simp add: z' built_by_addFile_def offsets_from_append local_entry_def)
qed

lemma addFiles_built:
  "built_by_addFile z \<Longrightarrow> addFiles d z cs = Inr z' \<Longrightarrow>
   built_by_addFile z' \<and> map name (files z') = map name (files z) @ map call_name cs"
proof (induction cs arbitrary: z)
  case Nil
  then show ?case by simp
next
  case (Cons c cs)
  from Cons.prems(2) obtain z1 where
    1: "addFile d (call_now c) z (call_name c) (call_data c) (call_opts c) = Inr z1"
    and 2: "addFiles d z1 cs = Inr z'"
    by (auto split: sum.splits)
  from addFile_built [OF Cons.prems(1) 1] have b: "built_by_addFile z1"
    and n: "map name (files z1) = map name (files z) @ [call_name c]" by simp_all
  from Cons.IH [OF b 2] show ?case by (simp add: n)
qed

lemma new_ZipBuilder_built: "built_by_addFile new_ZipBuilder"
  by (simp add: built_by_addFile_def new_ZipBuilder_def)


subsection \<open>build\<close>

lemma central_header_ok: "entry_ok f \<Longrightarrow> central_header f = Inr (central_bytes f)"
  by (simp add: central_header_def central_bytes_def entry_ok_def Let_def)

lemma central_loop_ok:
  "list_all entry_ok fs \<Longrightarrow> central_loop fs = Inr (map central_bytes fs)"
  by (induction fs) (simp_all add: central_header_ok)

lemma build_eq:
  assumes "built_by_addFile z"
  shows "build z =
     (if length (files z) < 65536 then
        Inr (concat (map local_entry (files z)) @ concat (map central_bytes (files z))
               @ eocd_bytes (length (files z))
                   (length (concat (map central_bytes (files z)))) (this_offset z),
             z\<lparr>chunks := chunks z @ map central_bytes (files z)
                    @ [eocd_bytes (length (files z))
                        (length (concat (map central_bytes (files z)))) (this_offset z)],
               this_offset := this_offset z + length (concat (map central_bytes (files z)))
                    + 22\<rparr>)
      else Inl ERR_OUT_OF_RANGE)"
proof -
  have c: "central_loop (files z) = Inr (map central_bytes (files z))"
    using assms by (simp add: built_by_addFile_def central_loop_ok)
  have l: "concat (chunks z) = concat (map local_entry (files z))"
    using assms by (simp add: built_by_addFile_def)
  have s: "sum_list (map length (map central_bytes (files z)))
           = length (concat (map central_bytes (files z)))"
    by (simp add: length_concat)
  have f: "fits_uint16 (int (length (files z))) \<longleftrightarrow> length (files z) < 65536"
    by (auto simp add: fits_uint16_def)
  show ?thesis
    unfolding build_def c sum.case Let_def s f
    by (simp add: eocd_bytes_def l)
qed

subsection \<open>Reading the headers back\<close>

lemma length_local_header: "length (local_header f) = 30 + length (utf8 (name f))"
  by (simp add: local_header_def)

lemma length_central_bytes: "length (central_bytes f) = 46 + length (utf8 (name f))"
  by (simp add: central_bytes_def)

lemma entry_ok_name: "entry_ok f \<Longrightarrow> length (utf8 (name f)) < 65536"
  by (simp add: entry_ok_def fits_uint16_def)

lemma local_header_fields:
  "field (local_header f @ r) 0 4 = 0x04034b50"
  "field (local_header f @ r) 14 4 = crc f mod 2 ^ 32"
  "field (local_header f @ r) 18 4 = length (comp_buf f) mod 2 ^ 32"
  "field (local_header f @ r) 22 4 = uncomp f mod 2 ^ 32"
  "entry_ok f \<Longrightarrow> field (local_header f @ r) 26 2 = length (utf8 (name f))"
  "drop 30 (local_header f @ r) = utf8 (name f) @ r"
  by (simp_all add: local_header_def field_def ushr0_def le_nat_writeUInt16LE_nat entry_ok_name)

lemma central_bytes_fields:
  "field (central_bytes f @ r) 0 4 = 0x02014b50"
  "field (central_bytes f @ r) 16 4 = crc f mod 2 ^ 32"
  "field (central_bytes f @ r) 20 4 = length (comp_buf f) mod 2 ^ 32"
  "field (central_bytes f @ r) 24 4 = uncomp f mod 2 ^ 32"
  "entry_ok f \<Longrightarrow> field (central_bytes f @ r) 28 2 = length (utf8 (name f))"
  "field (central_bytes f @ r) 30 2 = 0"
  "field (central_bytes f @ r) 32 2 = 0"
  "field (central_bytes f @ r) 42 4 = offset f mod 2 ^ 32"
  "drop 46 (central_bytes f @ r) = utf8 (name f) @ r"
  by (simp_all add: central_bytes_def field_def ushr0_def le_nat_writeUInt16LE_nat
      entry_ok_name le_nat_writeUInt16LE_0)

lemma header_names:
  "drop 30 (local_header f) = utf8 (name f)"
  "drop 46 (central_bytes f) = utf8 (name f)"
  by (simp_all add: local_header_def central_bytes_def)

lemma read_local_entry:
  assumes "entry_ok f"
  shows "read_local (pre @ local_entry f @ post) (length pre) = Some (local_rec_of f)"
proof -
  let ?r = "comp_buf f @ post"
  have b: "pre @ local_entry f @ post = pre @ (local_header f @ ?r)"
    by (simp add: local_entry_def)
  have d: "drop (length pre + 30) (pre @ (local_header f @ ?r)) = utf8 (name f) @ ?r"
    using local_header_fields(6) [of f ?r] by (simp add: add.commute [of _ 30] drop_drop [symmetric] del: drop_drop)
  show ?thesis
    unfolding b read_local_def
    using assms
    by (simp add: field_at_0 local_header_fields(1-5) d local_rec_of_def length_local_header
        header_names)
qed


lemma read_central_entry:
  assumes "entry_ok f"
  shows "read_central (pre @ central_bytes f @ post) (length pre)
         = Some (central_rec_of f, length pre + length (central_bytes f))"
proof -
  have d: "drop (length pre + 46) (pre @ (central_bytes f @ post)) = utf8 (name f) @ post"
    using central_bytes_fields(9) [of f post]
    by (simp add: header_names)
  show ?thesis
    unfolding read_central_def
    using assms
    by (simp add: field_at_0 central_bytes_fields(1-8) d central_rec_of_def
        length_central_bytes header_names)
qed

lemma read_centrals_entries:
  "list_all entry_ok fs \<Longrightarrow>
   read_centrals (length fs) (pre @ concat (map central_bytes fs) @ post) (length pre)
   = Some (map central_rec_of fs)"
proof (induction fs arbitrary: pre)
  case Nil
  then show ?case by simp
next
  case (Cons f fs)
  have ok: "entry_ok f" and oks: "list_all entry_ok fs" using Cons.prems by simp_all
  let ?post = "concat (map central_bytes fs) @ post"
  have 1: "read_central (pre @ central_bytes f @ ?post) (length pre)
           = Some (central_rec_of f, length (pre @ central_bytes f))"
    using read_central_entry [OF ok, of pre ?post] by simp
  have 2: "read_centrals (length fs) ((pre @ central_bytes f) @ ?post)
             (length (pre @ central_bytes f)) = Some (map central_rec_of fs)"
    by (rule Cons.IH [OF oks])
  show ?case using 1 2 by simp
qed

subsection \<open>Offsets\<close>

lemma offsets_from_nth:
  "offsets_from p fs \<Longrightarrow> i < length fs \<Longrightarrow>
   offset (fs ! i) = p + length (concat (map local_entry (take i fs)))"
proof (induction fs arbitrary: p i)
  case Nil
  then show ?case by simp
next
  case (Cons f fs)
  show ?case
  proof (cases i)
    case 0
    then show ?thesis using Cons.prems by simp
  next
    case (Suc j)
    have "offset (fs ! j) = p + length (local_entry f)
            + length (concat (map local_entry (take j fs)))"
      using Cons.prems Suc by (intro Cons.IH) simp_all
    then show ?thesis using Suc by simp
  qed
qed

lemma length_local_entry_pos: "0 < length (local_entry f)"
  by (simp add: local_entry_def length_local_header)

lemma offsets_from_sorted:
  "offsets_from p fs \<Longrightarrow> sorted_wrt (<) (map offset fs) \<and> (\<forall>f \<in> set fs. p \<le> offset f)"
proof (induction fs arbitrary: p)
  case Nil
  then show ?case by simp
next
  case (Cons f fs)
  from Cons.prems have o: "offset f = p"
    and r: "offsets_from (p + length (local_entry f)) fs" by simp_all
  from Cons.IH [OF r] have s: "sorted_wrt (<) (map offset fs)"
    and b: "\<forall>g \<in> set fs. p + length (local_entry f) \<le> offset g" by simp_all
  have lt: "p < offset g" if "g \<in> set fs" for g
  proof -
    have "p + length (local_entry f) \<le> offset g" using b that by blast
    then show ?thesis using length_local_entry_pos [of f] by linarith
  qed
  have le: "p \<le> offset g" if "g \<in> set (f # fs)" for g
    using that o lt by (auto simp add: less_imp_le)
  show ?case using o s lt le by (simp del: set_simps)
qed

lemma local_entry_at:
  assumes "i < length fs"
  shows "concat (map local_entry fs) @ post
         = concat (map local_entry (take i fs)) @ local_entry (fs ! i)
           @ (concat (map local_entry (drop (Suc i) fs)) @ post)"
proof -
  have "fs = take i fs @ fs ! i # drop (Suc i) fs" using assms by (rule id_take_nth_drop)
  then have "concat (map local_entry fs)
       = concat (map local_entry (take i fs @ fs ! i # drop (Suc i) fs))" by (rule arg_cong)
  then show ?thesis by simp
qed

lemma read_local_built:
  assumes "list_all entry_ok fs" and "offsets_from 0 fs" and "i < length fs"
  shows "read_local (concat (map local_entry fs) @ post) (offset (fs ! i))
         = Some (local_rec_of (fs ! i))"
proof -
  have ok: "entry_ok (fs ! i)" using assms(1,3) by (simp add: list_all_length)
  have o: "offset (fs ! i) = length (concat (map local_entry (take i fs)))"
    using offsets_from_nth [OF assms(2,3)] by simp
  show ?thesis
    unfolding o local_entry_at [OF assms(3), of post]
    by (rule read_local_entry [OF ok])
qed

subsection \<open>The archive builder: a whole run\<close>

lemma msDosDateTime_demo: "msDosDateTime demo_date = (0x53CA, 0x582F)"
  by (simp add: msDosDateTime_def demo_date_def shl_def Let_def)

lemma entry_ok_added:
  "entry_ok (added_entry d now off nm dat opts) \<longleftrightarrow>
   fits_uint16 (fst (msDosDateTime (call_date now opts)))
   \<and> fits_uint16 (snd (msDosDateTime (call_date now opts)))
   \<and> length (utf8 nm) \<le> 0xFFFF"
  by (auto simp add: entry_ok_def added_entry_def fits_uint16_def)

lemma archive_layout:
  assumes "addFiles deflateRawSync new_ZipBuilder calls = Inr z"
    and "build z = Inr (buf, z')"
  shows "built_by_addFile z"
    and "map name (files z) = map call_name calls"
    and "length (files z) = length calls"
    and "buf = concat (map local_entry (files z)) @ concat (map central_bytes (files z))
           @ eocd_bytes (length (files z)) (length (concat (map central_bytes (files z))))
               (this_offset z)"
    and "read_centrals (length calls) buf (this_offset z) = Some (map central_rec_of (files z))"
proof -
  let ?fs = "files z"
  show b: "built_by_addFile z" and n: "map name ?fs = map call_name calls"
    using addFiles_built [OF new_ZipBuilder_built assms(1)]
    by (simp_all add: new_ZipBuilder_def)
  show len: "length ?fs = length calls"
    using n by (metis length_map)
  have oks: "list_all entry_ok ?fs"
    and cur: "this_offset z = length (concat (map local_entry ?fs))"
    using b by (simp_all add: built_by_addFile_def)
  let ?post = "eocd_bytes (length ?fs) (length (concat (map central_bytes ?fs))) (this_offset z)"
  show buf: "buf = concat (map local_entry ?fs) @ concat (map central_bytes ?fs) @ ?post"
    using assms(2) by (simp add: build_eq [OF b] split: if_splits)
  show "read_centrals (length calls) buf (this_offset z) = Some (map central_rec_of ?fs)"
    unfolding buf cur len [symmetric] by (rule read_centrals_entries [OF oks])
qed

lemma length_utf8_str [simp]:
  "length (utf8 (str ''mimetype'')) = 8"
  "length (utf8 (str ''a'')) = 1"
  "length (utf8 (str ''application/epub+zip'')) = 20"
  by (simp_all add: str_def)

lemma length_utf8_b [simp]: "length (utf8 (str ''b'')) = 1"
  by (simp add: str_def)

lemma le_nat_replicate_0: "le_nat (replicate n 0) = 0"
  by (induction n) simp_all

lemma length_big_payload: "length big_payload = 2 ^ 32"
  by (simp add: big_payload_def)

lemma field_big_payload: "field (h @ big_payload @ r) (length h) 4 = 0"
proof -
  have "take 4 (big_payload @ r) = replicate 4 0"
    by (simp add: big_payload_def)
  then show ?thesis by (simp add: field_def le_nat_replicate_0)
qed

lemma big_run:
  "\<exists>z. addFiles (\<lambda>b. b) new_ZipBuilder big_calls = Inr z
     \<and> files z ! 0 = added_entry (\<lambda>b. b) demo_date 0 (str ''a'') (Buf big_payload) stored"
  by (simp add: big_calls_def addFile_eq entry_ok_added call_date_def stored_def
        msDosDateTime_demo fits_uint16_def Let_def new_ZipBuilder_def)

lemma local_header_sizes:
  "field (local_header f) 18 4 = length (comp_buf f) mod 2 ^ 32"
  "field (local_header f) 22 4 = uncomp f mod 2 ^ 32"
  using local_header_fields(3,4) [of f "[]"] by simp_all

lemma build_count:
  assumes "built_by_addFile z"
  shows "case build z of Inl e \<Rightarrow> 0xFFFF < length (files z)
         | Inr r \<Rightarrow> length (files z) \<le> 0xFFFF"
  by (simp add: build_eq [OF assms])

lemma build_Inr:
  assumes "build z = Inr (buf, z')"
  shows "files z' = files z" and "concat (chunks z') = buf"
    and "\<exists>tail. chunks z' = chunks z @ tail"
  using assms by (auto simp add: build_def Let_def split: sum.splits if_splits)

lemma entry_ok_offset:
  "entry_ok (added_entry d now off nm dat opts) = entry_ok (added_entry d now off' nm dat opts)"
  by (simp add: entry_ok_added)

lemma added_entry_bytes:
  "local_header (added_entry d now off nm dat opts)
     = local_header (added_entry d now off' nm dat opts)"
  "comp_buf (added_entry d now off nm dat opts) = comp_buf (added_entry d now off' nm dat opts)"
  by (simp_all add: local_header_def added_entry_def)

subsection \<open>The splitter\<close>

lemma str_append: "str (a @ b) = str a @ str b"
  by (simp add: str_def)

lemma DEFAULT_CSS_body: "DEFAULT_CSS = str ''\<newline>'' @ default_css_body @ str ''\<newline>''"
  by (simp add: DEFAULT_CSS_def default_css_body_def str_append [symmetric] del: append_assoc)

lemma trim_between:
  assumes "list_all is_js_space a" and "list_all is_js_space b"
    and "m \<noteq> []" and "\<not> is_js_space (hd m)" and "\<not> is_js_space (last m)"
  shows "trim (a @ m @ b) = m"
proof -
  have 1: "dropWhile is_js_space (a @ m @ b) = m @ b"
    using assms(1,3,4) by (cases m) (simp_all add: dropWhile_append list_all_iff)
  have "rev (m @ b) = rev b @ rev m" by simp
  moreover have "dropWhile is_js_space (rev b @ rev m) = rev m"
    using assms(2,3,5) by (cases "rev m") (simp_all add: dropWhile_append list_all_iff hd_rev)
  ultimately show ?thesis by (simp add: trim_def 1)
qed

lemma trim_DEFAULT_CSS: "trim DEFAULT_CSS = default_css_body"
  unfolding DEFAULT_CSS_body
  by (rule trim_between) (simp_all add: default_css_body_def str_def is_js_space_def)

lemma length_default_css_body: "length default_css_body = 240"
  by (simp add: default_css_body_def str_def)

lemma epub_style_payload:
  "epub_payloads toLowerCase uuid chaptersIn css opts ! 2 = (str ''OEBPS/style.css'', Str css, None)"
  by (simp add: epub_payloads_def Let_def)

lemma plain_doc_no_style: "matches_in is_style plain_doc = []"
  by (simp add: plain_doc_def str_def)

lemma plain_doc_no_chapter: "matches_in is_h1_chapter plain_doc = []"
  by (simp add: plain_doc_def str_def)

declare show_nat.simps [simp del]

lemma show_nat_digits:
  "show_nat 1 = str ''1''" "show_nat 2 = str ''2''"
  "show_nat (Suc 0) = str ''1''" "show_nat (Suc (Suc 0)) = str ''2''"
  by (simp_all add: show_nat.simps digit_char_def str_def)

lemma length_each_chapter [simp]: "length (each_chapter outerHtml i bs) = length bs"
  by (induction bs arbitrary: i) (auto simp add: Let_def)

lemma each_chapter_nth:
  "k < length bs \<Longrightarrow>
   each_chapter outerHtml i bs ! k =
     \<lparr>title = (if trim (textContent (fst (bs ! k))) \<noteq> [] then trim (textContent (fst (bs ! k)))
               else str ''Chapter '' @ show_nat (i + k + 1)),
      html = outerHtml (fst (bs ! k)) @ str ''\<newline>''
             @ concat (map outerHtml (nextUntil is_h1_chapter (snd (bs ! k))))\<rparr>"
proof (induction bs arbitrary: i k)
  case Nil
  then show ?case by simp
next
  case (Cons b bs)
  obtain el sibs where b: "b = (el, sibs)" by (cases b)
  show ?case
  proof (cases k)
    case 0
    then show ?thesis by (simp add: b Let_def)
  next
    case (Suc j)
    then have "j < length bs" using Cons.prems by simp
    from Cons.IH [OF this, of "i + 1"] show ?thesis by (simp add: b Suc Let_def)
  qed
qed

lemma matches_in_sound: "(n, sibs) \<in> set (matches_in P ns) \<Longrightarrow> P n \<and> is_element n"
  by (induction P ns rule: matches_in.induct) (auto split: if_splits)

lemma nextUntil_excludes: "s \<in> set (nextUntil P sibs) \<Longrightarrow> \<not> P s \<and> is_element s \<and> s \<in> set sibs"
proof -
  assume "s \<in> set (nextUntil P sibs)"
  then have "s \<in> set (filter is_element sibs) \<and> \<not> P s"
    unfolding nextUntil_def by (rule set_takeWhileD)
  then show ?thesis by simp
qed

lemma example_matches:
  "matches_in is_h1_chapter example_doc =
     [(Element (str ''h1'') [(str ''class'', str ''chapter'')] [Text (str ''Intro'')],
       [Element (str ''p'') [] [Text (str ''Hello'')],
        Element (str ''h1'') [(str ''class'', str ''chapter'')] [Text (str ''End'')],
        Element (str ''p'') [] [Text (str ''Bye'')]]),
      (Element (str ''h1'') [(str ''class'', str ''chapter'')] [Text (str ''End'')],
       [Element (str ''p'') [] [Text (str ''Bye'')]])]"
  by (simp add: example_doc_def has_word_def word_at_def str_def)

lemma example_titles:
  "trim (str ''Intro'') = str ''Intro''" "trim (str ''End'') = str ''End''"
  by (simp_all add: trim_def is_js_space_def str_def)

lemma example_chapters:
  assumes \<open>loadHtml (str ''<div id="root">'' @ example_input @ str ''</div>'') = example_doc\<close>
  shows "fst (extractChaptersAndCss loadHtml outerHtml innerHtml example_input) =
     [\<lparr>title = str ''Intro'',
       html = outerHtml (Element (str ''h1'') [(str ''class'', str ''chapter'')] [Text (str ''Intro'')])
              @ str ''\<newline>'' @ outerHtml (Element (str ''p'') [] [Text (str ''Hello'')])\<rparr>,
      \<lparr>title = str ''End'',
       html = outerHtml (Element (str ''h1'') [(str ''class'', str ''chapter'')] [Text (str ''End'')])
              @ str ''\<newline>'' @ outerHtml (Element (str ''p'') [] [Text (str ''Bye'')])\<rparr>]"
proof -
  have n1: "nextUntil is_h1_chapter
       [Element (str ''p'') [] [Text (str ''Hello'')],
        Element (str ''h1'') [(str ''class'', str ''chapter'')] [Text (str ''End'')],
        Element (str ''p'') [] [Text (str ''Bye'')]] = [Element (str ''p'') [] [Text (str ''Hello'')]]"
    by (simp add: nextUntil_def has_word_def word_at_def str_def)
  have n2: "nextUntil is_h1_chapter [Element (str ''p'') [] [Text (str ''Bye'')]]
            = [Element (str ''p'') [] [Text (str ''Bye'')]]"
    by (simp add: nextUntil_def str_def)
  have t: "str ''Intro'' \<noteq> []" "str ''End'' \<noteq> []"
    by (simp_all add: str_def)
  show ?thesis
    by (simp add: extractChaptersAndCss_def Let_def assms example_matches n1 n2 t example_titles)
qed

lemma example_slugs:
  assumes "toLowerCase (str ''Intro'') = str ''intro''" and "toLowerCase (str ''End'') = str ''end''"
  shows "slugify toLowerCase (str ''Intro'') = str ''intro''"
    and "slugify toLowerCase (str ''End'') = str ''end''"
  by (simp_all add: slugify_def assms) (simp_all add: strip_hyphens_def is_lower_alnum_def str_def)

lemma ascii_lower_examples:
  "ascii_lower (str ''Intro'') = str ''intro''" "ascii_lower (str ''End'') = str ''end''"
  by (simp_all add: ascii_lower_def str_def)

lemma matches_in_positions:
  "matches_in P ns = filter (\<lambda>p. is_element (fst p) \<and> P (fst p)) (positions ns)"
  by (induction P ns rule: matches_in.induct) simp_all

lemma is_h1_chapter_element: "is_h1_chapter n \<Longrightarrow> is_element n"
  by (cases n) simp_all

lemma boundaries_positions:
  "matches_in is_h1_chapter ns = filter (\<lambda>p. is_h1_chapter (fst p)) (positions ns)"
proof -
  have "filter (\<lambda>p. is_element (fst p) \<and> is_h1_chapter (fst p)) xs
        = filter (\<lambda>p. is_h1_chapter (fst p)) xs" for xs :: "(node \<times> node list) list"
    by (rule filter_cong) (auto dest: is_h1_chapter_element)
  then show ?thesis by (simp only: matches_in_positions)
qed

lemma prefix_until_unique:
  assumes "xs = E @ rest" "\<forall>e \<in> set E. \<not> P e" "rest = [] \<or> P (hd rest)"
  shows "E = takeWhile (\<lambda>s. \<not> P s) xs"
proof (cases rest)
  case Nil
  have e: "takeWhile (\<lambda>s. \<not> P s) E = E"
    using assms(2) by (simp add: takeWhile_eq_all_conv)
  show ?thesis unfolding assms(1) Nil append_Nil2 e ..
next
  case (Cons r rs)
  then have "P r" using assms(3) by simp
  then show ?thesis using assms(1,2) Cons by (simp add: takeWhile_append2)
qed

lemma prefix_until_exists:
  "\<exists>rest. xs = takeWhile (\<lambda>s. \<not> P s) xs @ rest
     \<and> (\<forall>e \<in> set (takeWhile (\<lambda>s. \<not> P s) xs). \<not> P e)
     \<and> (rest = [] \<or> P (hd rest))"
proof (intro exI [of _ "dropWhile (\<lambda>s. \<not> P s) xs"] conjI)
  show "xs = takeWhile (\<lambda>s. \<not> P s) xs @ dropWhile (\<lambda>s. \<not> P s) xs" by simp
  show "\<forall>e \<in> set (takeWhile (\<lambda>s. \<not> P s) xs). \<not> P e"
    by (auto dest: set_takeWhileD)
  show "dropWhile (\<lambda>s. \<not> P s) xs = [] \<or> P (hd (dropWhile (\<lambda>s. \<not> P s) xs))"
    using hd_dropWhile [of "\<lambda>s. \<not> P s" xs] by auto
qed

lemma show_nat_small: "n < 10 \<Longrightarrow> show_nat n = [of_char (''0123456789'' ! n)]"
proof -
  assume "n < 10"
  then have "n \<in> {0, 1, 2, 3, 4, 5, 6, 7, 8, 9}" by auto
  then show ?thesis
    by (auto simp add: show_nat.simps digit_char_def)
qed

lemma show_nat_large:
  "10 \<le> n \<Longrightarrow> show_nat n = show_nat (n div 10) @ show_nat (n mod 10)"
  by (subst show_nat.simps) (simp add: show_nat.simps [of "n mod 10"])

lemma xor_eq_zero_u32: "x XOR y = 0 \<Longrightarrow> x = (y :: u32)"
proof -
  assume "x XOR y = 0"
  then have "(x XOR y) XOR y = 0 XOR y" by (rule arg_cong)
  then show ?thesis by (simp only: xor_twice_poly xor.left_neutral)
qed

lemma crc32_shift_zero: "crc32_shift z = 0 \<Longrightarrow> z = 0"
proof -
  assume a: "crc32_shift z = 0"
  have nb: "\<not> bit z 0"
  proof
    assume "bit z 0"
    then have "crc32_shift z = drop_bit 1 z XOR 0xEDB88320"
      unfolding crc32_shift_def by (simp only: if_True)
    then have "drop_bit 1 z XOR 0xEDB88320 = 0" using a by (simp only:)
    then have "drop_bit 1 z = 0xEDB88320" by (rule xor_eq_zero_u32)
    then have "drop_bit 31 (drop_bit 1 z) = drop_bit 31 (0xEDB88320 :: u32)"
      by (rule arg_cong)
    moreover have "drop_bit 31 (0xEDB88320 :: u32) = 1" by simp
    moreover have "drop_bit 31 (drop_bit 1 z) = 0"
      by (rule bit_eqI) (auto simp add: bit_drop_bit_eq dest: bit_imp_le_length)
    ultimately show False by simp
  qed
  then have "crc32_shift z = drop_bit 1 z"
    unfolding crc32_shift_def by (simp only: if_False)
  then have d: "drop_bit 1 z = 0" using a by (simp only:)
  show "z = 0"
  proof (rule bit_eqI)
    fix n
    show "bit z n = bit (0 :: u32) n"
    proof (cases n)
      case 0
      then show ?thesis using nb by simp
    next
      case (Suc m)
      have "bit (drop_bit 1 z) m = bit z (Suc m)" by (simp add: bit_drop_bit_eq)
      then show ?thesis using d Suc by simp
    qed
  qed
qed

lemma crc32_shift_inj: "crc32_shift x = crc32_shift y \<Longrightarrow> x = y"
proof -
  assume "crc32_shift x = crc32_shift y"
  then have "crc32_shift (x XOR y) = 0" by (simp add: crc32_shift_xor)
  then have "x XOR y = 0" by (rule crc32_shift_zero)
  then show "x = y" by (rule xor_eq_zero_u32)
qed

lemma crc32_shift_pow_inj: "(crc32_shift ^^ k) x = (crc32_shift ^^ k) y \<Longrightarrow> x = y"
  by (induction k) (auto dest: crc32_shift_inj)

lemma crc32_bitwise_byte_inj_state:
  "crc32_bitwise_byte r b = crc32_bitwise_byte r' b \<Longrightarrow> r = r'"
proof -
  assume "crc32_bitwise_byte r b = crc32_bitwise_byte r' b"
  then have "r XOR ucast b = r' XOR ucast b"
    unfolding crc32_bitwise_byte_def by (rule crc32_shift_pow_inj)
  then have "(r XOR ucast b) XOR ucast b = (r' XOR ucast b) XOR ucast b" by simp
  then show ?thesis by (simp only: xor_twice_poly)
qed

lemma crc32_bitwise_byte_inj_byte:
  "crc32_bitwise_byte r a = crc32_bitwise_byte r b \<Longrightarrow> a = b"
proof -
  assume "crc32_bitwise_byte r a = crc32_bitwise_byte r b"
  then have "r XOR ucast a = r XOR ucast b"
    unfolding crc32_bitwise_byte_def by (rule crc32_shift_pow_inj)
  then have "r XOR (r XOR ucast a) = r XOR (r XOR ucast b)" by simp
  then have "(ucast a :: u32) = ucast b"
    by (simp add: xor.assoc [symmetric])
  then have "(ucast (ucast a :: u32) :: byte) = ucast (ucast b :: u32)" by simp
  moreover have "ucast (ucast x :: u32) = x" for x :: byte
    by (rule bit_eqI) (auto simp add: bit_simps dest: bit_imp_le_length)
  ultimately show ?thesis by simp
qed

lemma foldl_crc_inj:
  "foldl crc32_bitwise_byte r s = foldl crc32_bitwise_byte r' s \<Longrightarrow> r = r'"
  by (induction s arbitrary: r r') (auto dest: crc32_bitwise_byte_inj_state)

lemma crc32_single_byte:
  assumes "crc32 (p @ a # s) = crc32 (p @ b # s)"
  shows "a = b"
proof -
  let ?r = "foldl crc32_bitwise_byte (NOT 0) p"
  have "crc32_bitwise (p @ a # s) = crc32_bitwise (p @ b # s)"
    using assms by (simp add: crc32_bitwise_eq word_unat_eq_iff)
  then have "foldl crc32_bitwise_byte (crc32_bitwise_byte ?r a) s
           = foldl crc32_bitwise_byte (crc32_bitwise_byte ?r b) s"
    by (simp add: crc32_bitwise_def)
  then have "crc32_bitwise_byte ?r a = crc32_bitwise_byte ?r b" by (rule foldl_crc_inj)
  then show ?thesis by (rule crc32_bitwise_byte_inj_byte)
qed

lemma crc32_lt: "crc32 b < 2 ^ 32"
proof -
  have "unat (crc32_loop (0 XOR (-1)) b XOR (-1)) < 2 ^ LENGTH(32)" by (rule unsigned_less)
  then show ?thesis by (simp add: crc32_def)
qed

lemma addFiles_files:
  "addFiles d z cs = Inr z' \<Longrightarrow> files z' = files z @ entries_from d (this_offset z) cs"
proof (induction cs arbitrary: z)
  case Nil
  then show ?case by simp
next
  case (Cons c cs)
  let ?e = "added_entry d (call_now c) (this_offset z) (call_name c) (call_data c) (call_opts c)"
  from Cons.prems obtain z1 where
    1: "addFile d (call_now c) z (call_name c) (call_data c) (call_opts c) = Inr z1"
    and 2: "addFiles d z1 cs = Inr z'"
    by (auto split: sum.splits)
  from 1 have f: "files z1 = files z @ [?e]"
    and o: "this_offset z1 = this_offset z + length (local_entry ?e)"
    by (auto simp add: addFile_eq Let_def split: if_splits)
  from Cons.IH [OF 2] show ?case by (simp add: f o)
qed

lemma addFiles_accepts:
  "list_all (\<lambda>c. entry_ok (added_entry d (call_now c) 0 (call_name c) (call_data c) (call_opts c))) cs
   \<Longrightarrow> \<exists>z'. addFiles d z cs = Inr z'"
proof (induction cs arbitrary: z)
  case Nil
  then show ?case by simp
next
  case (Cons c cs)
  have "entry_ok (added_entry d (call_now c) (this_offset z) (call_name c) (call_data c) (call_opts c))"
    using Cons.prems entry_ok_offset [of d "call_now c" "this_offset z" "call_name c"
        "call_data c" "call_opts c" 0] by simp
  then obtain z1 where
    1: "addFile d (call_now c) z (call_name c) (call_data c) (call_opts c) = Inr z1"
    by (simp add: addFile_eq Let_def)
  obtain z' where "addFiles d z1 cs = Inr z'" using Cons.IH [of z1] Cons.prems by auto
  then show ?case using 1 by simp
qed

lemma name_lengths [simp]:
  "length (utf8 (str ''META-INF/container.xml'')) = 22"
  "length (utf8 (str ''OEBPS/style.css'')) = 15"
  "length (utf8 (str ''OEBPS/content.opf'')) = 17"
  "length (utf8 (str ''OEBPS/toc.ncx'')) = 13"
  by (simp_all add: str_def)

lemma writeEpub_Inr:
  assumes "writeEpubBufferFromParts toLowerCase d clock rnd chaptersIn css opts = Inr r"
  shows "\<exists>z z'. addFiles d new_ZipBuilder
            (epub_calls clock (epub_payloads toLowerCase (uuidv4 rnd) chaptersIn css opts)) = Inr z
          \<and> build z = Inr (buffer r, z')
          \<and> uuid_of r = uuidv4 rnd \<and> title_of r = inferredTitle chaptersIn opts
          \<and> chapterCount r = length chaptersIn"
  using assms
  by (auto simp add: writeEpubBufferFromParts_def Let_def split: sum.splits prod.splits)

lemma length_uuid_replace [simp]: "length (uuid_replace rnd k s) = length s"
  by (induction rnd k s rule: uuid_replace.induct) simp_all

lemma length_uuidv4: "length (uuidv4 rnd) = 36"
  by (simp add: uuidv4_def str_def)

lemma length_entries_from [simp]: "length (entries_from d off cs) = length cs"
  by (induction cs arbitrary: off) simp_all

lemma added_entry_offset:
  "(added_entry d now off nm dat opts)\<lparr>offset := off'\<rparr> = added_entry d now off' nm dat opts"
  by (simp add: added_entry_def)

lemma length_local_entry_added:
  "length (local_entry (added_entry d now off nm dat opts))
   = length (local_entry (added_entry d now off' nm dat opts))"
  by (simp add: local_entry_def added_entry_bytes [of d now off nm dat opts off'])

lemma entries_from_offset:
  "map (\<lambda>f. f\<lparr>offset := 0\<rparr>) (entries_from d off cs)
   = map (\<lambda>f. f\<lparr>offset := 0\<rparr>) (entries_from d off' cs)"
proof (induction cs arbitrary: off off')
  case Nil
  then show ?case by simp
next
  case (Cons c cs)
  let ?e = "\<lambda>p. added_entry d (call_now c) p (call_name c) (call_data c) (call_opts c)"
  have hd: "(?e off)\<lparr>offset := 0\<rparr> = (?e off')\<lparr>offset := 0\<rparr>"
    by (simp only: added_entry_offset)
  have tl: "map (\<lambda>f. f\<lparr>offset := 0\<rparr>) (entries_from d (off + length (local_entry (?e off))) cs)
            = map (\<lambda>f. f\<lparr>offset := 0\<rparr>) (entries_from d (off' + length (local_entry (?e off'))) cs)"
    by (rule Cons.IH)
  show ?case
    unfolding entries_from.simps list.map hd tl ..
qed

lemma entries_from_names [simp]: "map name (entries_from d off cs) = map call_name cs"
  by (induction cs arbitrary: off) simp_all

lemma writeEpub_buffer:
  assumes "writeEpubBufferFromParts toLowerCase d clock rnd chaptersIn css opts = Inr r"
  shows "buffer r = archive_bytes (entries_from d 0
            (epub_calls clock (epub_payloads toLowerCase (uuidv4 rnd) chaptersIn css opts)))"
    and "uuid_of r = uuidv4 rnd"
    and "title_of r = inferredTitle chaptersIn opts"
    and "chapterCount r = length chaptersIn"
    and "offsets_from 0 (entries_from d 0
            (epub_calls clock (epub_payloads toLowerCase (uuidv4 rnd) chaptersIn css opts)))"
    and "list_all entry_ok (entries_from d 0
            (epub_calls clock (epub_payloads toLowerCase (uuidv4 rnd) chaptersIn css opts)))"
proof -
  let ?calls = "epub_calls clock (epub_payloads toLowerCase (uuidv4 rnd) chaptersIn css opts)"
  from writeEpub_Inr [OF assms] obtain z z' where
    run: "addFiles d new_ZipBuilder ?calls = Inr z" and bld: "build z = Inr (buffer r, z')"
    and rest: "uuid_of r = uuidv4 rnd" "title_of r = inferredTitle chaptersIn opts"
      "chapterCount r = length chaptersIn"
    by blast
  note lay = archive_layout [OF run bld]
  have fs: "files z = entries_from d 0 ?calls"
    using addFiles_files [OF run] by (simp add: new_ZipBuilder_def)
  have off: "this_offset z = length (concat (map local_entry (files z)))"
    using lay(1) by (simp add: built_by_addFile_def)
  show "buffer r = archive_bytes (entries_from d 0 ?calls)"
    using lay(4) unfolding off fs archive_bytes_def .
  show "uuid_of r = uuidv4 rnd" "title_of r = inferredTitle chaptersIn opts"
    "chapterCount r = length chaptersIn" by (rule rest)+
  show "offsets_from 0 (entries_from d 0 ?calls)" "list_all entry_ok (entries_from d 0 ?calls)"
    using lay(1) unfolding fs [symmetric] by (simp_all add: built_by_addFile_def)
qed

lemma length_map_index [simp]: "length (map_index f i xs) = length xs"
  by (induction xs arbitrary: i) simp_all

lemma map_index_append:
  "map_index f i (xs @ ys) = map_index f i xs @ map_index f (i + length xs) ys"
  by (induction xs arbitrary: i) simp_all

lemma epub_calls_struct:
  "epub_calls clock (epub_payloads toLowerCase u chaptersIn css opts) =
     [\<lparr>call_name = str ''mimetype'', call_data = Str (str ''application/epub+zip''),
       call_opts = Some \<lparr>compress = Some False, opt_date = None\<rparr>, call_now = clock 0\<rparr>,
      \<lparr>call_name = str ''META-INF/container.xml'', call_data = Str containerXml,
       call_opts = None, call_now = clock 1\<rparr>,
      \<lparr>call_name = str ''OEBPS/style.css'', call_data = Str css,
       call_opts = None, call_now = clock 2\<rparr>,
      \<lparr>call_name = str ''OEBPS/content.opf'',
       call_data = Str (makeOpf u (inferredTitle chaptersIn opts)
                     (or_else (opt_author opts) (str ''Unknown''))
                     (or_else (opt_language opts) (str ''en''))
                     (chapterFiles toLowerCase chaptersIn)),
       call_opts = None, call_now = clock 3\<rparr>,
      \<lparr>call_name = str ''OEBPS/toc.ncx'',
       call_data = Str (makeNcx u (inferredTitle chaptersIn opts)
                     (or_else (opt_author opts) (str ''Unknown''))
                     (chapterFiles toLowerCase chaptersIn)),
       call_opts = None, call_now = clock 4\<rparr>]
     @ chapter_calls clock toLowerCase chaptersIn"
  unfolding epub_calls_def epub_payloads_def Let_def chapter_calls_def map_index_append
  by (simp add: eval_nat_numeral)

lemma length_chapterFiles [simp]: "length (chapterFiles toLowerCase chaptersIn) = length chaptersIn"
  by (simp add: chapterFiles_def)

lemma length_chapter_calls [simp]:
  "length (chapter_calls clock toLowerCase chaptersIn) = length chaptersIn"
  by (simp add: chapter_calls_def)

lemma length_local_entry_added_entry:
  "length (local_entry (added_entry d now off nm dat opts))
   = 30 + length (utf8 nm)
     + length (if call_compress opts then d (payload_bytes dat) else payload_bytes dat)"
  by (simp add: local_entry_def length_local_header added_entry_def)

lemma length_utf8_names [simp]:
  "length (utf8 (str ''mimetype'')) = 8"
  "length (utf8 (str ''application/epub+zip'')) = 20"
  by (simp_all add: str_def)

lemma length_first_entries:
  "length (concat (map local_entry (first_entries d clock css))) = opf_offset d css"
  by (simp add: first_entries_def opf_offset_def length_local_entry_added_entry
      call_compress_def payload_bytes_def)

lemma epub_entries_struct:
  "entries_from d 0 (epub_calls clock (epub_payloads toLowerCase u chaptersIn css opts)) =
     first_entries d clock css
     @ [added_entry d (clock 3) (opf_offset d css) (str ''OEBPS/content.opf'')
          (Str (opf_text toLowerCase u chaptersIn opts)) None,
        added_entry d (clock 4)
          (opf_offset d css + 47 + length (d (utf8 (opf_text toLowerCase u chaptersIn opts))))
          (str ''OEBPS/toc.ncx'') (Str (ncx_text toLowerCase u chaptersIn opts)) None]
     @ entries_from d
         (opf_offset d css + 47 + length (d (utf8 (opf_text toLowerCase u chaptersIn opts)))
          + 43 + length (d (utf8 (ncx_text toLowerCase u chaptersIn opts))))
         (chapter_calls clock toLowerCase chaptersIn)"
  unfolding epub_calls_struct opf_text_def [symmetric] ncx_text_def [symmetric]
  by (simp add: first_entries_def opf_offset_def length_local_entry_added_entry
      call_compress_def payload_bytes_def add.assoc)

lemma take_archive_bytes:
  "take (length (concat (map local_entry a))) (archive_bytes (a @ b)) = concat (map local_entry a)"
  by (simp add: archive_bytes_def)

lemma opf_text_split: "\<exists>pre post. \<forall>u. opf_text toLowerCase u chaptersIn opts = pre @ u @ post"
proof -
  have "\<exists>pre post. \<forall>uuid. makeOpf uuid ttl author language chapters = pre @ uuid @ post" for ttl author language chapters
  proof (intro exI allI)
    fix uuid
    show \<open>makeOpf uuid ttl author language chapters =
       (str ''<?xml version="1.0" encoding="utf-8"?>\<newline>''
     @ str ''<package xmlns="http://www.idpf.org/2007/opf" unique-identifier="BookId" version="2.0">\<newline>''
     @ str ''  <metadata xmlns:dc="http://purl.org/dc/elements/1.1/" xmlns:opf="http://www.idpf.org/2007/opf">\<newline>''
     @ str ''    <dc:title>'' @ escapeXml ttl @ str ''</dc:title>\<newline>''
     @ str ''    <dc:creator opf:role="aut">'' @ escapeXml author @ str ''</dc:creator>\<newline>''
     @ str ''    <dc:language>'' @ escapeXml language @ str ''</dc:language>\<newline>''
     @ str ''    <dc:identifier id="BookId">urn:uuid:'') @ uuid @ (str ''</dc:identifier>\<newline>''
     @ str ''  </metadata>\<newline>''
     @ str ''  <manifest>\<newline>''
     @ str ''    '' @ join (str ''\<newline>    '') (manifestItems chapters) @ str ''\<newline>''
     @ str ''  </manifest>\<newline>''
     @ str ''  <spine toc="ncx">\<newline>''
     @ str ''    '' @ join (str ''\<newline>    '') (spineItems chapters) @ str ''\<newline>''
     @ str ''  </spine>\<newline>''
     @ str ''</package>'')\<close>
      by (simp add: makeOpf_def)
  qed
  then show ?thesis unfolding opf_text_def by blast
qed

lemma ncx_text_split: "\<exists>pre post. \<forall>u. ncx_text toLowerCase u chaptersIn opts = pre @ u @ post"
proof -
  have "\<exists>pre post. \<forall>uuid. makeNcx uuid ttl author chapters = pre @ uuid @ post" for ttl author chapters
  proof (intro exI allI)
    fix uuid
    show \<open>makeNcx uuid ttl author chapters =
       (str ''<?xml version="1.0" encoding="utf-8"?>\<newline>''
     @ str ''<!DOCTYPE ncx PUBLIC "-//NISO//DTD ncx 2005-1//EN" "http://www.daisy.org/z3986/2005/ncx-2005-1.dtd">\<newline>''
     @ str ''<ncx xmlns="http://www.daisy.org/z3986/2005/ncx/" version="2005-1">\<newline>''
     @ str ''  <head>\<newline>''
     @ str ''    <meta name="dtb:uid" content="urn:uuid:'') @ uuid @ (str ''"/>\<newline>''
     @ str ''    <meta name="dtb:depth" content="1"/>\<newline>''
     @ str ''    <meta name="dtb:totalPageCount" content="0"/>\<newline>''
     @ str ''    <meta name="dtb:maxPageNumber" content="0"/>\<newline>''
     @ str ''  </head>\<newline>''
     @ str ''  <docTitle><text>'' @ escapeXml ttl @ str ''</text></docTitle>\<newline>''
     @ str ''  <docAuthor><text>'' @ escapeXml author @ str ''</text></docAuthor>\<newline>''
     @ str ''  <navMap>\<newline>''
     @ join (str ''\<newline>'') (navPoints chapters) @ str ''\<newline>''
     @ str ''  </navMap>\<newline>''
     @ str ''</ncx>'')\<close>
      by (simp add: makeNcx_def)
  qed
  then show ?thesis unfolding ncx_text_def by blast
qed

lemma epub_entries_facts:
  fixes d :: "byte list \<Rightarrow> byte list" and clock :: "nat \<Rightarrow> Date"
    and toLowerCase :: "jsstring \<Rightarrow> jsstring" and u :: jsstring
    and chaptersIn :: "chapter_rec list" and css :: jsstring and opts :: epub_opts
  defines "fs \<equiv> entries_from d 0 (epub_calls clock (epub_payloads toLowerCase u chaptersIn css opts))"
  shows "length fs = 5 + length chaptersIn"
    and "take 3 fs = first_entries d clock css"
    and "fs ! 3 = added_entry d (clock 3) (opf_offset d css) (str ''OEBPS/content.opf'')
                         (Str (opf_text toLowerCase u chaptersIn opts)) None"
    and "fs ! 4 = added_entry d (clock 4)
                         (opf_offset d css + 47
                          + length (d (utf8 (opf_text toLowerCase u chaptersIn opts))))
                         (str ''OEBPS/toc.ncx'')
                         (Str (ncx_text toLowerCase u chaptersIn opts)) None"
    and "drop 5 fs = entries_from d
         (opf_offset d css + 47 + length (d (utf8 (opf_text toLowerCase u chaptersIn opts)))
          + 43 + length (d (utf8 (ncx_text toLowerCase u chaptersIn opts))))
         (chapter_calls clock toLowerCase chaptersIn)"
    and "map name fs = map call_name
           (epub_calls clock (epub_payloads toLowerCase u chaptersIn css opts))"
proof -
  have l3: "length (first_entries d clock css) = 3" by (simp add: first_entries_def)
  show "length fs = 5 + length chaptersIn"
    unfolding fs_def epub_entries_struct by (simp add: l3)
  show "take 3 fs = first_entries d clock css"
    unfolding fs_def epub_entries_struct by (simp add: l3)
  show "fs ! 3 = added_entry d (clock 3) (opf_offset d css) (str ''OEBPS/content.opf'')
                         (Str (opf_text toLowerCase u chaptersIn opts)) None"
    unfolding fs_def epub_entries_struct using l3 by (simp add: nth_append)
  show "fs ! 4 = added_entry d (clock 4)
                         (opf_offset d css + 47
                          + length (d (utf8 (opf_text toLowerCase u chaptersIn opts))))
                         (str ''OEBPS/toc.ncx'')
                         (Str (ncx_text toLowerCase u chaptersIn opts)) None"
    unfolding fs_def epub_entries_struct using l3 by (simp add: nth_append)
  show "drop 5 fs = entries_from d
         (opf_offset d css + 47 + length (d (utf8 (opf_text toLowerCase u chaptersIn opts)))
          + 43 + length (d (utf8 (ncx_text toLowerCase u chaptersIn opts))))
         (chapter_calls clock toLowerCase chaptersIn)"
    unfolding fs_def epub_entries_struct using l3 by simp
  show "map name fs = map call_name
           (epub_calls clock (epub_payloads toLowerCase u chaptersIn css opts))"
    unfolding fs_def by simp
qed

lemma epub_call_names:
  "map call_name (epub_calls clock (epub_payloads toLowerCase u chaptersIn css opts))
   = map call_name (epub_calls clock (epub_payloads toLowerCase u' chaptersIn css opts))"
  unfolding epub_calls_struct by simp

lemma read_local_opf:
  assumes "writeEpubBufferFromParts toLowerCase d clock rnd chaptersIn css opts = Inr r"
  shows "read_local (buffer r) (opf_offset d css) =
         Some \<lparr>l_name = utf8 (str ''OEBPS/content.opf''),
               l_crc = crc32 (utf8 (opf_text toLowerCase (uuid_of r) chaptersIn opts)),
               l_csize = length (d (utf8 (opf_text toLowerCase (uuid_of r) chaptersIn opts))) mod 2 ^ 32,
               l_usize = length (utf8 (opf_text toLowerCase (uuid_of r) chaptersIn opts)) mod 2 ^ 32\<rparr>"
proof -
  let ?fs = "entries_from d 0
      (epub_calls clock (epub_payloads toLowerCase (uuidv4 rnd) chaptersIn css opts))"
  note w = writeEpub_buffer [OF assms]
  note f = epub_entries_facts [of d clock toLowerCase "uuidv4 rnd" chaptersIn css opts]
  have i: "3 < length ?fs" using f(1) by simp
  have "read_local (concat (map local_entry ?fs) @ concat (map central_bytes ?fs)
           @ eocd_bytes (length ?fs) (length (concat (map central_bytes ?fs)))
               (length (concat (map local_entry ?fs)))) (offset (?fs ! 3))
        = Some (local_rec_of (?fs ! 3))"
    by (rule read_local_built [OF w(6) w(5) i])
  then have "read_local (buffer r) (offset (?fs ! 3)) = Some (local_rec_of (?fs ! 3))"
    unfolding w(1) archive_bytes_def .
  then show ?thesis
    unfolding f(3) w(2)
    using crc32_lt [of "utf8 (opf_text toLowerCase (uuidv4 rnd) chaptersIn opts)"]
    by (simp add: local_rec_of_def added_entry_def payload_bytes_def call_compress_def)
qed

lemma ascii_not_surrogate: "(c :: jschar) < 0x80 \<Longrightarrow> \<not> 0xDC00 \<le> c"
  by (simp add: word_less_nat_alt word_le_nat_alt)

lemma utf8_Cons_ascii: "c < 0x80 \<Longrightarrow> utf8 (c # b) = ucast c # utf8 b"
  by (cases b) simp_all

lemma utf8_append_ascii: "c < 0x80 \<Longrightarrow> utf8 (a @ c # b) = utf8 a @ ucast c # utf8 b"
proof (induction a rule: utf8.induct)
  case 1
  then show ?case by (simp add: utf8_Cons_ascii)
next
  case (2 x)
  then show ?case by (simp add: utf8_Cons_ascii ascii_not_surrogate)
next
  case (3 x y ys)
  then show ?case by (cases ys) (auto simp add: utf8_Cons_ascii ascii_not_surrogate)
qed

lemma hex_digit_ascii: "hex_digit v < 0x80"
proof -
  have "v \<in> {0, 1, 2, 3, 4, 5, 6, 7, 8, 9, 10, 11, 12, 13, 14, 15}"
  proof -
    have "unat v < 16" using unsigned_less [of v, where 'a = nat] by simp
    then have "unat v = 0 \<or> unat v = 1 \<or> unat v = 2 \<or> unat v = 3 \<or> unat v = 4
        \<or> unat v = 5 \<or> unat v = 6 \<or> unat v = 7 \<or> unat v = 8 \<or> unat v = 9
        \<or> unat v = 10 \<or> unat v = 11 \<or> unat v = 12 \<or> unat v = 13 \<or> unat v = 14
        \<or> unat v = 15" by arith
    then show ?thesis by (auto simp add: word_unat_eq_iff)
  qed
  then show ?thesis by (auto simp add: hex_digit_def)
qed

lemma uuid_replace_ascii:
  "\<forall>c \<in> set s. c < 0x80 \<Longrightarrow> \<forall>c \<in> set (uuid_replace rnd k s). c < 0x80"
  by (induction rnd k s rule: uuid_replace.induct) (auto simp add: hex_digit_ascii)

lemma uuidv4_ascii: "\<forall>c \<in> set (uuidv4 rnd). c < 0x80"
  unfolding uuidv4_def by (rule uuid_replace_ascii) (simp add: str_def)

lemma ucast_ascii_inj:
  assumes "(a :: jschar) < 0x80" "b < 0x80" "(ucast a :: byte) = ucast b"
  shows "a = b"
proof -
  have "unat (ucast a :: byte) = unat a" "unat (ucast b :: byte) = unat b"
    using assms(1,2) by (simp_all add: unsigned_ucast_eq take_bit_nat_eq_self word_less_nat_alt)
  then show ?thesis using assms(3) by (simp add: word_unat_eq_iff)
qed

lemma crc32_differs:
  assumes "(a :: jschar) < 0x80" "b < 0x80" "a \<noteq> b"
  shows "crc32 (utf8 (p @ a # s)) \<noteq> crc32 (utf8 (p @ b # s))"
proof
  assume "crc32 (utf8 (p @ a # s)) = crc32 (utf8 (p @ b # s))"
  then have "crc32 (utf8 p @ ucast a # utf8 s) = crc32 (utf8 p @ ucast b # utf8 s)"
    by (simp only: utf8_append_ascii [OF assms(1)] utf8_append_ascii [OF assms(2)])
  then have "(ucast a :: byte) = ucast b" by (rule crc32_single_byte)
  then show False using assms ucast_ascii_inj by blast
qed

lemma read_local_crc: "read_local b p = Some R \<Longrightarrow> field b (p + 14) 4 = l_crc R"
  by (auto simp add: read_local_def split: if_splits)

lemma uuidv4_rnd_zero: "uuidv4 rnd_zero = str ''00000000-0000-4000-8000-000000000000''"
  by (simp add: uuidv4_def rnd_zero_def hex_digit_def str_def)

lemma uuidv4_rnd_last_one: "uuidv4 rnd_last_one = str ''00000000-0000-4000-8000-000000000001''"
  by (simp add: uuidv4_def rnd_last_one_def hex_digit_def str_def)

lemma chapter_calls_one:
  "chapter_calls clock ascii_lower one_chapter =
     [\<lparr>call_name = str ''OEBPS/chapter-1-a.xhtml'',
       call_data = Str (buildXhtml (str ''A'') (str ''<p>x</p>'')),
       call_opts = None, call_now = clock 5\<rparr>]"
proof -
  have sl: "slugify ascii_lower (str ''A'') = str ''a''"
    by (simp add: slugify_def ascii_lower_def strip_hyphens_def is_lower_alnum_def str_def)
  show ?thesis
    by (simp add: chapter_calls_def chapterFiles_def one_chapter_def sl show_nat_digits)
      (simp add: str_def)
qed

lemma writeEpub_one_chapter_accepts:
  "\<exists>r. writeEpubBufferFromParts ascii_lower d (\<lambda>k. demo_date) rnd one_chapter css opts = Inr r"
proof -
  let ?calls = "epub_calls (\<lambda>k. demo_date) (epub_payloads ascii_lower (uuidv4 rnd) one_chapter css opts)"
  have ok: "list_all (\<lambda>c. entry_ok (added_entry d (call_now c) 0 (call_name c) (call_data c)
              (call_opts c))) ?calls"
    unfolding epub_calls_struct chapter_calls_one
    by (simp add: entry_ok_added call_date_def msDosDateTime_demo fits_uint16_def)
      (simp add: str_def)
  obtain z where run: "addFiles d new_ZipBuilder ?calls = Inr z"
    using addFiles_accepts [OF ok] by blast
  have built: "built_by_addFile z"
    using addFiles_built [OF new_ZipBuilder_built run] by blast
  have "files z = entries_from d 0 ?calls"
    using addFiles_files [OF run] by (simp add: new_ZipBuilder_def)
  then have len: "length (files z) = 6"
    by (simp add: epub_calls_struct chapter_calls_one)
  obtain buf z' where bld: "build z = Inr (buf, z')"
    using build_eq [OF built] len by simp
  show ?thesis
    by (simp add: writeEpubBufferFromParts_def Let_def run bld)
qed

lemma opf_offset_stored: "opf_offset (\<lambda>b. b) [] = 389"
proof -
  have "length (utf8 containerXml) = 234"
    by (simp add: containerXml_def str_def)
  then show ?thesis by (simp add: opf_offset_def)
qed

lemma length_utf8_one_char:
  assumes "(a :: jschar) < 0x80" "b < 0x80"
  shows "length (utf8 (p @ a # s)) = length (utf8 (p @ b # s))"
  by (simp add: utf8_append_ascii [OF assms(1)] utf8_append_ascii [OF assms(2)])

section \<open>Claims\<close>

text \<open>
  C1 (as amended). For every run of \<open>addFile\<close> calls from a new builder followed by
  \<open>build\<close>, when both succeed: the recorded entries carry the names of the calls in
  call order and their local headers lie at strictly increasing offsets; reading the
  central directory at the builder's cursor gives one record per call, in the same
  order, with the UTF-8 name of that call; the local header at an entry's offset holds
  the same name, CRC, compressed size and uncompressed size as the entry's central
  record; and the offset written in the central record is the entry's offset modulo
  \<open>2^32\<close>, so that for every entry that starts below \<open>2^32\<close> the local header found
  at the recorded offset agrees with the central record.
\<close>

theorem zip_directory_matches_local_headers:
  assumes "addFiles deflateRawSync new_ZipBuilder calls = Inr z"
    and "build z = Inr (buf, z')"
  shows "map name (files z) = map call_name calls
    \<and> sorted_wrt (<) (map offset (files z))
    \<and> (\<exists>recs. read_centrals (length calls) buf (this_offset z) = Some recs
          \<and> map c_name recs = map (\<lambda>c. utf8 (call_name c)) calls
          \<and> (\<forall>i < length calls.
                read_local buf (offset (files z ! i))
                  = Some \<lparr>l_name = c_name (recs ! i), l_crc = c_crc (recs ! i),
                          l_csize = c_csize (recs ! i), l_usize = c_usize (recs ! i)\<rparr>
                \<and> c_offset (recs ! i) = offset (files z ! i) mod 2 ^ 32
                \<and> (offset (files z ! i) < 2 ^ 32 \<longrightarrow>
                     read_local buf (c_offset (recs ! i))
                       = Some \<lparr>l_name = c_name (recs ! i), l_crc = c_crc (recs ! i),
                               l_csize = c_csize (recs ! i), l_usize = c_usize (recs ! i)\<rparr>)))"
proof -
  let ?fs = "files z"
  let ?recs = "map central_rec_of ?fs"
  note lay = archive_layout [OF assms]
  have oks: "list_all entry_ok ?fs" and offs: "offsets_from 0 ?fs"
    using lay(1) by (simp_all add: built_by_addFile_def)
  have sorted: "sorted_wrt (<) (map offset ?fs)"
    using offsets_from_sorted [OF offs] by simp
  have names: "map c_name ?recs = map (\<lambda>c. utf8 (call_name c)) calls"
  proof -
    have "map c_name ?recs = map utf8 (map name ?fs)"
      by (simp add: central_rec_of_def)
    then show ?thesis by (simp add: lay(2))
  qed
  have each: "read_local buf (offset (?fs ! i))
                  = Some \<lparr>l_name = c_name (?recs ! i), l_crc = c_crc (?recs ! i),
                          l_csize = c_csize (?recs ! i), l_usize = c_usize (?recs ! i)\<rparr>
              \<and> c_offset (?recs ! i) = offset (?fs ! i) mod 2 ^ 32
              \<and> (offset (?fs ! i) < 2 ^ 32 \<longrightarrow>
                     read_local buf (c_offset (?recs ! i))
                       = Some \<lparr>l_name = c_name (?recs ! i), l_crc = c_crc (?recs ! i),
                               l_csize = c_csize (?recs ! i), l_usize = c_usize (?recs ! i)\<rparr>)"
    if "i < length calls" for i
  proof -
    have i: "i < length ?fs" using that lay(3) by simp
    have "read_local (concat (map local_entry ?fs) @ concat (map central_bytes (files z))
           @ eocd_bytes (length (files z)) (length (concat (map central_bytes (files z))))
               (this_offset z)) (offset (?fs ! i)) = Some (local_rec_of (?fs ! i))"
      by (rule read_local_built [OF oks offs i])
    then have "read_local buf (offset (?fs ! i)) = Some (local_rec_of (?fs ! i))"
      using lay(4) by simp
    then show ?thesis using i by (simp add: local_rec_of_def central_rec_of_def)
  qed
  show ?thesis
    using lay(2) sorted lay(5) names each by blast
qed

theorem zip_directory_matches_local_headers_witness:
  "case addFiles (\<lambda>b. b) new_ZipBuilder demo_calls of
     Inl e \<Rightarrow> False
   | Inr z \<Rightarrow>
       (case build z of
          Inl e \<Rightarrow> False
        | Inr (buf, z') \<Rightarrow>
            map name (files z) = [str ''mimetype'', str ''a'']
            \<and> offset (files z ! 1) = 58
            \<and> (case read_centrals 2 buf (this_offset z) of
                  None \<Rightarrow> False
                | Some recs \<Rightarrow>
                    c_name (recs ! 1) = utf8 (str ''a'')
                    \<and> c_offset (recs ! 1) = 58
                    \<and> read_local buf (c_offset (recs ! 1))
                        = Some \<lparr>l_name = c_name (recs ! 1), l_crc = c_crc (recs ! 1),
                                l_csize = c_csize (recs ! 1), l_usize = c_usize (recs ! 1)\<rparr>))"
proof -
  obtain z where run: "addFiles (\<lambda>b. b) new_ZipBuilder demo_calls = Inr z"
    by (simp add: demo_calls_def addFile_eq entry_ok_added call_date_def stored_def
        msDosDateTime_demo fits_uint16_def Let_def)
  have b: "built_by_addFile z" and n: "map name (files z) = map call_name demo_calls"
    using addFiles_built [OF new_ZipBuilder_built run] by (simp_all add: new_ZipBuilder_def)
  have names: "map name (files z) = [str ''mimetype'', str ''a'']"
    using n by (simp add: demo_calls_def)
  then have len: "length (files z) = 2" by (metis length_map length_Cons list.size(3) numeral_2_eq_2)
  obtain buf z' where bld: "build z = Inr (buf, z')"
    using build_eq [OF b] len by simp
  have l: "length demo_calls = 2" by (simp add: demo_calls_def)
  from zip_directory_matches_local_headers [OF run bld] obtain recs where
    cd: "read_centrals 2 buf (this_offset z) = Some recs"
    and cn: "map c_name recs = map (\<lambda>c. utf8 (call_name c)) demo_calls"
    and each: "\<And>i. i < 2 \<Longrightarrow> c_offset (recs ! i) = offset (files z ! i) mod 2 ^ 32
                \<and> (offset (files z ! i) < 2 ^ 32 \<longrightarrow>
                     read_local buf (c_offset (recs ! i))
                       = Some \<lparr>l_name = c_name (recs ! i), l_crc = c_crc (recs ! i),
                               l_csize = c_csize (recs ! i), l_usize = c_usize (recs ! i)\<rparr>)"
    unfolding l by blast
  have off: "offset (files z ! 1) = 58"
  proof -
    have "offsets_from 0 (files z)" using b by (simp add: built_by_addFile_def)
    then have "offset (files z ! 1) = length (concat (map local_entry (take 1 (files z))))"
      using offsets_from_nth [of 0 "files z" 1] len by simp
    moreover have "files z ! 0 = added_entry (\<lambda>b. b) demo_date 0 (str ''mimetype'')
        (Str (str ''application/epub+zip'')) stored"
      using run
      by (simp add: demo_calls_def addFile_eq entry_ok_added call_date_def stored_def
        msDosDateTime_demo fits_uint16_def Let_def new_ZipBuilder_def split: if_splits sum.splits) auto
    moreover have "take 1 (files z) = [files z ! 0]"
      using len by (cases "files z") simp_all
    ultimately show ?thesis
      by (simp add: local_entry_def length_local_header added_entry_def payload_bytes_def
          call_compress_def stored_def)
  qed
  have "length recs = 2" using cn by (metis l length_map)
  then have c1: "c_name (recs ! 1) = utf8 (str ''a'')"
    using cn nth_map [of 1 recs c_name] by (simp add: demo_calls_def)
  have r1: "c_offset (recs ! 1) = 58
      \<and> read_local buf (c_offset (recs ! 1))
          = Some \<lparr>l_name = c_name (recs ! 1), l_crc = c_crc (recs ! 1),
                  l_csize = c_csize (recs ! 1), l_usize = c_usize (recs ! 1)\<rparr>"
  proof (intro conjI)
    have lt: "(1::nat) < 2" by simp
    note e1 = each [OF lt]
    show "c_offset (recs ! 1) = 58" using e1 off by simp
    have "offset (files z ! 1) < 2 ^ 32" using off by simp
    then show "read_local buf (c_offset (recs ! 1))
          = Some \<lparr>l_name = c_name (recs ! 1), l_crc = c_crc (recs ! 1),
                  l_csize = c_csize (recs ! 1), l_usize = c_usize (recs ! 1)\<rparr>"
      using e1 by blast
  qed
  show ?thesis
    unfolding run bld cd sum.case prod.case option.case
    using names off c1 r1 by blast
qed

text \<open>
  The claim as stated, for every archive, fails once an entry starts at or beyond
  \<open>2^32\<close>: after a stored payload of \<open>2^32\<close> bytes the second entry's header is at
  \<open>2^32 + 31\<close>, its central record says 31, and at 31 there is no local header.
\<close>

theorem wrapped_offset_counterexample:
  "case addFiles (\<lambda>b. b) new_ZipBuilder big_calls of
     Inl e \<Rightarrow> False
   | Inr z \<Rightarrow>
       (case build z of
          Inl e \<Rightarrow> False
        | Inr (buf, z') \<Rightarrow>
            (case read_centrals 2 buf (this_offset z) of
               None \<Rightarrow> False
             | Some recs \<Rightarrow>
                 c_name (recs ! 1) = utf8 (str ''b'')
                 \<and> offset (files z ! 1) = 2 ^ 32 + 31
                 \<and> c_offset (recs ! 1) = 31
                 \<and> read_local buf (c_offset (recs ! 1)) = None))"
proof -
  obtain z where run: "addFiles (\<lambda>b. b) new_ZipBuilder big_calls = Inr z"
    and f0: "files z ! 0 = added_entry (\<lambda>b. b) demo_date 0 (str ''a'') (Buf big_payload) stored"
    using big_run by blast
  have b: "built_by_addFile z" and n: "map name (files z) = map call_name big_calls"
    using addFiles_built [OF new_ZipBuilder_built run] by (simp_all add: new_ZipBuilder_def)
  have names: "map name (files z) = [str ''a'', str ''b'']"
    using n by (simp add: big_calls_def)
  then have len: "length (files z) = 2"
    by (metis length_map length_Cons list.size(3) numeral_2_eq_2)
  obtain buf z' where bld: "build z = Inr (buf, z')"
    using build_eq [OF b] len by simp
  have l: "length big_calls = 2" by (simp add: big_calls_def)
  note lay = archive_layout [OF run bld]
  let ?recs = "map central_rec_of (files z)"
  have cd: "read_centrals 2 buf (this_offset z) = Some ?recs"
    using lay(5) l by simp
  have le0: "local_entry (files z ! 0) = local_header (files z ! 0) @ big_payload"
    by (simp add: local_entry_def f0 added_entry_def payload_bytes_def call_compress_def
        stored_def)
  have lh0: "length (local_header (files z ! 0)) = 31"
    by (simp add: length_local_header f0)
  have t1: "take (Suc 0) (files z) = [files z ! 0]"
    using len by (cases "files z") simp_all
  have off: "offset (files z ! 1) = 2 ^ 32 + 31"
  proof -
    have "offsets_from 0 (files z)" using b by (simp add: built_by_addFile_def)
    then have "offset (files z ! 1) = length (concat (map local_entry (take 1 (files z))))"
      using offsets_from_nth [of 0 "files z" 1] len by simp
    then show ?thesis by (simp add: t1 le0 lh0 length_big_payload)
  qed
  have c1: "c_name (?recs ! 1) = utf8 (str ''b'')"
  proof -
    have "name (files z ! 1) = str ''b''"
      using names len nth_map [of 1 "files z" name] by simp
    then show ?thesis using len by (simp add: central_rec_of_def)
  qed
  have co: "c_offset (?recs ! 1) = 31"
    using len off by (simp add: central_rec_of_def)
  have split: "files z = files z ! 0 # drop 1 (files z)"
    using len by (cases "files z") simp_all
  have "concat (map local_entry (files z))
        = local_header (files z ! 0) @ big_payload @ concat (map local_entry (drop 1 (files z)))"
    by (subst split) (simp add: le0)
  then obtain r where buf: "buf = local_header (files z ! 0) @ big_payload @ r"
    using lay(4) by simp
  have "field buf 31 4 = 0"
    using field_big_payload [of "local_header (files z ! 0)" r] by (simp add: buf lh0)
  then have rl: "read_local buf 31 = None"
    by (simp add: read_local_def)
  show ?thesis
    unfolding run bld cd sum.case prod.case option.case
    using c1 off co rl by simp
qed

text \<open>
  C2 (as amended). The builder checks no size. \<open>addFile\<close> accepts a call exactly when
  the DOS time, the DOS date and the byte length of the name fit 16 bits, whatever the
  payload and the cursor are; on acceptance the local header's size fields hold the
  compressed and uncompressed lengths modulo \<open>2^32\<close> and the cursor advances by the
  true lengths. After a run of accepted calls \<open>build\<close> rejects exactly when there are
  more than 65535 entries.
\<close>

theorem builder_has_no_size_check:
  "let fits = (fits_uint16 (fst (msDosDateTime (call_date now opts)))
               \<and> fits_uint16 (snd (msDosDateTime (call_date now opts)))
               \<and> length (utf8 nm) \<le> 0xFFFF)
   in (case addFile deflateRawSync now z nm dat opts of
         Inl e \<Rightarrow> \<not> fits
       | Inr z' \<Rightarrow>
           fits
           \<and> (\<exists>h c. chunks z' = chunks z @ [h, c]
                 \<and> field h 18 4 = length c mod 2 ^ 32
                 \<and> field h 22 4 = length (payload_bytes dat) mod 2 ^ 32
                 \<and> this_offset z' = this_offset z + (length h + length c)))
      \<and> (addFiles deflateRawSync new_ZipBuilder calls = Inr y \<longrightarrow>
           (case build y of
              Inl e \<Rightarrow> 0xFFFF < length calls
            | Inr r \<Rightarrow> length calls \<le> 0xFFFF))"
proof -
  let ?e = "added_entry deflateRawSync now (this_offset z) nm dat opts"
  have u: "uncomp ?e = length (payload_bytes dat)" by (simp add: added_entry_def)
  have 1: "case addFile deflateRawSync now z nm dat opts of
         Inl e \<Rightarrow> \<not> entry_ok ?e
       | Inr z' \<Rightarrow>
           entry_ok ?e
           \<and> (\<exists>h c. chunks z' = chunks z @ [h, c]
                 \<and> field h 18 4 = length c mod 2 ^ 32
                 \<and> field h 22 4 = length (payload_bytes dat) mod 2 ^ 32
                 \<and> this_offset z' = this_offset z + (length h + length c))"
    using local_header_sizes [of ?e] u
    by (simp add: addFile_eq Let_def local_entry_def)
  have 2: "case build y of Inl e \<Rightarrow> 0xFFFF < length calls | Inr r \<Rightarrow> length calls \<le> 0xFFFF"
    if run: "addFiles deflateRawSync new_ZipBuilder calls = Inr y"
  proof -
    have b: "built_by_addFile y" and n: "map name (files y) = map call_name calls"
      using addFiles_built [OF new_ZipBuilder_built run] by (simp_all add: new_ZipBuilder_def)
    have "length (files y) = length calls" using n by (metis length_map)
    then show ?thesis using build_count [OF b] by (cases "build y") simp_all
  qed
  show ?thesis
    unfolding Let_def entry_ok_added [symmetric, where d = deflateRawSync and now = now
        and off = "this_offset z" and nm = nm and dat = dat and opts = opts]
    using 1 2 by blast
qed

theorem builder_has_no_size_check_witness:
  "(case addFile (\<lambda>b. b) demo_date new_ZipBuilder (str ''a'') (Buf [1, 2, 3]) None of
      Inl e \<Rightarrow> False
    | Inr z' \<Rightarrow> this_offset z' = 34)
   \<and> (case addFiles (\<lambda>b. b) new_ZipBuilder demo_calls of
        Inl e \<Rightarrow> False
      | Inr y \<Rightarrow> (case build y of Inl e \<Rightarrow> False | Inr r \<Rightarrow> True))"
proof -
  obtain y where run: "addFiles (\<lambda>b. b) new_ZipBuilder demo_calls = Inr y"
    by (simp add: demo_calls_def addFile_eq entry_ok_added call_date_def stored_def
        msDosDateTime_demo fits_uint16_def Let_def)
  have l: "length demo_calls = 2" by (simp add: demo_calls_def)
  note th = builder_has_no_size_check [where now = demo_date and opts = None
      and nm = "str ''a''" and deflateRawSync = "\<lambda>b. b" and z = new_ZipBuilder
      and dat = "Buf [1, 2, 3]" and calls = demo_calls and y = y]
  have a: "case addFile (\<lambda>b. b) demo_date new_ZipBuilder (str ''a'') (Buf [1, 2, 3]) None of
      Inl e \<Rightarrow> False | Inr z' \<Rightarrow> this_offset z' = 34"
    by (simp add: addFile_eq entry_ok_added call_date_def msDosDateTime_demo fits_uint16_def
        Let_def new_ZipBuilder_def local_entry_def length_local_header added_entry_def
        call_compress_def payload_bytes_def entry_ok_def)
  have "case build y of Inl e \<Rightarrow> 0xFFFF < length demo_calls
        | Inr r \<Rightarrow> length demo_calls \<le> 0xFFFF"
    using th run unfolding Let_def by blast
  then have "case build y of Inl e \<Rightarrow> False | Inr r \<Rightarrow> True"
    by (simp add: l split: sum.splits)
  then show ?thesis using a by (simp add: run)
qed

text \<open>
  The claim as stated fails: a stored payload of \<open>2^32\<close> bytes is accepted, both size
  fields of its local header read 0, the cursor passes \<open>2^32\<close>, and \<open>build\<close> returns
  an archive of \<open>2^32 + 100\<close> bytes.
\<close>

theorem oversize_accepted_counterexample:
  "case addFile (\<lambda>b. b) demo_date new_ZipBuilder (str ''a'') (Buf big_payload) stored of
     Inl e \<Rightarrow> False
   | Inr z \<Rightarrow>
       length big_payload = 2 ^ 32
       \<and> this_offset z = 2 ^ 32 + 31
       \<and> field (hd (chunks z)) 18 4 = 0
       \<and> field (hd (chunks z)) 22 4 = 0
       \<and> (case build z of Inl e \<Rightarrow> False | Inr (buf, z') \<Rightarrow> length buf = 2 ^ 32 + 100)"
proof -
  let ?e = "added_entry (\<lambda>b. b) demo_date 0 (str ''a'') (Buf big_payload) stored"
  have ok: "entry_ok ?e"
    by (simp add: entry_ok_added call_date_def stored_def msDosDateTime_demo fits_uint16_def)
  define z where "z = \<lparr>files = [?e], chunks = [local_header ?e, comp_buf ?e],
             this_offset = length (local_entry ?e)\<rparr>"
  have add: "addFile (\<lambda>b. b) demo_date new_ZipBuilder (str ''a'') (Buf big_payload) stored = Inr z"
    using ok by (simp add: addFile_eq Let_def new_ZipBuilder_def z_def)
  have fz: "files z = [?e]"
    and cz: "chunks z = [local_header ?e, comp_buf ?e]"
    and oz: "this_offset z = length (local_entry ?e)"
    by (simp_all add: z_def)
  have c: "comp_buf ?e = big_payload" and u: "uncomp ?e = 2 ^ 32"
    by (simp_all add: added_entry_def payload_bytes_def call_compress_def stored_def
        length_big_payload)
  have le: "length (local_entry ?e) = 2 ^ 32 + 31"
    by (simp add: local_entry_def length_local_header c length_big_payload)
  have b: "built_by_addFile z"
    using addFile_built [OF new_ZipBuilder_built add] by simp
  have bl: "case build z of Inl e \<Rightarrow> False | Inr (buf, z') \<Rightarrow> length buf = 2 ^ 32 + 100"
    by (simp add: build_eq [OF b] fz le length_central_bytes eocd_bytes_def)
  have s: "field (local_header ?e) 18 4 = 0" "field (local_header ?e) 22 4 = 0"
    using local_header_sizes [of ?e] by (simp_all add: c u length_big_payload)
  show ?thesis
    unfolding add sum.case
    using bl s le by (simp add: length_big_payload cz oz)
qed

text \<open>
  C3 (as amended). \<open>build\<close> does not close the builder. After a successful \<open>build\<close>
  an \<open>addFile\<close> call has the outcome it would have had before it: the same error, or
  acceptance with the same header and payload chunks, now recorded at the cursor that
  \<open>build\<close> left and appended after the end record.
\<close>

theorem addFile_after_build_accepted:
  assumes "build z = Inr (buf, z')"
  shows "case addFile deflateRawSync now z' nm dat opts of
           Inl e \<Rightarrow> addFile deflateRawSync now z nm dat opts = Inl e
         | Inr y' \<Rightarrow>
             (\<exists>y e h c. addFile deflateRawSync now z nm dat opts = Inr y
                \<and> chunks y = chunks z @ [h, c]
                \<and> files y' = files z @ [e] \<and> name e = nm \<and> offset e = this_offset z'
                \<and> chunks y' = chunks z' @ [h, c]
                \<and> concat (chunks y') = buf @ h @ c)"
proof -
  let ?e = "added_entry deflateRawSync now (this_offset z) nm dat opts"
  let ?e' = "added_entry deflateRawSync now (this_offset z') nm dat opts"
  note b = build_Inr [OF assms]
  have ok: "entry_ok ?e' = entry_ok ?e" by (rule entry_ok_offset)
  have h: "local_header ?e' = local_header ?e" and c: "comp_buf ?e' = comp_buf ?e"
    by (rule added_entry_bytes)+
  show ?thesis
  proof (cases "entry_ok ?e")
    case True
    then show ?thesis
      using ok h c b(1,2) by (simp add: addFile_eq Let_def)
  next
    case False
    then show ?thesis
      using ok by (simp add: addFile_eq Let_def)
  qed
qed

theorem addFile_after_build_accepted_witness:
  "case build new_ZipBuilder of
     Inl e \<Rightarrow> False
   | Inr (buf, z') \<Rightarrow>
       length buf = 22
       \<and> (case addFile (\<lambda>b. b) demo_date z' (str ''a'') (Buf [1, 2, 3]) None of
             Inl e \<Rightarrow> False
           | Inr y' \<Rightarrow> map name (files y') = [str ''a''] \<and> take 22 (concat (chunks y')) = buf)"
proof -
  let ?eocd = "eocd_bytes 0 0 0"
  have bld: "build new_ZipBuilder
      = Inr (?eocd, \<lparr>files = [], chunks = [?eocd], this_offset = 22\<rparr>)"
    by (simp add: build_eq [OF new_ZipBuilder_built]) (simp add: new_ZipBuilder_def)
  have len: "length ?eocd = 22" by (simp add: eocd_bytes_def)
  let ?z' = "\<lparr>files = [], chunks = [?eocd], this_offset = 22\<rparr>"
  have ok: "addFile (\<lambda>b. b) demo_date new_ZipBuilder (str ''a'') (Buf [1, 2, 3]) None \<noteq> Inl e"
    for e
    by (simp add: addFile_eq entry_ok_added call_date_def msDosDateTime_demo fits_uint16_def
        Let_def)
  have "case addFile (\<lambda>b. b) demo_date ?z' (str ''a'') (Buf [1, 2, 3]) None of
             Inl e \<Rightarrow> False
           | Inr y' \<Rightarrow> map name (files y') = [str ''a''] \<and> take 22 (concat (chunks y')) = ?eocd"
    using addFile_after_build_accepted [OF bld, of "\<lambda>b. b" demo_date "str ''a''"
        "Buf [1, 2, 3]" None] ok len
    by (auto simp add: new_ZipBuilder_def split: sum.splits)
  then show ?thesis by (simp add: bld len)
qed

text \<open>
  The claim as stated fails: on a builder that \<open>build\<close> has been called on,
  \<open>addFile\<close> is accepted and records its entry.
\<close>

theorem addFile_after_build_counterexample:
  "case build new_ZipBuilder of
     Inl e \<Rightarrow> False
   | Inr (buf, z') \<Rightarrow>
       (case addFile (\<lambda>b. b) demo_date z' (str ''late'') (Buf []) stored of
          Inl e \<Rightarrow> False
        | Inr y \<Rightarrow> length (files y) = 1 \<and> length (chunks y) = 3)"
proof -
  have "length (utf8 (str ''late'')) = 4" by (simp add: str_def)
  then show ?thesis
    by (simp add: build_eq [OF new_ZipBuilder_built] addFile_eq entry_ok_added call_date_def
        stored_def msDosDateTime_demo fits_uint16_def Let_def)
      (simp add: new_ZipBuilder_def)
qed

text \<open>
  C4. \<open>crc32\<close> is a function of the input bytes alone and equals the standard
  reflected CRC-32 with polynomial 0xEDB88320: for every buffer the table-driven loop
  of the source returns the number that the bit-by-bit reference algorithm computes
  (register initialised to all ones, complemented at the end). The checksum of the
  empty buffer is 0x00000000 and the checksum of the nine ASCII bytes of
  \<open>123456789\<close> is 0xCBF43926.
\<close>

theorem crc32_standard:
  "crc32 buf = unat (crc32_bitwise buf)
   \<and> crc32 [] = 0x00000000
   \<and> crc32 (utf8 (str ''123456789'')) = 0xCBF43926"
proof -
  have ascii: "utf8 (str ''123456789'') = [0x31, 0x32, 0x33, 0x34, 0x35, 0x36, 0x37, 0x38, 0x39]"
    by (simp add: str_def)
  have empty: "crc32 [] = 0" by (simp add: crc32_def)
  have "crc32_bitwise [0x31, 0x32, 0x33, 0x34, 0x35, 0x36, 0x37, 0x38, 0x39] = 0xCBF43926"
    by (simp add: crc32_bitwise_def not_u32 crc32_bitwise_byte_numeral)
  then have check: "crc32 (utf8 (str ''123456789'')) = 0xCBF43926"
    by (simp add: crc32_bitwise_eq ascii)
  show ?thesis using crc32_bitwise_eq empty check by simp
qed

text \<open>
  C5. The boundaries are the \<^verbatim>\<open>h1\<close> elements with the class \<^verbatim>\<open>chapter\<close> of the
  parsed input, at any depth, in document order (\<open>positions\<close>), each with the siblings
  that follow it under its parent. When there is at least one, the splitter returns one
  chapter per boundary, in that order; chapter \<open>k\<close> (from 0) has as title the trimmed
  text of boundary \<open>k\<close>, or \<open>Chapter k+1\<close> in decimal digits when that is empty. Its
  content is the serialised boundary, a line break, and the serialised elements \<open>E\<close>,
  where \<open>E\<close> is the longest run of the element siblings after the boundary in which none
  is a boundary: the text and comment siblings are not part of it, the first sibling that
  is a boundary ends it, and a boundary inside one of the siblings does not.

  For the example input, parsed to the tree \<open>example_doc\<close> and with a
  \<^verbatim>\<open>toLowerCase\<close> that lowercases the two titles, the chapters are \<open>Intro\<close> and
  \<open>End\<close> in that order, each with its heading and its paragraph; the files are named
  \<^verbatim>\<open>chapter-1-intro.xhtml\<close> and \<^verbatim>\<open>chapter-2-end.xhtml\<close>; the document that
  \<open>makeOpf\<close> returns has a manifest with the navigation file, the stylesheet and the
  two chapters and a spine with the two chapters; the document that \<open>makeNcx\<close> returns
  has the two navigation points with \<open>playOrder\<close> 1 and 2; and these two documents are
  the payloads of \<^verbatim>\<open>OEBPS/content.opf\<close> and \<^verbatim>\<open>OEBPS/toc.ncx\<close> in the archive,
  followed by the two chapter files.
\<close>

theorem chapters_follow_boundaries:
  \<open>(let doc = loadHtml (str ''<div id="root">'' @ input @ str ''</div>'');
        bs = matches_in is_h1_chapter doc;
        chapters = fst (extractChaptersAndCss loadHtml outerHtml innerHtml input)
    in bs = filter (\<lambda>p. is_h1_chapter (fst p)) (positions doc)
       \<and> (bs \<noteq> [] \<longrightarrow>
           length chapters = length bs
           \<and> (\<forall>k < length bs.
                 is_h1_chapter (fst (bs ! k))
                 \<and> title (chapters ! k) =
                     (if trim (textContent (fst (bs ! k))) \<noteq> [] then trim (textContent (fst (bs ! k)))
                      else str ''Chapter '' @ show_nat (k + 1))
                 \<and> (\<exists>E rest. filter is_element (snd (bs ! k)) = E @ rest
                       \<and> (\<forall>e \<in> set E. \<not> is_h1_chapter e)
                       \<and> (rest = [] \<or> is_h1_chapter (hd rest))
                       \<and> html (chapters ! k) =
                           outerHtml (fst (bs ! k)) @ str ''\<newline>'' @ concat (map outerHtml E))
                 \<and> html (chapters ! k) =
                     outerHtml (fst (bs ! k)) @ str ''\<newline>''
                     @ concat (map outerHtml (nextUntil is_h1_chapter (snd (bs ! k))))
                 \<and> set (nextUntil is_h1_chapter (snd (bs ! k))) \<inter> Collect is_h1_chapter = {})))
   \<and> (\<forall>n < 10. show_nat n = [of_char (''0123456789'' ! n)])
   \<and> (\<forall>n \<ge> 10. show_nat n = show_nat (n div 10) @ show_nat (n mod 10))
   \<and> (loadHtml (str ''<div id="root">'' @ example_input @ str ''</div>'') = example_doc
      \<and> toLowerCase (str ''Intro'') = str ''intro'' \<and> toLowerCase (str ''End'') = str ''end''
      \<longrightarrow>
       (let chapters = fst (extractChaptersAndCss loadHtml outerHtml innerHtml example_input);
            cfs = chapterFiles toLowerCase chapters;
            ps = epub_payloads toLowerCase uuid chapters css opts
        in chapters =
             [\<lparr>title = str ''Intro'',
               html = outerHtml (Element (str ''h1'') [(str ''class'', str ''chapter'')] [Text (str ''Intro'')])
                      @ str ''\<newline>'' @ outerHtml (Element (str ''p'') [] [Text (str ''Hello'')])\<rparr>,
              \<lparr>title = str ''End'',
               html = outerHtml (Element (str ''h1'') [(str ''class'', str ''chapter'')] [Text (str ''End'')])
                      @ str ''\<newline>'' @ outerHtml (Element (str ''p'') [] [Text (str ''Bye'')])\<rparr>]
           \<and> map title chapters = [str ''Intro'', str ''End'']
           \<and> map filename cfs = [str ''chapter-1-intro.xhtml'', str ''chapter-2-end.xhtml'']
           \<and> manifestItems cfs =
               [str ''<item id="ncx" href="toc.ncx" media-type="application/x-dtbncx+xml"/>'',
                str ''<item id="style" href="style.css" media-type="text/css"/>'',
                str ''<item id="chapter-1" href="chapter-1-intro.xhtml" media-type="application/xhtml+xml"/>'',
                str ''<item id="chapter-2" href="chapter-2-end.xhtml" media-type="application/xhtml+xml"/>'']
           \<and> spineItems cfs =
               [str ''<itemref idref="chapter-1" />'', str ''<itemref idref="chapter-2" />'']
           \<and> navPoints cfs =
               [str ''    <navPoint id="navPoint-1" playOrder="1">\<newline>''
                @ str ''      <navLabel><text>Intro</text></navLabel>\<newline>''
                @ str ''      <content src="chapter-1-intro.xhtml" />\<newline>''
                @ str ''    </navPoint>'',
                str ''    <navPoint id="navPoint-2" playOrder="2">\<newline>''
                @ str ''      <navLabel><text>End</text></navLabel>\<newline>''
                @ str ''      <content src="chapter-2-end.xhtml" />\<newline>''
                @ str ''    </navPoint>'']
           \<and> makeOpf uuid ttl author language cfs =
               str ''<?xml version="1.0" encoding="utf-8"?>\<newline>''
               @ str ''<package xmlns="http://www.idpf.org/2007/opf" unique-identifier="BookId" version="2.0">\<newline>''
               @ str ''  <metadata xmlns:dc="http://purl.org/dc/elements/1.1/" xmlns:opf="http://www.idpf.org/2007/opf">\<newline>''
               @ str ''    <dc:title>'' @ escapeXml ttl @ str ''</dc:title>\<newline>''
               @ str ''    <dc:creator opf:role="aut">'' @ escapeXml author @ str ''</dc:creator>\<newline>''
               @ str ''    <dc:language>'' @ escapeXml language @ str ''</dc:language>\<newline>''
               @ str ''    <dc:identifier id="BookId">urn:uuid:'' @ uuid @ str ''</dc:identifier>\<newline>''
               @ str ''  </metadata>\<newline>''
               @ str ''  <manifest>\<newline>''
               @ str ''    <item id="ncx" href="toc.ncx" media-type="application/x-dtbncx+xml"/>\<newline>''
               @ str ''    <item id="style" href="style.css" media-type="text/css"/>\<newline>''
               @ str ''    <item id="chapter-1" href="chapter-1-intro.xhtml" media-type="application/xhtml+xml"/>\<newline>''
               @ str ''    <item id="chapter-2" href="chapter-2-end.xhtml" media-type="application/xhtml+xml"/>\<newline>''
               @ str ''  </manifest>\<newline>''
               @ str ''  <spine toc="ncx">\<newline>''
               @ str ''    <itemref idref="chapter-1" />\<newline>''
               @ str ''    <itemref idref="chapter-2" />\<newline>''
               @ str ''  </spine>\<newline>''
               @ str ''</package>''
           \<and> makeNcx uuid ttl author cfs =
               str ''<?xml version="1.0" encoding="utf-8"?>\<newline>''
               @ str ''<!DOCTYPE ncx PUBLIC "-//NISO//DTD ncx 2005-1//EN" "http://www.daisy.org/z3986/2005/ncx-2005-1.dtd">\<newline>''
               @ str ''<ncx xmlns="http://www.daisy.org/z3986/2005/ncx/" version="2005-1">\<newline>''
               @ str ''  <head>\<newline>''
               @ str ''    <meta name="dtb:uid" content="urn:uuid:'' @ uuid @ str ''"/>\<newline>''
               @ str ''    <meta name="dtb:depth" content="1"/>\<newline>''
               @ str ''    <meta name="dtb:totalPageCount" content="0"/>\<newline>''
               @ str ''    <meta name="dtb:maxPageNumber" content="0"/>\<newline>''
               @ str ''  </head>\<newline>''
               @ str ''  <docTitle><text>'' @ escapeXml ttl @ str ''</text></docTitle>\<newline>''
               @ str ''  <docAuthor><text>'' @ escapeXml author @ str ''</text></docAuthor>\<newline>''
               @ str ''  <navMap>\<newline>''
               @ str ''    <navPoint id="navPoint-1" playOrder="1">\<newline>''
               @ str ''      <navLabel><text>Intro</text></navLabel>\<newline>''
               @ str ''      <content src="chapter-1-intro.xhtml" />\<newline>''
               @ str ''    </navPoint>\<newline>''
               @ str ''    <navPoint id="navPoint-2" playOrder="2">\<newline>''
               @ str ''      <navLabel><text>End</text></navLabel>\<newline>''
               @ str ''      <content src="chapter-2-end.xhtml" />\<newline>''
               @ str ''    </navPoint>\<newline>''
               @ str ''  </navMap>\<newline>''
               @ str ''</ncx>''
           \<and> map fst ps =
               [str ''mimetype'', str ''META-INF/container.xml'', str ''OEBPS/style.css'',
                str ''OEBPS/content.opf'', str ''OEBPS/toc.ncx'',
                str ''OEBPS/chapter-1-intro.xhtml'', str ''OEBPS/chapter-2-end.xhtml'']
           \<and> ps ! 3 =
               (str ''OEBPS/content.opf'',
                Str (makeOpf uuid (or_else (opt_title opts) (str ''Intro''))
                       (or_else (opt_author opts) (str ''Unknown''))
                       (or_else (opt_language opts) (str ''en'')) cfs),
                None)
           \<and> ps ! 4 =
               (str ''OEBPS/toc.ncx'',
                Str (makeNcx uuid (or_else (opt_title opts) (str ''Intro''))
                       (or_else (opt_author opts) (str ''Unknown'')) cfs),
                None)))\<close>
proof -
  let ?doc = \<open>loadHtml (str ''<div id="root">'' @ input @ str ''</div>'')\<close>
  let ?bs = "matches_in is_h1_chapter ?doc"
  let ?cs = "fst (extractChaptersAndCss loadHtml outerHtml innerHtml input)"
  have order: "?bs = filter (\<lambda>p. is_h1_chapter (fst p)) (positions ?doc)"
    by (rule boundaries_positions)
  have general: "length ?cs = length ?bs
           \<and> (\<forall>k < length ?bs.
                 is_h1_chapter (fst (?bs ! k))
                 \<and> title (?cs ! k) =
                     (if trim (textContent (fst (?bs ! k))) \<noteq> [] then trim (textContent (fst (?bs ! k)))
                      else str ''Chapter '' @ show_nat (k + 1))
                 \<and> (\<exists>E rest. filter is_element (snd (?bs ! k)) = E @ rest
                       \<and> (\<forall>e \<in> set E. \<not> is_h1_chapter e)
                       \<and> (rest = [] \<or> is_h1_chapter (hd rest))
                       \<and> html (?cs ! k) =
                           outerHtml (fst (?bs ! k)) @ str ''\<newline>'' @ concat (map outerHtml E))
                 \<and> html (?cs ! k) =
                     outerHtml (fst (?bs ! k)) @ str ''\<newline>''
                     @ concat (map outerHtml (nextUntil is_h1_chapter (snd (?bs ! k))))
                 \<and> set (nextUntil is_h1_chapter (snd (?bs ! k))) \<inter> Collect is_h1_chapter = {})"
    if ne: "?bs \<noteq> []"
  proof -
    have ec: "each_chapter outerHtml 0 ?bs \<noteq> []"
      using ne by (metis length_each_chapter length_0_conv)
    have cs: "?cs = each_chapter outerHtml 0 ?bs"
      using ec by (simp add: extractChaptersAndCss_def Let_def)
    have b: "is_h1_chapter (fst (?bs ! k))" if "k < length ?bs" for k
    proof -
      have "(fst (?bs ! k), snd (?bs ! k)) \<in> set ?bs" using that by simp
      then show ?thesis by (metis matches_in_sound)
    qed
    have x: "set (nextUntil is_h1_chapter sibs) \<inter> Collect is_h1_chapter = {}" for sibs
      using nextUntil_excludes [of _ is_h1_chapter sibs] by auto
    have e: "\<exists>E rest. filter is_element sibs = E @ rest
                       \<and> (\<forall>e \<in> set E. \<not> is_h1_chapter e)
                       \<and> (rest = [] \<or> is_h1_chapter (hd rest))
                       \<and> h @ concat (map outerHtml (nextUntil is_h1_chapter sibs))
                           = h @ concat (map outerHtml E)" for sibs h
      using prefix_until_exists [of "filter is_element sibs" is_h1_chapter]
      unfolding nextUntil_def by blast
    show ?thesis
      unfolding cs using b x e by (simp add: each_chapter_nth)
  qed
  have digits: \<open>(\<forall>n < 10. show_nat n = [of_char (''0123456789'' ! n)])
   \<and> (\<forall>n \<ge> 10. show_nat n = show_nat (n div 10) @ show_nat (n mod 10))\<close>
    using show_nat_small show_nat_large by blast
  have example:
    \<open>(let chapters = fst (extractChaptersAndCss loadHtml outerHtml innerHtml example_input);
            cfs = chapterFiles toLowerCase chapters;
            ps = epub_payloads toLowerCase uuid chapters css opts
        in chapters =
             [\<lparr>title = str ''Intro'',
               html = outerHtml (Element (str ''h1'') [(str ''class'', str ''chapter'')] [Text (str ''Intro'')])
                      @ str ''\<newline>'' @ outerHtml (Element (str ''p'') [] [Text (str ''Hello'')])\<rparr>,
              \<lparr>title = str ''End'',
               html = outerHtml (Element (str ''h1'') [(str ''class'', str ''chapter'')] [Text (str ''End'')])
                      @ str ''\<newline>'' @ outerHtml (Element (str ''p'') [] [Text (str ''Bye'')])\<rparr>]
           \<and> map title chapters = [str ''Intro'', str ''End'']
           \<and> map filename cfs = [str ''chapter-1-intro.xhtml'', str ''chapter-2-end.xhtml'']
           \<and> manifestItems cfs =
               [str ''<item id="ncx" href="toc.ncx" media-type="application/x-dtbncx+xml"/>'',
                str ''<item id="style" href="style.css" media-type="text/css"/>'',
                str ''<item id="chapter-1" href="chapter-1-intro.xhtml" media-type="application/xhtml+xml"/>'',
                str ''<item id="chapter-2" href="chapter-2-end.xhtml" media-type="application/xhtml+xml"/>'']
           \<and> spineItems cfs =
               [str ''<itemref idref="chapter-1" />'', str ''<itemref idref="chapter-2" />'']
           \<and> navPoints cfs =
               [str ''    <navPoint id="navPoint-1" playOrder="1">\<newline>''
                @ str ''      <navLabel><text>Intro</text></navLabel>\<newline>''
                @ str ''      <content src="chapter-1-intro.xhtml" />\<newline>''
                @ str ''    </navPoint>'',
                str ''    <navPoint id="navPoint-2" playOrder="2">\<newline>''
                @ str ''      <navLabel><text>End</text></navLabel>\<newline>''
                @ str ''      <content src="chapter-2-end.xhtml" />\<newline>''
                @ str ''    </navPoint>'']
           \<and> makeOpf uuid ttl author language cfs =
               str ''<?xml version="1.0" encoding="utf-8"?>\<newline>''
               @ str ''<package xmlns="http://www.idpf.org/2007/opf" unique-identifier="BookId" version="2.0">\<newline>''
               @ str ''  <metadata xmlns:dc="http://purl.org/dc/elements/1.1/" xmlns:opf="http://www.idpf.org/2007/opf">\<newline>''
               @ str ''    <dc:title>'' @ escapeXml ttl @ str ''</dc:title>\<newline>''
               @ str ''    <dc:creator opf:role="aut">'' @ escapeXml author @ str ''</dc:creator>\<newline>''
               @ str ''    <dc:language>'' @ escapeXml language @ str ''</dc:language>\<newline>''
               @ str ''    <dc:identifier id="BookId">urn:uuid:'' @ uuid @ str ''</dc:identifier>\<newline>''
               @ str ''  </metadata>\<newline>''
               @ str ''  <manifest>\<newline>''
               @ str ''    <item id="ncx" href="toc.ncx" media-type="application/x-dtbncx+xml"/>\<newline>''
               @ str ''    <item id="style" href="style.css" media-type="text/css"/>\<newline>''
               @ str ''    <item id="chapter-1" href="chapter-1-intro.xhtml" media-type="application/xhtml+xml"/>\<newline>''
               @ str ''    <item id="chapter-2" href="chapter-2-end.xhtml" media-type="application/xhtml+xml"/>\<newline>''
               @ str ''  </manifest>\<newline>''
               @ str ''  <spine toc="ncx">\<newline>''
               @ str ''    <itemref idref="chapter-1" />\<newline>''
               @ str ''    <itemref idref="chapter-2" />\<newline>''
               @ str ''  </spine>\<newline>''
               @ str ''</package>''
           \<and> makeNcx uuid ttl author cfs =
               str ''<?xml version="1.0" encoding="utf-8"?>\<newline>''
               @ str ''<!DOCTYPE ncx PUBLIC "-//NISO//DTD ncx 2005-1//EN" "http://www.daisy.org/z3986/2005/ncx-2005-1.dtd">\<newline>''
               @ str ''<ncx xmlns="http://www.daisy.org/z3986/2005/ncx/" version="2005-1">\<newline>''
               @ str ''  <head>\<newline>''
               @ str ''    <meta name="dtb:uid" content="urn:uuid:'' @ uuid @ str ''"/>\<newline>''
               @ str ''    <meta name="dtb:depth" content="1"/>\<newline>''
               @ str ''    <meta name="dtb:totalPageCount" content="0"/>\<newline>''
               @ str ''    <meta name="dtb:maxPageNumber" content="0"/>\<newline>''
               @ str ''  </head>\<newline>''
               @ str ''  <docTitle><text>'' @ escapeXml ttl @ str ''</text></docTitle>\<newline>''
               @ str ''  <docAuthor><text>'' @ escapeXml author @ str ''</text></docAuthor>\<newline>''
               @ str ''  <navMap>\<newline>''
               @ str ''    <navPoint id="navPoint-1" playOrder="1">\<newline>''
               @ str ''      <navLabel><text>Intro</text></navLabel>\<newline>''
               @ str ''      <content src="chapter-1-intro.xhtml" />\<newline>''
               @ str ''    </navPoint>\<newline>''
               @ str ''    <navPoint id="navPoint-2" playOrder="2">\<newline>''
               @ str ''      <navLabel><text>End</text></navLabel>\<newline>''
               @ str ''      <content src="chapter-2-end.xhtml" />\<newline>''
               @ str ''    </navPoint>\<newline>''
               @ str ''  </navMap>\<newline>''
               @ str ''</ncx>''
           \<and> map fst ps =
               [str ''mimetype'', str ''META-INF/container.xml'', str ''OEBPS/style.css'',
                str ''OEBPS/content.opf'', str ''OEBPS/toc.ncx'',
                str ''OEBPS/chapter-1-intro.xhtml'', str ''OEBPS/chapter-2-end.xhtml'']
           \<and> ps ! 3 =
               (str ''OEBPS/content.opf'',
                Str (makeOpf uuid (or_else (opt_title opts) (str ''Intro''))
                       (or_else (opt_author opts) (str ''Unknown''))
                       (or_else (opt_language opts) (str ''en'')) cfs),
                None)
           \<and> ps ! 4 =
               (str ''OEBPS/toc.ncx'',
                Str (makeNcx uuid (or_else (opt_title opts) (str ''Intro''))
                       (or_else (opt_author opts) (str ''Unknown'')) cfs),
                None))\<close>
    if l: \<open>loadHtml (str ''<div id="root">'' @ example_input @ str ''</div>'') = example_doc\<close>
      and t1: "toLowerCase (str ''Intro'') = str ''intro''"
      and t2: "toLowerCase (str ''End'') = str ''end''"
  proof -
    note sl = example_slugs [OF t1 t2]
    have e: "escapeXml (str ''Intro'') = str ''Intro''" "escapeXml (str ''End'') = str ''End''"
      by (simp_all add: escapeXml_def replace_char_def str_def)
    have o: "or_else (Some (str ''Intro'')) d = str ''Intro''"
      "or_else (Some (str ''End'')) d = str ''End''" for d
      by (simp_all add: or_else_def) (simp_all add: str_def)
    note ch = example_chapters [where loadHtml = loadHtml and outerHtml = outerHtml
          and innerHtml = innerHtml, OF l]
    define cfs where "cfs = chapterFiles toLowerCase
        (fst (extractChaptersAndCss loadHtml outerHtml innerHtml example_input))"
    have fn: "map filename cfs = [str ''chapter-1-intro.xhtml'', str ''chapter-2-end.xhtml'']"
      unfolding cfs_def chapterFiles_def ch
      by (simp add: sl show_nat_digits) (simp add: str_def)
    have ft: "map file_title cfs = [str ''Intro'', str ''End'']"
      unfolding cfs_def chapterFiles_def ch by simp
    have len: "length cfs = 2"
      unfolding cfs_def chapterFiles_def ch by simp
    obtain c1 c2 where cc: "cfs = [c1, c2]"
      using len by (metis (no_types, opaque_lifting) One_nat_def Suc_1 length_0_conv length_Suc_conv)
    have f1: "filename c1 = str ''chapter-1-intro.xhtml''" "filename c2 = str ''chapter-2-end.xhtml''"
      "file_title c1 = str ''Intro''" "file_title c2 = str ''End''"
      using fn ft unfolding cc by simp_all
    have mi: \<open>manifestItems cfs =
               [str ''<item id="ncx" href="toc.ncx" media-type="application/x-dtbncx+xml"/>'',
                str ''<item id="style" href="style.css" media-type="text/css"/>'',
                str ''<item id="chapter-1" href="chapter-1-intro.xhtml" media-type="application/xhtml+xml"/>'',
                str ''<item id="chapter-2" href="chapter-2-end.xhtml" media-type="application/xhtml+xml"/>'']\<close>
      unfolding cc by (simp add: manifestItems_def f1 show_nat_digits) (simp add: str_def)
    have si: \<open>spineItems cfs =
               [str ''<itemref idref="chapter-1" />'', str ''<itemref idref="chapter-2" />'']\<close>
      unfolding cc by (simp add: spineItems_def show_nat_digits) (simp add: str_def)
    have np: \<open>navPoints cfs =
               [str ''    <navPoint id="navPoint-1" playOrder="1">\<newline>''
                @ str ''      <navLabel><text>Intro</text></navLabel>\<newline>''
                @ str ''      <content src="chapter-1-intro.xhtml" />\<newline>''
                @ str ''    </navPoint>'',
                str ''    <navPoint id="navPoint-2" playOrder="2">\<newline>''
                @ str ''      <navLabel><text>End</text></navLabel>\<newline>''
                @ str ''      <content src="chapter-2-end.xhtml" />\<newline>''
                @ str ''    </navPoint>'']\<close>
      unfolding cc by (simp add: navPoints_def f1 e o show_nat_digits) (simp add: str_def)
    have opf: \<open>makeOpf uuid ttl author language cfs =
               str ''<?xml version="1.0" encoding="utf-8"?>\<newline>''
               @ str ''<package xmlns="http://www.idpf.org/2007/opf" unique-identifier="BookId" version="2.0">\<newline>''
               @ str ''  <metadata xmlns:dc="http://purl.org/dc/elements/1.1/" xmlns:opf="http://www.idpf.org/2007/opf">\<newline>''
               @ str ''    <dc:title>'' @ escapeXml ttl @ str ''</dc:title>\<newline>''
               @ str ''    <dc:creator opf:role="aut">'' @ escapeXml author @ str ''</dc:creator>\<newline>''
               @ str ''    <dc:language>'' @ escapeXml language @ str ''</dc:language>\<newline>''
               @ str ''    <dc:identifier id="BookId">urn:uuid:'' @ uuid @ str ''</dc:identifier>\<newline>''
               @ str ''  </metadata>\<newline>''
               @ str ''  <manifest>\<newline>''
               @ str ''    <item id="ncx" href="toc.ncx" media-type="application/x-dtbncx+xml"/>\<newline>''
               @ str ''    <item id="style" href="style.css" media-type="text/css"/>\<newline>''
               @ str ''    <item id="chapter-1" href="chapter-1-intro.xhtml" media-type="application/xhtml+xml"/>\<newline>''
               @ str ''    <item id="chapter-2" href="chapter-2-end.xhtml" media-type="application/xhtml+xml"/>\<newline>''
               @ str ''  </manifest>\<newline>''
               @ str ''  <spine toc="ncx">\<newline>''
               @ str ''    <itemref idref="chapter-1" />\<newline>''
               @ str ''    <itemref idref="chapter-2" />\<newline>''
               @ str ''  </spine>\<newline>''
               @ str ''</package>''\<close> for uuid ttl author language
      unfolding makeOpf_def mi si by (simp add: str_def)
    have ncx: \<open>makeNcx uuid ttl author cfs =
               str ''<?xml version="1.0" encoding="utf-8"?>\<newline>''
               @ str ''<!DOCTYPE ncx PUBLIC "-//NISO//DTD ncx 2005-1//EN" "http://www.daisy.org/z3986/2005/ncx-2005-1.dtd">\<newline>''
               @ str ''<ncx xmlns="http://www.daisy.org/z3986/2005/ncx/" version="2005-1">\<newline>''
               @ str ''  <head>\<newline>''
               @ str ''    <meta name="dtb:uid" content="urn:uuid:'' @ uuid @ str ''"/>\<newline>''
               @ str ''    <meta name="dtb:depth" content="1"/>\<newline>''
               @ str ''    <meta name="dtb:totalPageCount" content="0"/>\<newline>''
               @ str ''    <meta name="dtb:maxPageNumber" content="0"/>\<newline>''
               @ str ''  </head>\<newline>''
               @ str ''  <docTitle><text>'' @ escapeXml ttl @ str ''</text></docTitle>\<newline>''
               @ str ''  <docAuthor><text>'' @ escapeXml author @ str ''</text></docAuthor>\<newline>''
               @ str ''  <navMap>\<newline>''
               @ str ''    <navPoint id="navPoint-1" playOrder="1">\<newline>''
               @ str ''      <navLabel><text>Intro</text></navLabel>\<newline>''
               @ str ''      <content src="chapter-1-intro.xhtml" />\<newline>''
               @ str ''    </navPoint>\<newline>''
               @ str ''    <navPoint id="navPoint-2" playOrder="2">\<newline>''
               @ str ''      <navLabel><text>End</text></navLabel>\<newline>''
               @ str ''      <content src="chapter-2-end.xhtml" />\<newline>''
               @ str ''    </navPoint>\<newline>''
               @ str ''  </navMap>\<newline>''
               @ str ''</ncx>''\<close> for uuid ttl author
      unfolding makeNcx_def np by (simp add: str_def)
    have it: "inferredTitle (fst (extractChaptersAndCss loadHtml outerHtml innerHtml example_input)) opts
              = or_else (opt_title opts) (str ''Intro'')"
      unfolding ch by (simp add: inferredTitle_def o)
    define ps where "ps = epub_payloads toLowerCase uuid
        (fst (extractChaptersAndCss loadHtml outerHtml innerHtml example_input)) css opts"
    have ps: "ps =
       [(str ''mimetype'', Str (str ''application/epub+zip''),
            Some \<lparr>compress = Some False, opt_date = None\<rparr>),
        (str ''META-INF/container.xml'', Str containerXml, None),
        (str ''OEBPS/style.css'', Str css, None),
        (str ''OEBPS/content.opf'',
           Str (makeOpf uuid (or_else (opt_title opts) (str ''Intro''))
                  (or_else (opt_author opts) (str ''Unknown''))
                  (or_else (opt_language opts) (str ''en'')) cfs), None),
        (str ''OEBPS/toc.ncx'',
           Str (makeNcx uuid (or_else (opt_title opts) (str ''Intro''))
                  (or_else (opt_author opts) (str ''Unknown'')) cfs), None),
        (str ''OEBPS/'' @ filename c1, Str (xhtml c1), None),
        (str ''OEBPS/'' @ filename c2, Str (xhtml c2), None)]"
      unfolding ps_def epub_payloads_def Let_def it cfs_def [symmetric]
      by (simp add: cc)
    have names: "map fst ps =
               [str ''mimetype'', str ''META-INF/container.xml'', str ''OEBPS/style.css'',
                str ''OEBPS/content.opf'', str ''OEBPS/toc.ncx'',
                str ''OEBPS/chapter-1-intro.xhtml'', str ''OEBPS/chapter-2-end.xhtml'']"
      unfolding ps by (simp add: f1) (simp add: str_def)
    have p3: "ps ! 3 = (str ''OEBPS/content.opf'',
                Str (makeOpf uuid (or_else (opt_title opts) (str ''Intro''))
                       (or_else (opt_author opts) (str ''Unknown''))
                       (or_else (opt_language opts) (str ''en'')) cfs),
                None)"
      unfolding ps by (simp add: eval_nat_numeral)
    have p4: "ps ! 4 = (str ''OEBPS/toc.ncx'',
                Str (makeNcx uuid (or_else (opt_title opts) (str ''Intro''))
                       (or_else (opt_author opts) (str ''Unknown'')) cfs),
                None)"
      unfolding ps by (simp add: eval_nat_numeral)
    have tt: "map title (fst (extractChaptersAndCss loadHtml outerHtml innerHtml example_input))
              = [str ''Intro'', str ''End'']"
      unfolding ch by simp
    show ?thesis
      unfolding Let_def cfs_def [symmetric] ps_def [symmetric]
      by (intro conjI) (rule ch tt fn mi si np opf ncx names p3 p4)+
  qed
  show ?thesis
    unfolding Let_def using order general digits example unfolding Let_def by blast
qed

text \<open>
  The example with the serialiser \<open>serialize\<close>: the contents of the two chapters are
  \<^verbatim>\<open><h1 class="chapter">Intro</h1>\<close>, a line break, \<^verbatim>\<open><p>Hello</p>\<close> and
  \<^verbatim>\<open><h1 class="chapter">End</h1>\<close>, a line break, \<^verbatim>\<open><p>Bye</p>\<close>.
\<close>

theorem chapters_follow_boundaries_witness:
  \<open>length (matches_in is_h1_chapter
       ((\<lambda>s. example_doc) (str ''<div id="root">'' @ example_input @ str ''</div>''))) = 2
   \<and> ascii_lower (str ''Intro'') = str ''intro'' \<and> ascii_lower (str ''End'') = str ''end''
   \<and> concat (map serialize example_doc) =
       str ''<html><head></head><body><div id="root">'' @ example_input @ str ''</div></body></html>''
   \<and> length (fst (extractChaptersAndCss (\<lambda>s. example_doc) serialize serialize_children example_input)) = 2
   \<and> html (fst (extractChaptersAndCss (\<lambda>s. example_doc) serialize serialize_children example_input) ! 0) = str ''<h1 class="chapter">Intro</h1>\<newline><p>Hello</p>''
   \<and> html (fst (extractChaptersAndCss (\<lambda>s. example_doc) serialize serialize_children example_input) ! 1) = str ''<h1 class="chapter">End</h1>\<newline><p>Bye</p>''
   \<and> fst (extractChaptersAndCss (\<lambda>s. example_doc) serialize serialize_children example_input) =
       [\<lparr>title = str ''Intro'', html = str ''<h1 class="chapter">Intro</h1>\<newline><p>Hello</p>''\<rparr>,
        \<lparr>title = str ''End'', html = str ''<h1 class="chapter">End</h1>\<newline><p>Bye</p>''\<rparr>]
   \<and> show_nat 12 = str ''12''
   \<and> makeOpf (str ''0-0'') (str ''T'') (str ''A'') (str ''en'') (chapterFiles ascii_lower (fst (extractChaptersAndCss (\<lambda>s. example_doc) serialize serialize_children example_input))) =
       str ''<?xml version="1.0" encoding="utf-8"?>\<newline>''
       @ str ''<package xmlns="http://www.idpf.org/2007/opf" unique-identifier="BookId" version="2.0">\<newline>''
       @ str ''  <metadata xmlns:dc="http://purl.org/dc/elements/1.1/" xmlns:opf="http://www.idpf.org/2007/opf">\<newline>''
       @ str ''    <dc:title>T</dc:title>\<newline>''
       @ str ''    <dc:creator opf:role="aut">A</dc:creator>\<newline>''
       @ str ''    <dc:language>en</dc:language>\<newline>''
       @ str ''    <dc:identifier id="BookId">urn:uuid:0-0</dc:identifier>\<newline>''
       @ str ''  </metadata>\<newline>''
       @ str ''  <manifest>\<newline>''
       @ str ''    <item id="ncx" href="toc.ncx" media-type="application/x-dtbncx+xml"/>\<newline>''
       @ str ''    <item id="style" href="style.css" media-type="text/css"/>\<newline>''
       @ str ''    <item id="chapter-1" href="chapter-1-intro.xhtml" media-type="application/xhtml+xml"/>\<newline>''
       @ str ''    <item id="chapter-2" href="chapter-2-end.xhtml" media-type="application/xhtml+xml"/>\<newline>''
       @ str ''  </manifest>\<newline>''
       @ str ''  <spine toc="ncx">\<newline>''
       @ str ''    <itemref idref="chapter-1" />\<newline>''
       @ str ''    <itemref idref="chapter-2" />\<newline>''
       @ str ''  </spine>\<newline>''
       @ str ''</package>''
   \<and> makeNcx (str ''0-0'') (str ''T'') (str ''A'') (chapterFiles ascii_lower (fst (extractChaptersAndCss (\<lambda>s. example_doc) serialize serialize_children example_input))) =
       str ''<?xml version="1.0" encoding="utf-8"?>\<newline>''
       @ str ''<!DOCTYPE ncx PUBLIC "-//NISO//DTD ncx 2005-1//EN" "http://www.daisy.org/z3986/2005/ncx-2005-1.dtd">\<newline>''
       @ str ''<ncx xmlns="http://www.daisy.org/z3986/2005/ncx/" version="2005-1">\<newline>''
       @ str ''  <head>\<newline>''
       @ str ''    <meta name="dtb:uid" content="urn:uuid:0-0"/>\<newline>''
       @ str ''    <meta name="dtb:depth" content="1"/>\<newline>''
       @ str ''    <meta name="dtb:totalPageCount" content="0"/>\<newline>''
       @ str ''    <meta name="dtb:maxPageNumber" content="0"/>\<newline>''
       @ str ''  </head>\<newline>''
       @ str ''  <docTitle><text>T</text></docTitle>\<newline>''
       @ str ''  <docAuthor><text>A</text></docAuthor>\<newline>''
       @ str ''  <navMap>\<newline>''
       @ str ''    <navPoint id="navPoint-1" playOrder="1">\<newline>''
       @ str ''      <navLabel><text>Intro</text></navLabel>\<newline>''
       @ str ''      <content src="chapter-1-intro.xhtml" />\<newline>''
       @ str ''    </navPoint>\<newline>''
       @ str ''    <navPoint id="navPoint-2" playOrder="2">\<newline>''
       @ str ''      <navLabel><text>End</text></navLabel>\<newline>''
       @ str ''      <content src="chapter-2-end.xhtml" />\<newline>''
       @ str ''    </navPoint>\<newline>''
       @ str ''  </navMap>\<newline>''
       @ str ''</ncx>''\<close>
proof -
  let ?bs = \<open>matches_in is_h1_chapter
       ((\<lambda>s. example_doc) (str ''<div id="root">'' @ example_input @ str ''</div>''))\<close>
  let ?cs = "fst (extractChaptersAndCss (\<lambda>s. example_doc) serialize serialize_children example_input)"
  have bs: "?bs =
     [(Element (str ''h1'') [(str ''class'', str ''chapter'')] [Text (str ''Intro'')],
       [Element (str ''p'') [] [Text (str ''Hello'')],
        Element (str ''h1'') [(str ''class'', str ''chapter'')] [Text (str ''End'')],
        Element (str ''p'') [] [Text (str ''Bye'')]]),
      (Element (str ''h1'') [(str ''class'', str ''chapter'')] [Text (str ''End'')],
       [Element (str ''p'') [] [Text (str ''Bye'')]])]"
    by (simp add: example_matches)
  have l: "length ?bs = 2" unfolding bs by simp
  then have ne: "?bs \<noteq> []" by auto
  have tree: \<open>concat (map serialize example_doc) =
       str ''<html><head></head><body><div id="root">'' @ example_input @ str ''</div></body></html>''\<close>
    by (simp add: example_doc_def example_input_def str_def)
  note th = chapters_follow_boundaries [where loadHtml = "\<lambda>s. example_doc"
      and outerHtml = serialize and innerHtml = serialize_children and input = example_input
      and toLowerCase = ascii_lower and uuid = "str ''0-0''" and ttl = "str ''T''"
      and author = "str ''A''" and language = "str ''en''", unfolded Let_def]
  have 1: "length ?cs = length ?bs"
    using th ne by blast
  have content: "\<exists>E rest. filter is_element (snd (?bs ! k)) = E @ rest
                       \<and> (\<forall>e \<in> set E. \<not> is_h1_chapter e)
                       \<and> (rest = [] \<or> is_h1_chapter (hd rest))
                       \<and> html (?cs ! k) =
                           serialize (fst (?bs ! k)) @ str ''\<newline>'' @ concat (map serialize E)"
    if "k < length ?bs" for k
    using th ne that by blast
  have h0: \<open>html (?cs ! 0) = str ''<h1 class="chapter">Intro</h1>\<newline><p>Hello</p>''\<close>
  proof -
    have "0 < length ?bs" using l by simp
    from content [OF this] obtain E rest where
      split: "filter is_element (snd (?bs ! 0)) = E @ rest"
      and clean: "\<forall>e \<in> set E. \<not> is_h1_chapter e"
      and stop: "rest = [] \<or> is_h1_chapter (hd rest)"
      and h: "html (?cs ! 0) = serialize (fst (?bs ! 0)) @ str ''\<newline>'' @ concat (map serialize E)"
      by blast
    have "E = takeWhile (\<lambda>s. \<not> is_h1_chapter s) (filter is_element (snd (?bs ! 0)))"
      using split clean stop by (rule prefix_until_unique)
    then have E: "E = [Element (str ''p'') [] [Text (str ''Hello'')]]"
      unfolding bs by (simp add: has_word_def word_at_def str_def)
    show ?thesis unfolding h E unfolding bs by (simp add: str_def)
  qed
  have h1: \<open>html (?cs ! 1) = str ''<h1 class="chapter">End</h1>\<newline><p>Bye</p>''\<close>
  proof -
    have "1 < length ?bs" using l by simp
    from content [OF this] obtain E rest where
      split: "filter is_element (snd (?bs ! 1)) = E @ rest"
      and clean: "\<forall>e \<in> set E. \<not> is_h1_chapter e"
      and stop: "rest = [] \<or> is_h1_chapter (hd rest)"
      and h: "html (?cs ! 1) = serialize (fst (?bs ! 1)) @ str ''\<newline>'' @ concat (map serialize E)"
      by blast
    have "E = takeWhile (\<lambda>s. \<not> is_h1_chapter s) (filter is_element (snd (?bs ! 1)))"
      using split clean stop by (rule prefix_until_unique)
    then have E: "E = [Element (str ''p'') [] [Text (str ''Bye'')]]"
      unfolding bs by (simp add: str_def)
    show ?thesis unfolding h E unfolding bs by (simp add: str_def)
  qed
  have small: "\<forall>n < 10. show_nat n = [of_char (''0123456789'' ! n)]"
    and large: "\<forall>n \<ge> 10. show_nat n = show_nat (n div 10) @ show_nat (n mod 10)"
    using th by blast+
  have "show_nat 12 = show_nat (12 div 10) @ show_nat (12 mod 10)"
    using large by simp
  also have "\<dots> = show_nat 1 @ show_nat 2" by simp
  also have "\<dots> = str ''12''" using small by (simp add: str_def)
  finally have d: "show_nat 12 = str ''12''" .
  have ex: \<open>?cs =
       [\<lparr>title = str ''Intro'',
         html = serialize (Element (str ''h1'') [(str ''class'', str ''chapter'')] [Text (str ''Intro'')])
                @ str ''\<newline>'' @ serialize (Element (str ''p'') [] [Text (str ''Hello'')])\<rparr>,
        \<lparr>title = str ''End'',
         html = serialize (Element (str ''h1'') [(str ''class'', str ''chapter'')] [Text (str ''End'')])
                @ str ''\<newline>'' @ serialize (Element (str ''p'') [] [Text (str ''Bye'')])\<rparr>]\<close>
    using th ascii_lower_examples by blast
  have cs: \<open>?cs =
       [\<lparr>title = str ''Intro'', html = str ''<h1 class="chapter">Intro</h1>\<newline><p>Hello</p>''\<rparr>,
        \<lparr>title = str ''End'', html = str ''<h1 class="chapter">End</h1>\<newline><p>Bye</p>''\<rparr>]\<close>
    unfolding ex by (simp add: str_def)
  have x: "escapeXml (str ''T'') = str ''T''" "escapeXml (str ''A'') = str ''A''"
    "escapeXml (str ''en'') = str ''en''"
    by (simp_all add: escapeXml_def replace_char_def str_def)
  have opf: \<open>makeOpf (str ''0-0'') (str ''T'') (str ''A'') (str ''en'') (chapterFiles ascii_lower ?cs) =
       str ''<?xml version="1.0" encoding="utf-8"?>\<newline>''
       @ str ''<package xmlns="http://www.idpf.org/2007/opf" unique-identifier="BookId" version="2.0">\<newline>''
       @ str ''  <metadata xmlns:dc="http://purl.org/dc/elements/1.1/" xmlns:opf="http://www.idpf.org/2007/opf">\<newline>''
       @ str ''    <dc:title>'' @ escapeXml (str ''T'') @ str ''</dc:title>\<newline>''
       @ str ''    <dc:creator opf:role="aut">'' @ escapeXml (str ''A'') @ str ''</dc:creator>\<newline>''
       @ str ''    <dc:language>'' @ escapeXml (str ''en'') @ str ''</dc:language>\<newline>''
       @ str ''    <dc:identifier id="BookId">urn:uuid:'' @ str ''0-0'' @ str ''</dc:identifier>\<newline>''
       @ str ''  </metadata>\<newline>''
       @ str ''  <manifest>\<newline>''
       @ str ''    <item id="ncx" href="toc.ncx" media-type="application/x-dtbncx+xml"/>\<newline>''
       @ str ''    <item id="style" href="style.css" media-type="text/css"/>\<newline>''
       @ str ''    <item id="chapter-1" href="chapter-1-intro.xhtml" media-type="application/xhtml+xml"/>\<newline>''
       @ str ''    <item id="chapter-2" href="chapter-2-end.xhtml" media-type="application/xhtml+xml"/>\<newline>''
       @ str ''  </manifest>\<newline>''
       @ str ''  <spine toc="ncx">\<newline>''
       @ str ''    <itemref idref="chapter-1" />\<newline>''
       @ str ''    <itemref idref="chapter-2" />\<newline>''
       @ str ''  </spine>\<newline>''
       @ str ''</package>''\<close>
    using th ascii_lower_examples by blast
  have ncx: \<open>makeNcx (str ''0-0'') (str ''T'') (str ''A'') (chapterFiles ascii_lower ?cs) =
       str ''<?xml version="1.0" encoding="utf-8"?>\<newline>''
       @ str ''<!DOCTYPE ncx PUBLIC "-//NISO//DTD ncx 2005-1//EN" "http://www.daisy.org/z3986/2005/ncx-2005-1.dtd">\<newline>''
       @ str ''<ncx xmlns="http://www.daisy.org/z3986/2005/ncx/" version="2005-1">\<newline>''
       @ str ''  <head>\<newline>''
       @ str ''    <meta name="dtb:uid" content="urn:uuid:'' @ str ''0-0'' @ str ''"/>\<newline>''
       @ str ''    <meta name="dtb:depth" content="1"/>\<newline>''
       @ str ''    <meta name="dtb:totalPageCount" content="0"/>\<newline>''
       @ str ''    <meta name="dtb:maxPageNumber" content="0"/>\<newline>''
       @ str ''  </head>\<newline>''
       @ str ''  <docTitle><text>'' @ escapeXml (str ''T'') @ str ''</text></docTitle>\<newline>''
       @ str ''  <docAuthor><text>'' @ escapeXml (str ''A'') @ str ''</text></docAuthor>\<newline>''
       @ str ''  <navMap>\<newline>''
       @ str ''    <navPoint id="navPoint-1" playOrder="1">\<newline>''
       @ str ''      <navLabel><text>Intro</text></navLabel>\<newline>''
       @ str ''      <content src="chapter-1-intro.xhtml" />\<newline>''
       @ str ''    </navPoint>\<newline>''
       @ str ''    <navPoint id="navPoint-2" playOrder="2">\<newline>''
       @ str ''      <navLabel><text>End</text></navLabel>\<newline>''
       @ str ''      <content src="chapter-2-end.xhtml" />\<newline>''
       @ str ''    </navPoint>\<newline>''
       @ str ''  </navMap>\<newline>''
       @ str ''</ncx>''\<close>
    using th ascii_lower_examples by blast
  have opf': \<open>makeOpf (str ''0-0'') (str ''T'') (str ''A'') (str ''en'') (chapterFiles ascii_lower ?cs) =
       str ''<?xml version="1.0" encoding="utf-8"?>\<newline>''
       @ str ''<package xmlns="http://www.idpf.org/2007/opf" unique-identifier="BookId" version="2.0">\<newline>''
       @ str ''  <metadata xmlns:dc="http://purl.org/dc/elements/1.1/" xmlns:opf="http://www.idpf.org/2007/opf">\<newline>''
       @ str ''    <dc:title>T</dc:title>\<newline>''
       @ str ''    <dc:creator opf:role="aut">A</dc:creator>\<newline>''
       @ str ''    <dc:language>en</dc:language>\<newline>''
       @ str ''    <dc:identifier id="BookId">urn:uuid:0-0</dc:identifier>\<newline>''
       @ str ''  </metadata>\<newline>''
       @ str ''  <manifest>\<newline>''
       @ str ''    <item id="ncx" href="toc.ncx" media-type="application/x-dtbncx+xml"/>\<newline>''
       @ str ''    <item id="style" href="style.css" media-type="text/css"/>\<newline>''
       @ str ''    <item id="chapter-1" href="chapter-1-intro.xhtml" media-type="application/xhtml+xml"/>\<newline>''
       @ str ''    <item id="chapter-2" href="chapter-2-end.xhtml" media-type="application/xhtml+xml"/>\<newline>''
       @ str ''  </manifest>\<newline>''
       @ str ''  <spine toc="ncx">\<newline>''
       @ str ''    <itemref idref="chapter-1" />\<newline>''
       @ str ''    <itemref idref="chapter-2" />\<newline>''
       @ str ''  </spine>\<newline>''
       @ str ''</package>''\<close>
    unfolding opf x by (simp add: str_def)
  have ncx': \<open>makeNcx (str ''0-0'') (str ''T'') (str ''A'') (chapterFiles ascii_lower ?cs) =
       str ''<?xml version="1.0" encoding="utf-8"?>\<newline>''
       @ str ''<!DOCTYPE ncx PUBLIC "-//NISO//DTD ncx 2005-1//EN" "http://www.daisy.org/z3986/2005/ncx-2005-1.dtd">\<newline>''
       @ str ''<ncx xmlns="http://www.daisy.org/z3986/2005/ncx/" version="2005-1">\<newline>''
       @ str ''  <head>\<newline>''
       @ str ''    <meta name="dtb:uid" content="urn:uuid:0-0"/>\<newline>''
       @ str ''    <meta name="dtb:depth" content="1"/>\<newline>''
       @ str ''    <meta name="dtb:totalPageCount" content="0"/>\<newline>''
       @ str ''    <meta name="dtb:maxPageNumber" content="0"/>\<newline>''
       @ str ''  </head>\<newline>''
       @ str ''  <docTitle><text>T</text></docTitle>\<newline>''
       @ str ''  <docAuthor><text>A</text></docAuthor>\<newline>''
       @ str ''  <navMap>\<newline>''
       @ str ''    <navPoint id="navPoint-1" playOrder="1">\<newline>''
       @ str ''      <navLabel><text>Intro</text></navLabel>\<newline>''
       @ str ''      <content src="chapter-1-intro.xhtml" />\<newline>''
       @ str ''    </navPoint>\<newline>''
       @ str ''    <navPoint id="navPoint-2" playOrder="2">\<newline>''
       @ str ''      <navLabel><text>End</text></navLabel>\<newline>''
       @ str ''      <content src="chapter-2-end.xhtml" />\<newline>''
       @ str ''    </navPoint>\<newline>''
       @ str ''  </navMap>\<newline>''
       @ str ''</ncx>''\<close>
    unfolding ncx x by (simp add: str_def)
  have len: "length ?cs = 2" using 1 l by simp
  show ?thesis
    by (intro conjI) (rule l ascii_lower_examples tree len h0 h1 cs d opf' ncx')+
qed

text \<open>
  The content is not the boundary with all the sibling markup up to the next boundary.
  For \<^verbatim>\<open><h1 class="chapter">A</h1>loose<!--note--><p>x</p>\<close> the chapter is
  \<^verbatim>\<open><h1 class="chapter">A</h1>\<close>, a line break and \<^verbatim>\<open><p>x</p>\<close>: the text and the
  comment are in no chapter. For
  \<^verbatim>\<open><h1 class="chapter">B</h1><section><h1 class="chapter">C</h1><p>y</p></section>\<close>
  the boundaries are \<open>B\<close> and \<open>C\<close>, and the content of chapter \<open>B\<close> holds the whole
  section, with boundary \<open>C\<close> and its paragraph, which are the content of chapter \<open>C\<close>
  as well.
\<close>

theorem chapter_content_counterexample:
  \<open>concat (map serialize loose_doc) =
     str ''<html><head></head><body><div id="root">'' @ loose_input @ str ''</div></body></html>''
   \<and> matches_in is_h1_chapter loose_doc =
       [(Element (str ''h1'') [(str ''class'', str ''chapter'')] [Text (str ''A'')],
         [Text (str ''loose''), Comment (str ''note''), Element (str ''p'') [] [Text (str ''x'')]])]
   \<and> fst (extractChaptersAndCss (\<lambda>s. loose_doc) serialize serialize_children loose_input) =
       [\<lparr>title = str ''A'', html = str ''<h1 class="chapter">A</h1>\<newline><p>x</p>''\<rparr>]
   \<and> content_as_specified serialize
         (Element (str ''h1'') [(str ''class'', str ''chapter'')] [Text (str ''A'')])
         [Text (str ''loose''), Comment (str ''note''), Element (str ''p'') [] [Text (str ''x'')]] =
       str ''<h1 class="chapter">A</h1>loose<!--note--><p>x</p>''
   \<and> html (hd (fst (extractChaptersAndCss (\<lambda>s. loose_doc) serialize serialize_children loose_input)))
       \<noteq> content_as_specified serialize
           (Element (str ''h1'') [(str ''class'', str ''chapter'')] [Text (str ''A'')])
           [Text (str ''loose''), Comment (str ''note''), Element (str ''p'') [] [Text (str ''x'')]]
   \<and> concat (map serialize nested_doc) =
       str ''<html><head></head><body><div id="root">'' @ nested_input @ str ''</div></body></html>''
   \<and> map (\<lambda>p. serialize (fst p)) (matches_in is_h1_chapter nested_doc) =
       [str ''<h1 class="chapter">B</h1>'', str ''<h1 class="chapter">C</h1>'']
   \<and> fst (extractChaptersAndCss (\<lambda>s. nested_doc) serialize serialize_children nested_input) =
       [\<lparr>title = str ''B'',
         html = str ''<h1 class="chapter">B</h1>\<newline>''
                @ str ''<section>'' @ str ''<h1 class="chapter">C</h1>'' @ str ''<p>y</p></section>''\<rparr>,
        \<lparr>title = str ''C'', html = str ''<h1 class="chapter">C</h1>\<newline><p>y</p>''\<rparr>]\<close>
proof -
  have t: "trim (str ''A'') = str ''A''" "trim (str ''B'') = str ''B''" "trim (str ''C'') = str ''C''"
    by (simp_all add: trim_def is_js_space_def str_def)
  have ne: "str ''A'' \<noteq> []" "str ''B'' \<noteq> []" "str ''C'' \<noteq> []"
    by (simp_all add: str_def)
  have tree1: \<open>concat (map serialize loose_doc) =
     str ''<html><head></head><body><div id="root">'' @ loose_input @ str ''</div></body></html>''\<close>
    by (simp add: loose_doc_def loose_input_def str_def)
  have m1: \<open>matches_in is_h1_chapter loose_doc =
       [(Element (str ''h1'') [(str ''class'', str ''chapter'')] [Text (str ''A'')],
         [Text (str ''loose''), Comment (str ''note''), Element (str ''p'') [] [Text (str ''x'')]])]\<close>
    by (simp add: loose_doc_def has_word_def word_at_def str_def)
  have n1: "nextUntil is_h1_chapter
       [Text (str ''loose''), Comment (str ''note''), Element (str ''p'') [] [Text (str ''x'')]]
       = [Element (str ''p'') [] [Text (str ''x'')]]"
    by (simp add: nextUntil_def str_def)
  have c1: \<open>fst (extractChaptersAndCss (\<lambda>s. loose_doc) serialize serialize_children loose_input) =
       [\<lparr>title = str ''A'', html = str ''<h1 class="chapter">A</h1>\<newline><p>x</p>''\<rparr>]\<close>
    by (simp add: extractChaptersAndCss_def Let_def m1 n1 t ne) (simp add: str_def)
  have s1: \<open>content_as_specified serialize
         (Element (str ''h1'') [(str ''class'', str ''chapter'')] [Text (str ''A'')])
         [Text (str ''loose''), Comment (str ''note''), Element (str ''p'') [] [Text (str ''x'')]] =
       str ''<h1 class="chapter">A</h1>loose<!--note--><p>x</p>''\<close>
    by (simp add: content_as_specified_def str_def)
  have d1: \<open>html (hd (fst (extractChaptersAndCss (\<lambda>s. loose_doc) serialize serialize_children loose_input)))
       \<noteq> content_as_specified serialize
           (Element (str ''h1'') [(str ''class'', str ''chapter'')] [Text (str ''A'')])
           [Text (str ''loose''), Comment (str ''note''), Element (str ''p'') [] [Text (str ''x'')]]\<close>
    unfolding c1 s1 by (simp add: str_def)
  have tree2: \<open>concat (map serialize nested_doc) =
       str ''<html><head></head><body><div id="root">'' @ nested_input @ str ''</div></body></html>''\<close>
    by (simp add: nested_doc_def nested_input_def str_def)
  have m2: \<open>matches_in is_h1_chapter nested_doc =
       [(Element (str ''h1'') [(str ''class'', str ''chapter'')] [Text (str ''B'')],
         [Element (str ''section'') []
            [Element (str ''h1'') [(str ''class'', str ''chapter'')] [Text (str ''C'')],
             Element (str ''p'') [] [Text (str ''y'')]]]),
        (Element (str ''h1'') [(str ''class'', str ''chapter'')] [Text (str ''C'')],
         [Element (str ''p'') [] [Text (str ''y'')]])]\<close>
    by (simp add: nested_doc_def has_word_def word_at_def str_def)
  have b2: \<open>map (\<lambda>p. serialize (fst p)) (matches_in is_h1_chapter nested_doc) =
       [str ''<h1 class="chapter">B</h1>'', str ''<h1 class="chapter">C</h1>'']\<close>
    unfolding m2 by (simp add: str_def)
  have n2: "nextUntil is_h1_chapter
       [Element (str ''section'') []
            [Element (str ''h1'') [(str ''class'', str ''chapter'')] [Text (str ''C'')],
             Element (str ''p'') [] [Text (str ''y'')]]]
       = [Element (str ''section'') []
            [Element (str ''h1'') [(str ''class'', str ''chapter'')] [Text (str ''C'')],
             Element (str ''p'') [] [Text (str ''y'')]]]"
    "nextUntil is_h1_chapter [Element (str ''p'') [] [Text (str ''y'')]]
       = [Element (str ''p'') [] [Text (str ''y'')]]"
    by (simp_all add: nextUntil_def str_def)
  have c2: \<open>fst (extractChaptersAndCss (\<lambda>s. nested_doc) serialize serialize_children nested_input) =
       [\<lparr>title = str ''B'',
         html = str ''<h1 class="chapter">B</h1>\<newline>''
                @ str ''<section>'' @ str ''<h1 class="chapter">C</h1>'' @ str ''<p>y</p></section>''\<rparr>,
        \<lparr>title = str ''C'', html = str ''<h1 class="chapter">C</h1>\<newline><p>y</p>''\<rparr>]\<close>
    by (simp add: extractChaptersAndCss_def Let_def m2 n2 t ne) (simp add: str_def)
  show ?thesis
    by (intro conjI) (rule tree1 m1 c1 s1 d1 tree2 b2 c2)+
qed

text \<open>
  C6. When the parsed input, wrapped in the root element, has no \<^verbatim>\<open>h1.chapter\<close>
  element, the splitter returns exactly one chapter, titled \<open>Chapter 1\<close>, whose content
  is the input string unchanged. The splitter has no error result: it returns a value on
  every input.
\<close>

theorem no_boundary_single_chapter:
  assumes \<open>matches_in is_h1_chapter (loadHtml (str ''<div id="root">'' @ input @ str ''</div>'')) = []\<close>
  shows "fst (extractChaptersAndCss loadHtml outerHtml innerHtml input)
         = [\<lparr>title = str ''Chapter 1'', html = input\<rparr>]"
  using assms by (simp add: extractChaptersAndCss_def Let_def)

theorem no_boundary_single_chapter_witness:
  \<open>matches_in is_h1_chapter
     ((\<lambda>s. plain_doc) (str ''<div id="root">'' @ str ''<p>Hello</p>'' @ str ''</div>'')) = []
   \<and> fst (extractChaptersAndCss (\<lambda>s. plain_doc) (\<lambda>n. []) (\<lambda>n. []) (str ''<p>Hello</p>''))
       = [\<lparr>title = str ''Chapter 1'', html = str ''<p>Hello</p>''\<rparr>]\<close>
  using no_boundary_single_chapter [of "\<lambda>s. plain_doc" "str ''<p>Hello</p>''" "\<lambda>n. []" "\<lambda>n. []"]
    plain_doc_no_chapter by simp

text \<open>
  C7 (as amended). When the parsed input has no \<^verbatim>\<open>style\<close> element, the stylesheet
  that the splitter returns, and that the EPUB build stores as the payload of
  \<^verbatim>\<open>OEBPS/style.css\<close>, is \<^verbatim>\<open>DEFAULT_CSS.trim()\<close>: the default stylesheet without
  the line break at its start and the line break at its end.
\<close>

theorem default_css_is_trimmed:
  assumes "matches_in is_style (loadHtml input) = []"
  shows "snd (extractChaptersAndCss loadHtml outerHtml innerHtml input) = trim DEFAULT_CSS
    \<and> trim DEFAULT_CSS = default_css_body
    \<and> DEFAULT_CSS = str ''\<newline>'' @ default_css_body @ str ''\<newline>''
    \<and> epub_payloads toLowerCase uuid chaptersIn
          (snd (extractChaptersAndCss loadHtml outerHtml innerHtml input)) opts ! 2
        = (str ''OEBPS/style.css'', Str default_css_body, None)"
proof -
  have css: "snd (extractChaptersAndCss loadHtml outerHtml innerHtml input) = trim DEFAULT_CSS"
    using assms by (simp add: extractChaptersAndCss_def Let_def)
  show ?thesis
    using css trim_DEFAULT_CSS DEFAULT_CSS_body by (simp add: epub_style_payload)
qed

theorem default_css_is_trimmed_witness:
  "matches_in is_style ((\<lambda>s. plain_doc) (str ''<p>Hello</p>'')) = []
   \<and> snd (extractChaptersAndCss (\<lambda>s. plain_doc) (\<lambda>n. []) (\<lambda>n. []) (str ''<p>Hello</p>''))
       = default_css_body"
  using default_css_is_trimmed [of "\<lambda>s. plain_doc" "str ''<p>Hello</p>''" "\<lambda>n. []" "\<lambda>n. []"]
    plain_doc_no_style by simp

text \<open>
  The claim as stated fails: the stylesheet returned has 240 characters, the constant
  \<^verbatim>\<open>DEFAULT_CSS\<close> has 242.
\<close>

theorem default_css_counterexample:
  "snd (extractChaptersAndCss (\<lambda>s. plain_doc) (\<lambda>n. []) (\<lambda>n. []) (str ''<p>Hello</p>''))
     \<noteq> DEFAULT_CSS
   \<and> length (snd (extractChaptersAndCss (\<lambda>s. plain_doc) (\<lambda>n. []) (\<lambda>n. [])
        (str ''<p>Hello</p>''))) = 240
   \<and> length DEFAULT_CSS = 242"
proof -
  have css: "snd (extractChaptersAndCss (\<lambda>s. plain_doc) (\<lambda>n. []) (\<lambda>n. []) (str ''<p>Hello</p>''))
             = default_css_body"
    by (simp add: extractChaptersAndCss_def Let_def plain_doc_no_style trim_DEFAULT_CSS)
  have l: "length DEFAULT_CSS = 242"
    by (simp add: DEFAULT_CSS_body length_default_css_body str_def)
  have "default_css_body \<noteq> DEFAULT_CSS"
    using l length_default_css_body by auto
  then show ?thesis using css l length_default_css_body by simp
qed

text \<open>
  C8. \<open>slugify\<close> is a total function of the title (and of the runtime's
  \<^verbatim>\<open>toLowerCase\<close>, a parameter here). With \<open>t\<close> the lowercased title, \<open>c\<close> the text
  after the first \<^verbatim>\<open>replace\<close> and \<open>p\<close> the text after the second:
  \<open>c\<close> consists of the characters \<open>a-z\<close>, \<open>0-9\<close> of \<open>t\<close>, unchanged and in their
  order, and of hyphens, never two hyphens in a row (each run of other characters has
  become one hyphen); \<open>p\<close> is \<open>c\<close> without its leading and trailing hyphens; the slug
  is the first 60 characters of \<open>p\<close>, or the literal \<open>chapter\<close> when \<open>p\<close> is empty,
  which happens exactly when \<open>t\<close> has no character in \<open>a-z\<close>, \<open>0-9\<close>. The slug is never
  empty and never longer than 60 characters.

  The first replacement is pinned three ways. It equals \<open>collapse_runs_spec\<close>: every
  character outside \<open>a-z\<close>, \<open>0-9\<close> replaced by a hyphen, then every hyphen that follows
  a hyphen removed. It obeys the run laws: the empty text stays empty, a prefix of
  characters in \<open>a-z\<close>, \<open>0-9\<close> is copied, and a maximal non-empty run of other
  characters (followed by the end of the text or by a character in \<open>a-z\<close>, \<open>0-9\<close>)
  becomes exactly one hyphen, the rest being processed in the same way. And the character
  class is the two ranges from \<open>a\<close> to \<open>z\<close> and from \<open>0\<close> to \<open>9\<close> of code units.
\<close>

theorem slugify_spec:
  "let t = toLowerCase s; c = replace_non_alnum_runs t; p = strip_hyphens c;
       r = slugify toLowerCase s
   in set c \<subseteq> Collect is_lower_alnum \<union> {0x2D}
      \<and> filter is_lower_alnum c = filter is_lower_alnum t
      \<and> successively (\<lambda>a b. \<not> (a = 0x2D \<and> b = 0x2D)) c
      \<and> (\<exists>a b. c = replicate a 0x2D @ p @ replicate b 0x2D)
      \<and> (p = [] \<or> (hd p \<noteq> 0x2D \<and> last p \<noteq> 0x2D))
      \<and> (p = [] \<longleftrightarrow> filter is_lower_alnum t = [])
      \<and> r = (if p = [] then str ''chapter'' else take 60 p)
      \<and> r \<noteq> [] \<and> length r \<le> 60
      \<and> c = collapse_runs_spec t
      \<and> replace_non_alnum_runs [] = []
      \<and> (\<forall>a rest. list_all is_lower_alnum a \<longrightarrow>
             replace_non_alnum_runs (a @ rest) = a @ replace_non_alnum_runs rest)
      \<and> (\<forall>n rest. n \<noteq> [] \<and> list_all (\<lambda>x. \<not> is_lower_alnum x) n
                \<and> (rest = [] \<or> is_lower_alnum (hd rest)) \<longrightarrow>
             replace_non_alnum_runs (n @ rest) = of_char CHR ''-'' # replace_non_alnum_runs rest)
      \<and> (\<forall>x. is_lower_alnum x \<longleftrightarrow>
             (of_char CHR ''a'' \<le> x \<and> x \<le> of_char CHR ''z'')
             \<or> (of_char CHR ''0'' \<le> x \<and> x \<le> of_char CHR ''9''))
      \<and> (0x2D :: jschar) = of_char CHR ''-''"
proof -
  let ?t = "toLowerCase s"
  let ?c = "replace_non_alnum_runs ?t"
  let ?p = "strip_hyphens ?c"
  have e: "?p = [] \<longleftrightarrow> filter is_lower_alnum ?t = []"
    using strip_hyphens_empty [OF runs_set, of ?t] by (simp add: runs_filter)
  have ends: "?p = [] \<or> (hd ?p \<noteq> 0x2D \<and> last ?p \<noteq> 0x2D)"
    using strip_hyphens_ends [of ?c] by blast
  have r: "slugify toLowerCase s = (if ?p = [] then str ''chapter'' else take 60 ?p)"
    using e by (simp add: slugify_fallback)
  have spec: "?c = collapse_runs_spec ?t" by (rule runs_eq_spec)
  have nil: "replace_non_alnum_runs [] = []" by simp
  have keep: "\<forall>a rest. list_all is_lower_alnum a \<longrightarrow>
             replace_non_alnum_runs (a @ rest) = a @ replace_non_alnum_runs rest"
    by (intro allI impI) (rule runs_alnum_prefix)
  have hy: "(0x2D :: jschar) = of_char CHR ''-''" by simp
  have one: "\<forall>n rest. n \<noteq> [] \<and> list_all (\<lambda>x. \<not> is_lower_alnum x) n
                \<and> (rest = [] \<or> is_lower_alnum (hd rest)) \<longrightarrow>
             replace_non_alnum_runs (n @ rest) = of_char CHR ''-'' # replace_non_alnum_runs rest"
    unfolding hy [symmetric] by (intro allI impI) (rule runs_one_hyphen, blast+)
  have chars: "\<forall>x. is_lower_alnum x \<longleftrightarrow>
             (of_char CHR ''a'' \<le> x \<and> x \<le> of_char CHR ''z'')
             \<or> (of_char CHR ''0'' \<le> x \<and> x \<le> of_char CHR ''9'')"
    by (intro allI) (rule is_lower_alnum_chars)
  show ?thesis
    unfolding Let_def
    by (intro conjI) (rule runs_set runs_filter runs_single_hyphen strip_hyphens_decomp
        ends e r slugify_nonempty slugify_length spec nil keep one chars hy)+
qed

theorem slugify_spec_witness:
  "replace_non_alnum_runs (str ''hello,  world!'') = str ''hello-world-''
   \<and> slugify ascii_lower (str ''Hello,  World!'') = str ''hello-world''
   \<and> slugify ascii_lower (str ''?!'') = str ''chapter''"
proof -
  have h: "list_all is_lower_alnum (str ''hello'')" "list_all is_lower_alnum (str ''world'')"
    by (simp_all add: str_def is_lower_alnum_def)
  have n: "list_all (\<lambda>x. \<not> is_lower_alnum x) (str '',  '')"
    "list_all (\<lambda>x. \<not> is_lower_alnum x) (str ''!'')"
    "str '',  '' \<noteq> []" "str ''!'' \<noteq> []"
    "is_lower_alnum (hd (str ''world'' @ str ''!'' @ []))"
    by (simp_all add: str_def is_lower_alnum_def)
  note th = slugify_spec [of ascii_lower "str ''Hello,  World!''", unfolded Let_def]
  have keep: "replace_non_alnum_runs (a @ rest) = a @ replace_non_alnum_runs rest"
    if "list_all is_lower_alnum a" for a rest
    using th that by blast
  have one: "replace_non_alnum_runs (n @ rest) = of_char CHR ''-'' # replace_non_alnum_runs rest"
    if "n \<noteq> []" "list_all (\<lambda>x. \<not> is_lower_alnum x) n" "rest = [] \<or> is_lower_alnum (hd rest)"
    for n rest
    using th that by blast
  have nil: "replace_non_alnum_runs [] = []" using th by blast
  have s4: "replace_non_alnum_runs (str ''!'' @ []) = of_char CHR ''-'' # []"
    using one [of "str ''!''" "[]"] n(2,4) nil by simp
  have s3: "replace_non_alnum_runs (str ''world'' @ str ''!'' @ [])
            = str ''world'' @ of_char CHR ''-'' # []"
    using keep [OF h(2), of "str ''!'' @ []"] s4 by simp
  have s2: "replace_non_alnum_runs (str '',  '' @ str ''world'' @ str ''!'' @ [])
            = of_char CHR ''-'' # str ''world'' @ of_char CHR ''-'' # []"
    using one [of "str '',  ''" "str ''world'' @ str ''!'' @ []"] n(1,3,5) s3 by simp
  have "replace_non_alnum_runs (str ''hello'' @ str '',  '' @ str ''world'' @ str ''!'' @ [])
        = str ''hello'' @ of_char CHR ''-'' # str ''world'' @ of_char CHR ''-'' # []"
    using keep [OF h(1), of "str '',  '' @ str ''world'' @ str ''!'' @ []"] s2 by simp
  then have 1: "replace_non_alnum_runs (str ''hello,  world!'') = str ''hello-world-''"
    by (simp add: str_def)
  have lower: "ascii_lower (str ''Hello,  World!'') = str ''hello,  world!''"
    by (simp add: ascii_lower_def str_def)
  have p: "strip_hyphens (str ''hello-world-'') = str ''hello-world''"
    by (simp add: strip_hyphens_def str_def)
  have "slugify ascii_lower (str ''Hello,  World!'')
        = (if strip_hyphens (replace_non_alnum_runs (ascii_lower (str ''Hello,  World!''))) = []
           then str ''chapter''
           else take 60 (strip_hyphens (replace_non_alnum_runs (ascii_lower (str ''Hello,  World!'')))))"
    using th by blast
  then have 2: "slugify ascii_lower (str ''Hello,  World!'') = str ''hello-world''"
    unfolding lower 1 p by (simp add: str_def)
  note th3 = slugify_spec [of ascii_lower "str ''?!''", unfolded Let_def]
  have f: "filter is_lower_alnum (ascii_lower (str ''?!'')) = []"
    by (simp add: ascii_lower_def str_def is_lower_alnum_def)
  have e3: "strip_hyphens (replace_non_alnum_runs (ascii_lower (str ''?!''))) = []"
    using th3 f by blast
  have "slugify ascii_lower (str ''?!'')
        = (if strip_hyphens (replace_non_alnum_runs (ascii_lower (str ''?!''))) = []
           then str ''chapter''
           else take 60 (strip_hyphens (replace_non_alnum_runs (ascii_lower (str ''?!'')))))"
    using th3 by blast
  then have 3: "slugify ascii_lower (str ''?!'') = str ''chapter''"
    unfolding e3 by simp
  show ?thesis using 1 2 3 by simp
qed

lemma slugify_example:
  "slugify ascii_lower (str ''Hello,  World!'') = str ''hello-world''"
  by (simp add: slugify_def ascii_lower_def strip_hyphens_def is_lower_alnum_def str_def)

text \<open>
  C9. Two builds from the same chapters, stylesheet and options, with the same clock and
  the same compression function, that differ only in the random source, return the same
  title and chapter count and identifiers of 36 characters each. The texts of
  \<^verbatim>\<open>OEBPS/content.opf\<close> and \<^verbatim>\<open>OEBPS/toc.ncx\<close> are the same around the
  identifier. The two archives are the bytes of two entry lists of the same length and
  with the same names: the first three entries (\<^verbatim>\<open>mimetype\<close>,
  \<^verbatim>\<open>META-INF/container.xml\<close>, \<^verbatim>\<open>OEBPS/style.css\<close>) are the same, so the
  archives agree on all the bytes before the \<^verbatim>\<open>OEBPS/content.opf\<close> entry, which
  starts at the same offset in both; the entries of \<^verbatim>\<open>OEBPS/content.opf\<close> and
  \<^verbatim>\<open>OEBPS/toc.ncx\<close> are those of the two texts with the build's identifier; the
  chapter entries are the same but for their offsets, and the same with their offsets
  when the compressed sizes of the two texts add up to the same in both builds. The
  local header of \<^verbatim>\<open>OEBPS/content.opf\<close> holds the CRC-32 and the sizes of its text,
  and when the two identifiers differ in exactly one character the CRC-32 fields of
  the two archives differ. With the same identifier the two archives are the same.
\<close>

theorem builds_differ_through_identifier:
  assumes "writeEpubBufferFromParts toLowerCase d clock rnd1 chaptersIn css opts = Inr r1"
    and "writeEpubBufferFromParts toLowerCase d clock rnd2 chaptersIn css opts = Inr r2"
  shows "uuid_of r1 = uuidv4 rnd1 \<and> uuid_of r2 = uuidv4 rnd2
     \<and> length (uuid_of r1) = 36 \<and> length (uuid_of r2) = 36
     \<and> title_of r1 = title_of r2 \<and> chapterCount r1 = chapterCount r2
     \<and> (uuid_of r1 = uuid_of r2 \<longrightarrow> buffer r1 = buffer r2)
     \<and> (\<exists>pre post. \<forall>u. opf_text toLowerCase u chaptersIn opts = pre @ u @ post)
     \<and> (\<exists>pre post. \<forall>u. ncx_text toLowerCase u chaptersIn opts = pre @ u @ post)
     \<and> (\<exists>fs1 fs2.
           buffer r1 = archive_bytes fs1 \<and> buffer r2 = archive_bytes fs2
           \<and> offsets_from 0 fs1 \<and> offsets_from 0 fs2
           \<and> length fs1 = 5 + length chaptersIn \<and> length fs2 = 5 + length chaptersIn
           \<and> map name fs1 = map name fs2
           \<and> take 3 fs1 = first_entries d clock css \<and> take 3 fs2 = first_entries d clock css
           \<and> fs1 ! 3 = added_entry d (clock 3) (opf_offset d css) (str ''OEBPS/content.opf'')
                         (Str (opf_text toLowerCase (uuid_of r1) chaptersIn opts)) None
           \<and> fs2 ! 3 = added_entry d (clock 3) (opf_offset d css) (str ''OEBPS/content.opf'')
                         (Str (opf_text toLowerCase (uuid_of r2) chaptersIn opts)) None
           \<and> fs1 ! 4 = added_entry d (clock 4)
                         (opf_offset d css + 47
                          + length (d (utf8 (opf_text toLowerCase (uuid_of r1) chaptersIn opts))))
                         (str ''OEBPS/toc.ncx'')
                         (Str (ncx_text toLowerCase (uuid_of r1) chaptersIn opts)) None
           \<and> fs2 ! 4 = added_entry d (clock 4)
                         (opf_offset d css + 47
                          + length (d (utf8 (opf_text toLowerCase (uuid_of r2) chaptersIn opts))))
                         (str ''OEBPS/toc.ncx'')
                         (Str (ncx_text toLowerCase (uuid_of r2) chaptersIn opts)) None
           \<and> (\<forall>k. 5 \<le> k \<and> k < 5 + length chaptersIn \<longrightarrow>
                  (fs1 ! k)\<lparr>offset := 0\<rparr> = (fs2 ! k)\<lparr>offset := 0\<rparr>)
           \<and> (length (d (utf8 (opf_text toLowerCase (uuid_of r1) chaptersIn opts)))
               + length (d (utf8 (ncx_text toLowerCase (uuid_of r1) chaptersIn opts)))
               = length (d (utf8 (opf_text toLowerCase (uuid_of r2) chaptersIn opts)))
                 + length (d (utf8 (ncx_text toLowerCase (uuid_of r2) chaptersIn opts)))
               \<longrightarrow> drop 5 fs1 = drop 5 fs2))
     \<and> take (opf_offset d css) (buffer r1) = take (opf_offset d css) (buffer r2)
     \<and> read_local (buffer r1) (opf_offset d css) =
         Some \<lparr>l_name = utf8 (str ''OEBPS/content.opf''),
               l_crc = crc32 (utf8 (opf_text toLowerCase (uuid_of r1) chaptersIn opts)),
               l_csize = length (d (utf8 (opf_text toLowerCase (uuid_of r1) chaptersIn opts))) mod 2 ^ 32,
               l_usize = length (utf8 (opf_text toLowerCase (uuid_of r1) chaptersIn opts)) mod 2 ^ 32\<rparr>
     \<and> read_local (buffer r2) (opf_offset d css) =
         Some \<lparr>l_name = utf8 (str ''OEBPS/content.opf''),
               l_crc = crc32 (utf8 (opf_text toLowerCase (uuid_of r2) chaptersIn opts)),
               l_csize = length (d (utf8 (opf_text toLowerCase (uuid_of r2) chaptersIn opts))) mod 2 ^ 32,
               l_usize = length (utf8 (opf_text toLowerCase (uuid_of r2) chaptersIn opts)) mod 2 ^ 32\<rparr>
     \<and> (\<forall>v w a b. uuid_of r1 = v @ a # w \<and> uuid_of r2 = v @ b # w \<and> a \<noteq> b \<longrightarrow>
           field (buffer r1) (opf_offset d css + 14) 4
           \<noteq> field (buffer r2) (opf_offset d css + 14) 4)"
proof -
  let ?fs1 = "entries_from d 0
      (epub_calls clock (epub_payloads toLowerCase (uuidv4 rnd1) chaptersIn css opts))"
  let ?fs2 = "entries_from d 0
      (epub_calls clock (epub_payloads toLowerCase (uuidv4 rnd2) chaptersIn css opts))"
  note w1 = writeEpub_buffer [OF assms(1)] and w2 = writeEpub_buffer [OF assms(2)]
  note f1 = epub_entries_facts [of d clock toLowerCase "uuidv4 rnd1" chaptersIn css opts]
  note f2 = epub_entries_facts [of d clock toLowerCase "uuidv4 rnd2" chaptersIn css opts]
  have ids: "uuid_of r1 = uuidv4 rnd1 \<and> uuid_of r2 = uuidv4 rnd2
     \<and> length (uuid_of r1) = 36 \<and> length (uuid_of r2) = 36
     \<and> title_of r1 = title_of r2 \<and> chapterCount r1 = chapterCount r2"
    using w1 w2 by (simp add: length_uuidv4)
  have same: "uuid_of r1 = uuid_of r2 \<longrightarrow> buffer r1 = buffer r2"
    unfolding w1(1) w2(1) w1(2) w2(2) by simp
  have names: "map name ?fs1 = map name ?fs2"
    unfolding f1(6) f2(6) by (rule epub_call_names)
  have later: "(?fs1 ! k)\<lparr>offset := 0\<rparr> = (?fs2 ! k)\<lparr>offset := 0\<rparr>"
    if "5 \<le> k \<and> k < 5 + length chaptersIn" for k
  proof -
    have k1: "k - 5 < length (drop 5 ?fs1)" and k2: "k - 5 < length (drop 5 ?fs2)"
      using that f1(1) f2(1) by auto
    have n1: "?fs1 ! k = drop 5 ?fs1 ! (k - 5)" and n2: "?fs2 ! k = drop 5 ?fs2 ! (k - 5)"
      using that f1(1) f2(1) by auto
    have "map (\<lambda>f. f\<lparr>offset := 0\<rparr>) (drop 5 ?fs1) = map (\<lambda>f. f\<lparr>offset := 0\<rparr>) (drop 5 ?fs2)"
      unfolding f1(5) f2(5) by (rule entries_from_offset)
    then have "map (\<lambda>f. f\<lparr>offset := 0\<rparr>) (drop 5 ?fs1) ! (k - 5)
             = map (\<lambda>f. f\<lparr>offset := 0\<rparr>) (drop 5 ?fs2) ! (k - 5)" by simp
    then show ?thesis
      unfolding n1 n2 using k1 k2 by (simp only: nth_map)
  qed
  have sizes: "length (d (utf8 (opf_text toLowerCase (uuidv4 rnd1) chaptersIn opts)))
               + length (d (utf8 (ncx_text toLowerCase (uuidv4 rnd1) chaptersIn opts)))
               = length (d (utf8 (opf_text toLowerCase (uuidv4 rnd2) chaptersIn opts)))
                 + length (d (utf8 (ncx_text toLowerCase (uuidv4 rnd2) chaptersIn opts)))
               \<longrightarrow> drop 5 ?fs1 = drop 5 ?fs2"
    unfolding f1(5) f2(5) by (simp add: add.assoc)
  have entries: "\<exists>fs1 fs2.
           buffer r1 = archive_bytes fs1 \<and> buffer r2 = archive_bytes fs2
           \<and> offsets_from 0 fs1 \<and> offsets_from 0 fs2
           \<and> length fs1 = 5 + length chaptersIn \<and> length fs2 = 5 + length chaptersIn
           \<and> map name fs1 = map name fs2
           \<and> take 3 fs1 = first_entries d clock css \<and> take 3 fs2 = first_entries d clock css
           \<and> fs1 ! 3 = added_entry d (clock 3) (opf_offset d css) (str ''OEBPS/content.opf'')
                         (Str (opf_text toLowerCase (uuid_of r1) chaptersIn opts)) None
           \<and> fs2 ! 3 = added_entry d (clock 3) (opf_offset d css) (str ''OEBPS/content.opf'')
                         (Str (opf_text toLowerCase (uuid_of r2) chaptersIn opts)) None
           \<and> fs1 ! 4 = added_entry d (clock 4)
                         (opf_offset d css + 47
                          + length (d (utf8 (opf_text toLowerCase (uuid_of r1) chaptersIn opts))))
                         (str ''OEBPS/toc.ncx'')
                         (Str (ncx_text toLowerCase (uuid_of r1) chaptersIn opts)) None
           \<and> fs2 ! 4 = added_entry d (clock 4)
                         (opf_offset d css + 47
                          + length (d (utf8 (opf_text toLowerCase (uuid_of r2) chaptersIn opts))))
                         (str ''OEBPS/toc.ncx'')
                         (Str (ncx_text toLowerCase (uuid_of r2) chaptersIn opts)) None
           \<and> (\<forall>k. 5 \<le> k \<and> k < 5 + length chaptersIn \<longrightarrow>
                  (fs1 ! k)\<lparr>offset := 0\<rparr> = (fs2 ! k)\<lparr>offset := 0\<rparr>)
           \<and> (length (d (utf8 (opf_text toLowerCase (uuid_of r1) chaptersIn opts)))
               + length (d (utf8 (ncx_text toLowerCase (uuid_of r1) chaptersIn opts)))
               = length (d (utf8 (opf_text toLowerCase (uuid_of r2) chaptersIn opts)))
                 + length (d (utf8 (ncx_text toLowerCase (uuid_of r2) chaptersIn opts)))
               \<longrightarrow> drop 5 fs1 = drop 5 fs2)"
    unfolding w1(2) w2(2)
    apply (rule exI [of _ ?fs1], rule exI [of _ ?fs2])
    apply (intro conjI allI)
    apply (rule w1(1) w2(1) w1(5) w2(5) f1(1) f2(1) f1(2) f2(2) f1(3) f2(3) f1(4) f2(4) names sizes)+
    apply (rule impI, rule later, assumption)
    apply (rule sizes)
    done
  have pre: "take (opf_offset d css) (buffer r1) = take (opf_offset d css) (buffer r2)"
  proof -
    have a: "take (opf_offset d css) (archive_bytes fs)
             = concat (map local_entry (first_entries d clock css))"
      if "take 3 fs = first_entries d clock css" for fs
    proof -
      have "fs = first_entries d clock css @ drop 3 fs"
        using that by (metis append_take_drop_id)
      then show ?thesis
        using take_archive_bytes [of "first_entries d clock css" "drop 3 fs"]
        by (simp add: length_first_entries)
    qed
    show ?thesis unfolding w1(1) w2(1) a [OF f1(2)] a [OF f2(2)] ..
  qed
  have crcs: "\<forall>v w a b. uuid_of r1 = v @ a # w \<and> uuid_of r2 = v @ b # w \<and> a \<noteq> b \<longrightarrow>
           field (buffer r1) (opf_offset d css + 14) 4
           \<noteq> field (buffer r2) (opf_offset d css + 14) 4"
  proof (intro allI impI)
    fix v w a b
    assume h: "uuid_of r1 = v @ a # w \<and> uuid_of r2 = v @ b # w \<and> a \<noteq> b"
    obtain pre post where
      sp: "\<And>u. opf_text toLowerCase u chaptersIn opts = pre @ u @ post"
      using opf_text_split [of toLowerCase chaptersIn opts] by blast
    have a: "a < 0x80" using uuidv4_ascii [of rnd1] h unfolding w1(2) [symmetric] by simp
    have b: "b < 0x80" using uuidv4_ascii [of rnd2] h unfolding w2(2) [symmetric] by simp
    have t1: "opf_text toLowerCase (uuid_of r1) chaptersIn opts = (pre @ v) @ a # (w @ post)"
      and t2: "opf_text toLowerCase (uuid_of r2) chaptersIn opts = (pre @ v) @ b # (w @ post)"
      using h by (simp_all add: sp)
    have ne: "crc32 (utf8 (opf_text toLowerCase (uuid_of r1) chaptersIn opts))
              \<noteq> crc32 (utf8 (opf_text toLowerCase (uuid_of r2) chaptersIn opts))"
      unfolding t1 t2 using a b h by (intro crc32_differs) simp_all
    show "field (buffer r1) (opf_offset d css + 14) 4
           \<noteq> field (buffer r2) (opf_offset d css + 14) 4"
      using ne read_local_crc [OF read_local_opf [OF assms(1)]]
        read_local_crc [OF read_local_opf [OF assms(2)]] by simp
  qed
  show ?thesis
    by (intro conjI) (rule crcs ids [THEN conjunct1] ids [THEN conjunct2, THEN conjunct1]
        ids [THEN conjunct2, THEN conjunct2, THEN conjunct1]
        ids [THEN conjunct2, THEN conjunct2, THEN conjunct2, THEN conjunct1]
        ids [THEN conjunct2, THEN conjunct2, THEN conjunct2, THEN conjunct2, THEN conjunct1]
        ids [THEN conjunct2, THEN conjunct2, THEN conjunct2, THEN conjunct2, THEN conjunct2]
        same opf_text_split ncx_text_split entries pre
        read_local_opf [OF assms(1)] read_local_opf [OF assms(2)])+
qed

text \<open>
  Two builds of one chapter with a compression function that returns its input, whose
  identifiers end in 0 and in 1: the first 389 bytes agree, the CRC-32 fields at 403 differ, and the chapter entry is the
  same in both.
\<close>

theorem builds_differ_through_identifier_witness:
  "\<exists>r1 r2.
     writeEpubBufferFromParts ascii_lower (\<lambda>b. b) (\<lambda>k. demo_date) rnd_zero one_chapter [] no_opts = Inr r1
     \<and> writeEpubBufferFromParts ascii_lower (\<lambda>b. b) (\<lambda>k. demo_date) rnd_last_one one_chapter [] no_opts = Inr r2
     \<and> uuid_of r1 = str ''00000000-0000-4000-8000-000000000000''
     \<and> uuid_of r2 = str ''00000000-0000-4000-8000-000000000001''
     \<and> title_of r1 = title_of r2
     \<and> take 389 (buffer r1) = take 389 (buffer r2)
     \<and> field (buffer r1) 403 4 \<noteq> field (buffer r2) 403 4
     \<and> (\<exists>fs1 fs2. buffer r1 = archive_bytes fs1 \<and> buffer r2 = archive_bytes fs2
           \<and> length fs1 = 6 \<and> length fs2 = 6
           \<and> take 3 fs1 = take 3 fs2 \<and> drop 5 fs1 = drop 5 fs2
           \<and> (fs1 ! 5)\<lparr>offset := 0\<rparr> = (fs2 ! 5)\<lparr>offset := 0\<rparr>)"
proof -
  obtain r1 where 1: "writeEpubBufferFromParts ascii_lower (\<lambda>b. b) (\<lambda>k. demo_date) rnd_zero
      one_chapter [] no_opts = Inr r1"
    using writeEpub_one_chapter_accepts by blast
  obtain r2 where 2: "writeEpubBufferFromParts ascii_lower (\<lambda>b. b) (\<lambda>k. demo_date) rnd_last_one
      one_chapter [] no_opts = Inr r2"
    using writeEpub_one_chapter_accepts by blast
  note th = builds_differ_through_identifier [OF 1 2]
  have u1: "uuid_of r1 = str ''00000000-0000-4000-8000-000000000000''"
    using th uuidv4_rnd_zero by simp
  have u2: "uuid_of r2 = str ''00000000-0000-4000-8000-000000000001''"
    using th uuidv4_rnd_last_one by simp
  have t: "title_of r1 = title_of r2" using th by blast
  have p: "take 389 (buffer r1) = take 389 (buffer r2)"
    using th unfolding opf_offset_stored by blast
  have c: "\<forall>v w a b. uuid_of r1 = v @ a # w \<and> uuid_of r2 = v @ b # w \<and> a \<noteq> b \<longrightarrow>
           field (buffer r1) (389 + 14) 4 \<noteq> field (buffer r2) (389 + 14) 4"
    using th unfolding opf_offset_stored by blast
  have s1: "uuid_of r1 = str ''00000000-0000-4000-8000-00000000000'' @ of_char CHR ''0'' # []"
    and s2: "uuid_of r2 = str ''00000000-0000-4000-8000-00000000000'' @ of_char CHR ''1'' # []"
    unfolding u1 u2 by (simp_all add: str_def)
  have ne: "(of_char CHR ''0'' :: jschar) \<noteq> of_char CHR ''1''" by simp
  have "field (buffer r1) (389 + 14) 4 \<noteq> field (buffer r2) (389 + 14) 4"
    using c s1 s2 ne by blast
  then have f: "field (buffer r1) 403 4 \<noteq> field (buffer r2) 403 4" by simp
  obtain pre post where
    sp: "\<And>u. opf_text ascii_lower u one_chapter no_opts = pre @ u @ post"
    using th by blast
  obtain pre' post' where
    sp': "\<And>u. ncx_text ascii_lower u one_chapter no_opts = pre' @ u @ post'"
    using th by blast
  have lo: "length (utf8 (opf_text ascii_lower (uuid_of r1) one_chapter no_opts))
            = length (utf8 (opf_text ascii_lower (uuid_of r2) one_chapter no_opts))"
    unfolding sp s1 s2
    using length_utf8_one_char [of "of_char CHR ''0''" "of_char CHR ''1''"
        "pre @ str ''00000000-0000-4000-8000-00000000000''" post]
    by simp
  have ln: "length (utf8 (ncx_text ascii_lower (uuid_of r1) one_chapter no_opts))
            = length (utf8 (ncx_text ascii_lower (uuid_of r2) one_chapter no_opts))"
    unfolding sp' s1 s2
    using length_utf8_one_char [of "of_char CHR ''0''" "of_char CHR ''1''"
        "pre' @ str ''00000000-0000-4000-8000-00000000000''" post']
    by simp
  from th obtain fs1 fs2 where
    b: "buffer r1 = archive_bytes fs1" "buffer r2 = archive_bytes fs2"
    and l: "length fs1 = 5 + length one_chapter" "length fs2 = 5 + length one_chapter"
    and f3: "take 3 fs1 = first_entries (\<lambda>b. b) (\<lambda>k. demo_date) []"
      "take 3 fs2 = first_entries (\<lambda>b. b) (\<lambda>k. demo_date) []"
    and later: "\<forall>k. 5 \<le> k \<and> k < 5 + length one_chapter \<longrightarrow>
                  (fs1 ! k)\<lparr>offset := 0\<rparr> = (fs2 ! k)\<lparr>offset := 0\<rparr>"
    and sz: "length (utf8 (opf_text ascii_lower (uuid_of r1) one_chapter no_opts))
               + length (utf8 (ncx_text ascii_lower (uuid_of r1) one_chapter no_opts))
               = length (utf8 (opf_text ascii_lower (uuid_of r2) one_chapter no_opts))
                 + length (utf8 (ncx_text ascii_lower (uuid_of r2) one_chapter no_opts))
               \<longrightarrow> drop 5 fs1 = drop 5 fs2"
    by blast
  have l6: "length fs1 = 6" "length fs2 = 6" using l by (simp_all add: one_chapter_def)
  have d5: "drop 5 fs1 = drop 5 fs2" using sz lo ln by simp
  have k5: "(fs1 ! 5)\<lparr>offset := 0\<rparr> = (fs2 ! 5)\<lparr>offset := 0\<rparr>"
    using later by (simp add: one_chapter_def)
  have t3: "take 3 fs1 = take 3 fs2" using f3 by simp
  have e: "\<exists>fs1 fs2. buffer r1 = archive_bytes fs1 \<and> buffer r2 = archive_bytes fs2
           \<and> length fs1 = 6 \<and> length fs2 = 6
           \<and> take 3 fs1 = take 3 fs2 \<and> drop 5 fs1 = drop 5 fs2
           \<and> (fs1 ! 5)\<lparr>offset := 0\<rparr> = (fs2 ! 5)\<lparr>offset := 0\<rparr>"
    using b l6 t3 d5 k5 by blast
  show ?thesis using 1 2 u1 u2 t p f e by blast
qed

text \<open>
  The archives differ outside the identifier. For every compression function, the two
  builds of one chapter with the identifiers
  \<^verbatim>\<open>00000000-0000-4000-8000-000000000000\<close> and
  \<^verbatim>\<open>00000000-0000-4000-8000-000000000001\<close> both have the local header of
  \<^verbatim>\<open>OEBPS/content.opf\<close> at the same offset, and the CRC-32 fields of the two
  headers, 14 bytes after it, differ. When the compression function returns its input
  the offset is 389.
\<close>

theorem identifier_changes_crc_counterexample:
  "(\<forall>d. \<exists>r1 r2.
      writeEpubBufferFromParts ascii_lower d (\<lambda>k. demo_date) rnd_zero one_chapter [] no_opts = Inr r1
      \<and> writeEpubBufferFromParts ascii_lower d (\<lambda>k. demo_date) rnd_last_one one_chapter [] no_opts = Inr r2
      \<and> uuid_of r1 = str ''00000000-0000-4000-8000-000000000000''
      \<and> uuid_of r2 = str ''00000000-0000-4000-8000-000000000001''
      \<and> map_option l_name (read_local (buffer r1) (opf_offset d []))
          = Some (utf8 (str ''OEBPS/content.opf''))
      \<and> map_option l_name (read_local (buffer r2) (opf_offset d []))
          = Some (utf8 (str ''OEBPS/content.opf''))
      \<and> field (buffer r1) (opf_offset d [] + 14) 4 \<noteq> field (buffer r2) (opf_offset d [] + 14) 4)
   \<and> opf_offset (\<lambda>b. b) [] = 389"
proof (intro conjI allI)
  fix d :: "byte list \<Rightarrow> byte list"
  obtain r1 where 1: "writeEpubBufferFromParts ascii_lower d (\<lambda>k. demo_date) rnd_zero
      one_chapter [] no_opts = Inr r1"
    using writeEpub_one_chapter_accepts by blast
  obtain r2 where 2: "writeEpubBufferFromParts ascii_lower d (\<lambda>k. demo_date) rnd_last_one
      one_chapter [] no_opts = Inr r2"
    using writeEpub_one_chapter_accepts by blast
  have u1: "uuid_of r1 = str ''00000000-0000-4000-8000-000000000000''"
    using writeEpub_buffer(2) [OF 1] uuidv4_rnd_zero by simp
  have u2: "uuid_of r2 = str ''00000000-0000-4000-8000-000000000001''"
    using writeEpub_buffer(2) [OF 2] uuidv4_rnd_last_one by simp
  note l1 = read_local_opf [OF 1] and l2 = read_local_opf [OF 2]
  obtain pre post where
    sp: "\<And>u. opf_text ascii_lower u one_chapter no_opts = pre @ u @ post"
    using opf_text_split [of ascii_lower one_chapter no_opts] by blast
  have t1: "opf_text ascii_lower (uuid_of r1) one_chapter no_opts
            = (pre @ str ''00000000-0000-4000-8000-00000000000'') @ of_char CHR ''0'' # post"
    and t2: "opf_text ascii_lower (uuid_of r2) one_chapter no_opts
            = (pre @ str ''00000000-0000-4000-8000-00000000000'') @ of_char CHR ''1'' # post"
    unfolding sp u1 u2 by (simp_all add: str_def)
  have ne: "crc32 (utf8 (opf_text ascii_lower (uuid_of r1) one_chapter no_opts))
            \<noteq> crc32 (utf8 (opf_text ascii_lower (uuid_of r2) one_chapter no_opts))"
    unfolding t1 t2 by (rule crc32_differs) simp_all
  have f: "field (buffer r1) (opf_offset d [] + 14) 4 \<noteq> field (buffer r2) (opf_offset d [] + 14) 4"
    using ne read_local_crc [OF l1] read_local_crc [OF l2] by simp
  have n1: "map_option l_name (read_local (buffer r1) (opf_offset d []))
          = Some (utf8 (str ''OEBPS/content.opf''))"
    unfolding l1 by simp
  have n2: "map_option l_name (read_local (buffer r2) (opf_offset d []))
          = Some (utf8 (str ''OEBPS/content.opf''))"
    unfolding l2 by simp
  show "\<exists>r1 r2.
      writeEpubBufferFromParts ascii_lower d (\<lambda>k. demo_date) rnd_zero one_chapter [] no_opts = Inr r1
      \<and> writeEpubBufferFromParts ascii_lower d (\<lambda>k. demo_date) rnd_last_one one_chapter [] no_opts = Inr r2
      \<and> uuid_of r1 = str ''00000000-0000-4000-8000-000000000000''
      \<and> uuid_of r2 = str ''00000000-0000-4000-8000-000000000001''
      \<and> map_option l_name (read_local (buffer r1) (opf_offset d []))
          = Some (utf8 (str ''OEBPS/content.opf''))
      \<and> map_option l_name (read_local (buffer r2) (opf_offset d []))
          = Some (utf8 (str ''OEBPS/content.opf''))
      \<and> field (buffer r1) (opf_offset d [] + 14) 4 \<noteq> field (buffer r2) (opf_offset d [] + 14) 4"
    using 1 2 u1 u2 n1 n2 f by blast
next
  show "opf_offset (\<lambda>b. b) [] = 389" by (rule opf_offset_stored)
qed

text \<open>
  C10. For every string \<open>s\<close>, \<open>escapeXml s\<close> contains none of the characters
  \<open><\<close>, \<open>>\<close>, double quote and apostrophe; every \<open>&\<close> in it is the first character
  of one of the five entities \<open>&amp;\<close>, \<open>&lt;\<close>, \<open>&gt;\<close>, \<open>&quot;\<close>, \<open>&apos;\<close>;
  substituting the entities back recovers \<open>s\<close>; and so two strings with the same
  escaped text are equal. The source replaces \<open>&\<close> first, which is why the \<open>&\<close> of
  the four later entities is not escaped again.
\<close>

theorem escapeXml_roundtrip:
  "set (escapeXml s) \<inter> {0x3C, 0x3E, 0x22, 0x27} = {}
   \<and> (\<forall>i < length (escapeXml s). escapeXml s ! i = 0x26 \<longrightarrow> entity_at (escapeXml s) i)
   \<and> unescapeXml (escapeXml s) = s
   \<and> (escapeXml s = escapeXml t \<longrightarrow> s = t)"
proof -
  have inj: "escapeXml s = escapeXml t \<longrightarrow> s = t"
    by (metis unescapeXml_escapeXml)
  have amp: "\<forall>i < length (escapeXml s). escapeXml s ! i = 0x26 \<longrightarrow> entity_at (escapeXml s) i"
    by (intro allI impI) (rule escapeXml_amp)
  show ?thesis
    by (intro conjI) (rule escapeXml_safe amp unescapeXml_escapeXml inj)+
qed

theorem escapeXml_roundtrip_witness:
  \<open>escapeXml (str ''a<&"'') = str ''a&lt;&amp;&quot;''
   \<and> entity_at (escapeXml (str ''a<&"'')) 5
   \<and> unescapeXml (str ''a&lt;&amp;&quot;'') = str ''a<&"''
   \<and> escapeXml (str ''a<&"'') \<noteq> escapeXml (str ''a<&'')\<close>
proof -
  have e: \<open>escapeXml (str ''a<&"'') = str ''a&lt;&amp;&quot;''\<close>
    by (simp add: escapeXml_Cons escapeXml_Nil escape_char_def str_def)
  have \<open>str ''a<&"'' \<noteq> str ''a<&''\<close> by (simp add: str_def)
  then show ?thesis
    using escapeXml_roundtrip [of \<open>str ''a<&"''\<close> \<open>str ''a<&''\<close>] e
    by (auto simp add: str_def)
qed

end
